theory Spec2Isabelle
  imports Main
begin

section \<open>The ListenBrainz scrobbler: data model\<close>

text \<open>
  The model follows \<^verbatim>\<open>src/scrobbler/listenbrainzscrobbler.cpp\<close>. A member function
  becomes a function from the state of the scrobbler object to its new state; signals
  that are emitted and requests that are posted are appended to lists in the state. Not
  modelled are the constructor and destructor, \<^verbatim>\<open>ReloadSettings\<close>, \<^verbatim>\<open>Authenticate\<close> (it
  opens the browser) and \<^verbatim>\<open>JsonTrackMetadata\<close> (the JSON rendering of one listen). The
  clock (\<^verbatim>\<open>QDateTime::currentDateTime().toSecsSinceEpoch()\<close>) is an argument of the
  functions that read it. Epoch seconds and nanosecond lengths are \<^verbatim>\<open>qint64\<close> in the
  source and \<open>int\<close> here. Differences of clock readings and stored times are taken
  exact: \<^verbatim>\<open>QDateTime\<close> counts milliseconds in a \<^verbatim>\<open>qint64\<close>, so a clock reading in seconds is
  below \<open>2\<^sup>6\<^sup>3 / 1000\<close> in magnitude. The product of a duration with \<^verbatim>\<open>kNsecPerSec\<close>
  is wrapped to 64 bits, as the machine computes it, and the narrowing conversion
  \<^verbatim>\<open>static_cast<int>\<close> of a timer interval is wrapped to 32 bits (wrapping the product
  with \<^verbatim>\<open>kMsecPerSec\<close> to 64 bits first would not change the 32 bits kept).
\<close>

subsection \<open>Integers and strings\<close>

definition kScrobblesPerRequest :: nat where
  "kScrobblesPerRequest = 10"

text \<open>
  Modelled from the spec: \<^verbatim>\<open>kMsecPerSec\<close> and \<^verbatim>\<open>kNsecPerSec\<close> are declared in
  \<^verbatim>\<open>utilities/timeconstants.h\<close>, which is not among the sources; the spec gives every timer
  in seconds and the derived duration in seconds, so they are the number of milliseconds
  and of nanoseconds in one second.
\<close>

definition kMsecPerSec :: int where
  "kMsecPerSec = 1000"

definition kNsecPerSec :: int where
  "kNsecPerSec = 1000000000"

text \<open>\<^verbatim>\<open>static_cast<int>(x)\<close> of a 64-bit value: the low 32 bits, read as two's complement.\<close>

definition static_cast_int :: "int \<Rightarrow> int" where
  "static_cast_int x = (x + 2147483648) mod 4294967296 - 2147483648"

text \<open>The product of two \<^verbatim>\<open>qint64\<close> values: the low 64 bits, read as two's complement.\<close>

definition qint64_mul :: "int \<Rightarrow> int \<Rightarrow> int" where
  "qint64_mul a b = (a * b + 9223372036854775808) mod 18446744073709551616 - 9223372036854775808"

text \<open>Decimal numerals, as \<^verbatim>\<open>QString::arg\<close> prints an integer.\<close>

definition digit :: "nat \<Rightarrow> char" where
  "digit d = ''0123456789'' ! d"

fun string_of_nat :: "nat \<Rightarrow> string" where
  "string_of_nat n =
     (if n < 10 then [digit n]
      else string_of_nat (n div 10) @ [digit (n mod 10)])"

declare string_of_nat.simps [simp del]

definition string_of_int :: "int \<Rightarrow> string" where
  "string_of_int i = (if i < 0 then CHR ''-'' # string_of_nat (nat (- i)) else string_of_nat (nat i))"

subsection \<open>Songs, queue records and the cache\<close>

text \<open>
  Modelled from the spec: \<^verbatim>\<open>Song\<close> (\<^verbatim>\<open>core/song.h\<close>) is not among the sources. The record
  keeps what the scrobbler asks of a song: its id and url (the spec's identity and
  locator), the answers of \<^verbatim>\<open>is_valid()\<close>, \<^verbatim>\<open>is_metadata_good()\<close> (adequate metadata) and
  \<^verbatim>\<open>is_radio()\<close> (a live or radio-type item), the tags that go into messages, and the
  length. \<^verbatim>\<open>set_length_nanosec\<close> sets the length and nothing else, so the three answers
  do not depend on the length.
\<close>

record Song =
  song_id :: int
  url :: string
  is_valid :: bool
  is_metadata_good :: bool
  is_radio :: bool
  artist :: string
  album :: string
  title :: string
  effective_albumartist :: string
  musicbrainz_recording_id :: string
  length_nanosec :: int

definition set_length_nanosec :: "int \<Rightarrow> Song \<Rightarrow> Song" where
  "set_length_nanosec n song = song\<lparr>length_nanosec := n\<rparr>"

text \<open>\<^verbatim>\<open>Song()\<close>: the empty song that \<^verbatim>\<open>ClearPlaying\<close> stores.\<close>

definition empty_Song :: Song where
  "empty_Song = \<lparr>song_id = - 1, url = [], is_valid = False, is_metadata_good = False,
     is_radio = False, artist = [], album = [], title = [], effective_albumartist = [],
     musicbrainz_recording_id = [], length_nanosec = - 1\<rparr>"

text \<open>Modelled from the spec: \<^verbatim>\<open>ScrobbleMetadata\<close> and \<^verbatim>\<open>ScrobblerCacheItem\<close> are not among the
  sources; they are the spec's listen record: the track's identity fields, copied from
  the song when the record is made, the timestamp, and the flags \<open>sent\<close> and \<open>error\<close>.\<close>

record ScrobbleMetadata =
  md_artist :: string
  md_album :: string
  md_title :: string
  md_effective_albumartist :: string
  md_musicbrainz_recording_id :: string
  md_length_nanosec :: int

definition ScrobbleMetadata_of :: "Song \<Rightarrow> ScrobbleMetadata" where
  "ScrobbleMetadata_of song = \<lparr>md_artist = artist song, md_album = album song,
     md_title = title song, md_effective_albumartist = effective_albumartist song,
     md_musicbrainz_recording_id = musicbrainz_recording_id song,
     md_length_nanosec = length_nanosec song\<rparr>"

record ScrobblerCacheItem =
  item_metadata :: ScrobbleMetadata
  item_timestamp :: int
  sent :: bool
  error :: bool

text \<open>
  A \<^verbatim>\<open>ScrobblerCacheItemPtr\<close> is a shared pointer: the queue, the list returned by
  \<^verbatim>\<open>List()\<close> and the batch captured by a pending request all refer to the same records.
  Pointers are natural numbers and \<open>items\<close> is the store they point into.
\<close>

type_synonym ScrobblerCacheItemPtr = nat

record ScrobblerCache =
  items :: "ScrobblerCacheItemPtr \<Rightarrow> ScrobblerCacheItem"
  queue :: "ScrobblerCacheItemPtr list"
  next_item :: ScrobblerCacheItemPtr

text \<open>
  Modelled from the spec: \<^verbatim>\<open>ScrobblerCache\<close> (\<^verbatim>\<open>scrobblercache.cpp\<close>) is not among the
  sources. Section 4.1 of the spec gives its contract: \<open>Add\<close> appends a new unsent record,
  \<open>List\<close> returns all records in insertion order, \<open>Count\<close> counts the records not yet
  confirmed delivered, \<open>Flush\<close> removes the given records from the queue, \<open>SetError\<close>
  marks the given records \<open>error = true\<close>, \<open>ClearSent\<close> resets \<open>sent = false\<close> on
  them. Writing the queue to disk is not modelled.
\<close>

definition Cache_Add :: "Song \<Rightarrow> int \<Rightarrow> ScrobblerCache \<Rightarrow> ScrobblerCache" where
  "Cache_Add song ts c =
     c\<lparr>items := (items c)(next_item c :=
            \<lparr>item_metadata = ScrobbleMetadata_of song, item_timestamp = ts,
             sent = False, error = False\<rparr>),
       queue := queue c @ [next_item c],
       next_item := Suc (next_item c)\<rparr>"

definition Cache_List :: "ScrobblerCache \<Rightarrow> ScrobblerCacheItemPtr list" where
  "Cache_List c = queue c"

definition Cache_Count :: "ScrobblerCache \<Rightarrow> nat" where
  "Cache_Count c = length (queue c)"

definition Cache_Flush :: "ScrobblerCacheItemPtr list \<Rightarrow> ScrobblerCache \<Rightarrow> ScrobblerCache" where
  "Cache_Flush ptrs c = c\<lparr>queue := fold removeAll ptrs (queue c)\<rparr>"

definition Cache_SetError :: "ScrobblerCacheItemPtr list \<Rightarrow> ScrobblerCache \<Rightarrow> ScrobblerCache" where
  "Cache_SetError ptrs c =
     c\<lparr>items := fold (\<lambda>p h. h(p := (h p)\<lparr>error := True\<rparr>)) ptrs (items c)\<rparr>"

definition Cache_ClearSent :: "ScrobblerCacheItemPtr list \<Rightarrow> ScrobblerCache \<Rightarrow> ScrobblerCache" where
  "Cache_ClearSent ptrs c =
     c\<lparr>items := fold (\<lambda>p h. h(p := (h p)\<lparr>sent := False\<rparr>)) ptrs (items c)\<rparr>"

subsection \<open>Qt objects the scrobbler holds\<close>

text \<open>A single-shot \<^verbatim>\<open>QTimer\<close>: its interval in milliseconds and whether it is running.\<close>

record QTimer =
  interval :: int
  isActive :: bool

definition setInterval :: "int \<Rightarrow> QTimer \<Rightarrow> QTimer" where
  "setInterval msec t = t\<lparr>interval := msec\<rparr>"

definition start :: "QTimer \<Rightarrow> QTimer" where
  "start t = t\<lparr>isActive := True\<rparr>"

definition stop :: "QTimer \<Rightarrow> QTimer" where
  "stop t = t\<lparr>isActive := False\<rparr>"

record QUrl =
  isValid :: bool
  isEmpty :: bool
  toString :: string
  query :: "(string \<times> string) list"

definition hasQueryItem :: "QUrl \<Rightarrow> string \<Rightarrow> bool" where
  "hasQueryItem u k = (map_of (query u) k \<noteq> None)"

definition queryItemValue :: "QUrl \<Rightarrow> string \<Rightarrow> string" where
  "queryItemValue u k = (case map_of (query u) k of None \<Rightarrow> [] | Some v \<Rightarrow> v)"

text \<open>Modelled from the spec: \<^verbatim>\<open>LocalRedirectServer\<close> is not among the sources; when it
  signals, it holds either an error or the request URL it captured.\<close>

record LocalRedirectServer =
  server_error :: string
  request_url :: QUrl

datatype QJsonValue = JString string | JInt int | JOther

type_synonym QJsonObject = "(string \<times> QJsonValue) list"

definition contains :: "QJsonObject \<Rightarrow> string \<Rightarrow> bool" where
  "contains obj k = (map_of obj k \<noteq> None)"

definition json_toString :: "QJsonObject \<Rightarrow> string \<Rightarrow> string" where
  "json_toString obj k = (case map_of obj k of Some (JString s) \<Rightarrow> s | _ \<Rightarrow> [])"

definition json_toInt :: "QJsonObject \<Rightarrow> string \<Rightarrow> int" where
  "json_toInt obj k = (case map_of obj k of Some (JInt i) \<Rightarrow> i | _ \<Rightarrow> 0)"

text \<open>
  A finished \<^verbatim>\<open>QNetworkReply\<close>: the pointer that identifies it, \<^verbatim>\<open>error()\<close> as the number
  of the \<^verbatim>\<open>QNetworkReply::NetworkError\<close> enumerator, \<^verbatim>\<open>errorString()\<close>, the HTTP status
  attribute and the bytes of \<^verbatim>\<open>readAll()\<close>.
\<close>

record QNetworkReply =
  reply_ptr :: nat
  net_error :: int
  errorString :: string
  http_status :: int
  data :: string

definition NoError :: int where
  "NoError = 0"

definition ContentAccessDenied :: int where
  "ContentAccessDenied = 201"

definition ContentOperationNotPermittedError :: int where
  "ContentOperationNotPermittedError = 202"

definition AuthenticationRequiredError :: int where
  "AuthenticationRequiredError = 204"

datatype ReplyResult = Success | ServerError | APIError

text \<open>What a request carries. The JSON rendering of a listen (\<^verbatim>\<open>JsonTrackMetadata\<close>) is not
  modelled: a payload entry is the metadata itself, with \<^verbatim>\<open>listened_at\<close> for an import.\<close>

datatype grant = AuthorizationCode string string | RefreshToken string

datatype request =
    TokenRequest grant
  | PlayingNow ScrobbleMetadata
  | Import "(int \<times> ScrobbleMetadata) list"
  | RecordingFeedback string int

text \<open>The slot connected to a reply's \<^verbatim>\<open>finished\<close> signal, with what the lambda captured.\<close>

datatype slot =
    AuthenticateReplyFinished_slot
  | UpdateNowPlayingRequestFinished_slot
  | ScrobbleRequestFinished_slot "ScrobblerCacheItemPtr list"
  | LoveRequestFinished_slot

datatype signal =
    AuthenticationComplete bool string
  | ErrorMessage string
  | ShowConfig

text \<open>The keys of the settings group \<^verbatim>\<open>ListenBrainz\<close> that hold the session, each with
  the type it is written and read with; \<open>None\<close> is a key that is absent.\<close>

record Settings =
  st_access_token :: "string option"
  st_expires_in :: "int option"
  st_token_type :: "string option"
  st_refresh_token :: "string option"
  st_login_time :: "int option"

subsection \<open>The scrobbler object\<close>

record ListenBrainzScrobbler =
  cache :: ScrobblerCache
  server :: "LocalRedirectServer option"
  enabled :: bool
  access_token :: string
  expires_in :: int
  token_type :: string
  refresh_token :: string
  login_time :: int
  submitted :: bool
  scrobbled :: bool
  timestamp :: int
  submit_error :: bool
  song_playing :: Song
  refresh_login_timer :: QTimer
  timer_submit :: QTimer
  replies :: "nat list"
  connections :: "(nat \<times> slot) list"
  network :: "(nat \<times> request) list"
  next_reply :: nat
  settings_store :: Settings
  emitted :: "signal list"

text \<open>
  What the scrobbler reads from outside its own file: the accessors of
  \<^verbatim>\<open>ScrobblerSettings\<close> (\<open>offline\<close>, \<open>submit_delay\<close>, \<open>show_error_dialog\<close>), and three
  declarations of the class header and its base class, which are not among the sources
  and are therefore parameters: \<open>enabled()\<close>, \<open>authenticated()\<close>, the JSON parser
  \<open>ExtractJsonObj(data, json_obj, error_description)\<close> with its two reference arguments
  returned, and the default value of the argument \<open>initial\<close> of \<open>StartSubmit\<close>.
\<close>

record Env =
  offline :: bool
  submit_delay :: int
  show_error_dialog :: bool
  is_enabled :: "ListenBrainzScrobbler \<Rightarrow> bool"
  authenticated :: "ListenBrainzScrobbler \<Rightarrow> bool"
  ExtractJsonObj :: "string \<Rightarrow> QJsonObject \<Rightarrow> string \<Rightarrow> bool \<times> QJsonObject \<times> string"
  initial_default :: bool

section \<open>The member functions\<close>

subsection \<open>Signals\<close>

definition AuthError :: "string \<Rightarrow> ListenBrainzScrobbler \<Rightarrow> ListenBrainzScrobbler" where
  "AuthError err s = s\<lparr>emitted := emitted s @ [AuthenticationComplete False err]\<rparr>"

definition Error :: "Env \<Rightarrow> string \<Rightarrow> ListenBrainzScrobbler \<Rightarrow> ListenBrainzScrobbler" where
  "Error E err s =
     (if show_error_dialog E
      then s\<lparr>emitted := emitted s @ [ErrorMessage (''ListenBrainz error: '' @ err)]\<rparr>
      else s)"

subsection \<open>Session\<close>

definition LoadSession :: "int \<Rightarrow> ListenBrainzScrobbler \<Rightarrow> ListenBrainzScrobbler" where
  "LoadSession now s =
     (let st = settings_store s;
          s1 = s\<lparr>access_token := (case st_access_token st of None \<Rightarrow> [] | Some v \<Rightarrow> v),
                 expires_in := (case st_expires_in st of None \<Rightarrow> - 1 | Some v \<Rightarrow> v),
                 token_type := (case st_token_type st of None \<Rightarrow> [] | Some v \<Rightarrow> v),
                 refresh_token := (case st_refresh_token st of None \<Rightarrow> [] | Some v \<Rightarrow> v),
                 login_time := (case st_login_time st of None \<Rightarrow> 0 | Some v \<Rightarrow> v)\<rparr>
      in if refresh_token s1 \<noteq> [] then
           (let time0 = expires_in s1 - (now - login_time s1);
                time = (if time0 < 6 then 6 else time0)
            in s1\<lparr>refresh_login_timer :=
                    start (setInterval (static_cast_int (time * kMsecPerSec)) (refresh_login_timer s1))\<rparr>)
         else s1)"

definition Logout :: "ListenBrainzScrobbler \<Rightarrow> ListenBrainzScrobbler" where
  "Logout s =
     s\<lparr>access_token := [],
       token_type := [],
       refresh_token := [],
       expires_in := - 1,
       login_time := 0,
       settings_store := (settings_store s)\<lparr>st_access_token := None, st_expires_in := None,
          st_token_type := None, st_refresh_token := None\<rparr>\<rparr>"

subsection \<open>Requests and replies\<close>

definition network_post :: "request \<Rightarrow> ListenBrainzScrobbler \<Rightarrow> nat \<times> ListenBrainzScrobbler" where
  "network_post req s =
     (next_reply s, s\<lparr>network := network s @ [(next_reply s, req)], next_reply := Suc (next_reply s)\<rparr>)"

definition connect_finished :: "nat \<Rightarrow> slot \<Rightarrow> ListenBrainzScrobbler \<Rightarrow> ListenBrainzScrobbler" where
  "connect_finished reply sl s = s\<lparr>connections := connections s @ [(reply, sl)]\<rparr>"

text \<open>The first four statements of every reply handler, after the test that the reply is
  one of \<^verbatim>\<open>replies_\<close>: remove it from the list and disconnect it.\<close>

definition take_reply :: "nat \<Rightarrow> ListenBrainzScrobbler \<Rightarrow> ListenBrainzScrobbler" where
  "take_reply reply s =
     s\<lparr>replies := removeAll reply (replies s),
       connections := filter (\<lambda>c. fst c \<noteq> reply) (connections s)\<rparr>"

definition CreateRequest :: "request \<Rightarrow> ListenBrainzScrobbler \<Rightarrow> nat \<times> ListenBrainzScrobbler" where
  "CreateRequest req s =
     (case network_post req s of (reply, s1) \<Rightarrow> (reply, s1\<lparr>replies := replies s1 @ [reply]\<rparr>))"

definition GetJsonObject ::
  "Env \<Rightarrow> QNetworkReply \<Rightarrow> QJsonObject \<Rightarrow> string \<Rightarrow> ListenBrainzScrobbler
     \<Rightarrow> ReplyResult \<times> QJsonObject \<times> string \<times> ListenBrainzScrobbler" where
  "GetJsonObject E reply json_obj error_description s =
     (let (type1, descr1) =
            (if net_error reply = NoError then
               (if http_status reply = 200 then (Success, error_description)
                else (ServerError, ''Received HTTP code '' @ string_of_int (http_status reply)))
             else (ServerError, errorString reply @ '' ('' @ string_of_int (net_error reply) @ '')''))
      in if net_error reply = NoError \<or> net_error reply \<ge> 200 then
           (let (type2, obj2, descr2) =
                  (if data reply \<noteq> [] then
                     (case ExtractJsonObj E (data reply) json_obj descr1 of (ok, obj, descr) \<Rightarrow>
                        if ok then
                          (if contains obj ''error'' \<and> contains obj ''error_description''
                           then (APIError, obj, json_toString obj ''error_description'')
                           else if contains obj ''code'' \<and> contains obj ''error''
                           then (APIError, obj,
                                 json_toString obj ''error'' @ '' ('' @ string_of_int (json_toInt obj ''code'') @ '')'')
                           else (type1, obj, descr))
                        else (type1, obj, descr))
                   else (type1, json_obj, descr1));
                s1 = (if net_error reply = ContentAccessDenied
                         \<or> net_error reply = ContentOperationNotPermittedError
                         \<or> net_error reply = AuthenticationRequiredError
                      then Logout s else s)
            in (type2, obj2, descr2, s1))
         else (type1, json_obj, descr1, s))"

subsection \<open>Submission\<close>

text \<open>The loop of \<^verbatim>\<open>Submit\<close> over \<^verbatim>\<open>all_cache_items\<close>: it carries the records (marking
  \<open>sent\<close> writes through the pointer), \<^verbatim>\<open>cache_items_sent\<close> and the JSON \<^verbatim>\<open>array\<close>.\<close>

fun Submit_loop ::
  "ScrobblerCacheItemPtr list \<Rightarrow> (ScrobblerCacheItemPtr \<Rightarrow> ScrobblerCacheItem)
     \<Rightarrow> ScrobblerCacheItemPtr list \<Rightarrow> (int \<times> ScrobbleMetadata) list
     \<Rightarrow> (ScrobblerCacheItemPtr \<Rightarrow> ScrobblerCacheItem) \<times> ScrobblerCacheItemPtr list
         \<times> (int \<times> ScrobbleMetadata) list" where
  "Submit_loop [] h cache_items_sent array = (h, cache_items_sent, array)"
| "Submit_loop (cache_item # rest) h cache_items_sent array =
     (if sent (h cache_item) then Submit_loop rest h cache_items_sent array
      else if error (h cache_item) \<and> length cache_items_sent > 0 then (h, cache_items_sent, array)
      else
        (let h1 = h(cache_item := (h cache_item)\<lparr>sent := True\<rparr>);
             cache_items_sent1 = cache_items_sent @ [cache_item];
             array1 = array @ [(item_timestamp (h1 cache_item), item_metadata (h1 cache_item))]
         in if length cache_items_sent1 \<ge> kScrobblesPerRequest \<or> error (h1 cache_item)
            then (h1, cache_items_sent1, array1)
            else Submit_loop rest h1 cache_items_sent1 array1))"

definition Submit :: "Env \<Rightarrow> ListenBrainzScrobbler \<Rightarrow> ListenBrainzScrobbler" where
  "Submit E s =
     (if \<not> is_enabled E s \<or> \<not> authenticated E s \<or> offline E then s
      else
        (case Submit_loop (Cache_List (cache s)) (items (cache s)) [] [] of
           (h, cache_items_sent, array) \<Rightarrow>
             (let s1 = s\<lparr>cache := (cache s)\<lparr>items := h\<rparr>\<rparr>
              in if length cache_items_sent \<le> 0 then s1
                 else
                   (case CreateRequest (Import array) (s1\<lparr>submitted := True\<rparr>) of
                      (reply, s2) \<Rightarrow>
                        connect_finished reply (ScrobbleRequestFinished_slot cache_items_sent) s2))))"

definition StartSubmit :: "Env \<Rightarrow> bool \<Rightarrow> ListenBrainzScrobbler \<Rightarrow> ListenBrainzScrobbler" where
  "StartSubmit E initial s =
     (if \<not> submitted s \<and> Cache_Count (cache s) > 0 then
        (if initial \<and> submit_delay E \<le> 0 \<and> \<not> submit_error s then
           Submit E (if isActive (timer_submit s)
                     then s\<lparr>timer_submit := stop (timer_submit s)\<rparr> else s)
         else if \<not> isActive (timer_submit s) then
           (let submit_delay1 =
                  static_cast_int (max (submit_delay E) (if submit_error s then 30 else 5) * kMsecPerSec)
            in s\<lparr>timer_submit := start (setInterval submit_delay1 (timer_submit s))\<rparr>)
         else s)
      else s)"

definition ScrobbleRequestFinished ::
  "Env \<Rightarrow> QNetworkReply \<Rightarrow> ScrobblerCacheItemPtr list \<Rightarrow> ListenBrainzScrobbler
     \<Rightarrow> ListenBrainzScrobbler" where
  "ScrobbleRequestFinished E reply cache_items s =
     (if reply_ptr reply \<notin> set (replies s) then s
      else
        (let s1 = (take_reply (reply_ptr reply) s)\<lparr>submitted := False\<rparr>
         in case GetJsonObject E reply [] [] s1 of
              (reply_result, json_obj, error_message, s2) \<Rightarrow>
                (let s3 =
                       (if reply_result = Success then
                          s2\<lparr>cache := Cache_Flush cache_items (cache s2), submit_error := False\<rparr>
                        else
                          (let s2e = s2\<lparr>submit_error := True\<rparr>
                           in if reply_result = APIError then
                                (if length cache_items = 1 then
                                   (let metadata = item_metadata (items (cache s2e) (hd cache_items));
                                        s2m = Error E (''Unable to scrobble '' @ md_effective_albumartist metadata
                                                @ '' - '' @ md_title metadata
                                                @ '' because of error: '' @ error_message) s2e
                                    in s2m\<lparr>cache := Cache_Flush cache_items (cache s2m)\<rparr>)
                                 else
                                   (let s2m = Error E error_message s2e
                                    in s2m\<lparr>cache := Cache_ClearSent cache_items
                                                      (Cache_SetError cache_items (cache s2m))\<rparr>))
                              else
                                (let s2m = Error E error_message s2e
                                 in s2m\<lparr>cache := Cache_ClearSent cache_items (cache s2m)\<rparr>)))
                 in StartSubmit E (initial_default E) s3)))"

subsection \<open>Token exchange\<close>

text \<open>The client id and secret that every token request carries are constants of the file
  and are left out of \<open>TokenRequest\<close>.\<close>

definition RequestAccessToken ::
  "QUrl \<Rightarrow> string \<Rightarrow> ListenBrainzScrobbler \<Rightarrow> ListenBrainzScrobbler" where
  "RequestAccessToken redirect_url code s =
     (let s1 = s\<lparr>refresh_login_timer := stop (refresh_login_timer s)\<rparr>;
          params =
            (if code \<noteq> [] \<and> \<not> isEmpty redirect_url
             then Some (AuthorizationCode code (toString redirect_url))
             else if refresh_token s1 \<noteq> [] \<and> enabled s1
             then Some (RefreshToken (refresh_token s1))
             else None)
      in case params of
           None \<Rightarrow> s1
         | Some g \<Rightarrow>
             (case network_post (TokenRequest g) s1 of
                (reply, s2) \<Rightarrow>
                  connect_finished reply AuthenticateReplyFinished_slot
                    (s2\<lparr>replies := replies s2 @ [reply]\<rparr>)))"

definition RedirectArrived :: "ListenBrainzScrobbler \<Rightarrow> ListenBrainzScrobbler" where
  "RedirectArrived s =
     (case server s of
        None \<Rightarrow> s
      | Some srv \<Rightarrow>
          (let s1 =
                 (if server_error srv = [] then
                    (let u = request_url srv
                     in if isValid u then
                          (if hasQueryItem u ''error'' then AuthError (queryItemValue u ''error'') s
                           else if hasQueryItem u ''code''
                           then RequestAccessToken u (queryItemValue u ''code'') s
                           else AuthError ''Redirect missing token code!'' s)
                        else AuthError ''Received invalid reply from web browser.'' s)
                  else AuthError (server_error srv) s)
           in s1\<lparr>server := None\<rparr>))"

definition AuthenticateReplyFinished ::
  "Env \<Rightarrow> int \<Rightarrow> QNetworkReply \<Rightarrow> ListenBrainzScrobbler \<Rightarrow> ListenBrainzScrobbler" where
  "AuthenticateReplyFinished E now reply s =
     (if reply_ptr reply \<notin> set (replies s) then s
      else
        (case GetJsonObject E reply [] [] (take_reply (reply_ptr reply) s) of
           (reply_result, json_obj, error_message, s1) \<Rightarrow>
             if reply_result \<noteq> Success then AuthError error_message s1
             else if \<not> contains json_obj ''access_token'' \<or> \<not> contains json_obj ''expires_in''
                     \<or> \<not> contains json_obj ''token_type''
             then AuthError ''Json access_token, expires_in or token_type is missing.'' s1
             else
               (let s2 = s1\<lparr>access_token := json_toString json_obj ''access_token'',
                              expires_in := json_toInt json_obj ''expires_in'',
                              token_type := json_toString json_obj ''token_type''\<rparr>;
                    s3 = (if contains json_obj ''refresh_token''
                          then s2\<lparr>refresh_token := json_toString json_obj ''refresh_token''\<rparr>
                          else s2);
                    s4 = s3\<lparr>login_time := now\<rparr>;
                    s5 = s4\<lparr>settings_store :=
                              \<lparr>st_access_token = Some (access_token s4),
                               st_expires_in = Some (expires_in s4),
                               st_token_type = Some (token_type s4),
                               st_refresh_token = Some (refresh_token s4),
                               st_login_time = Some (login_time s4)\<rparr>\<rparr>;
                    s6 = (if expires_in s5 > 0
                          then s5\<lparr>refresh_login_timer :=
                                    start (setInterval (static_cast_int (expires_in s5 * kMsecPerSec))
                                             (refresh_login_timer s5))\<rparr>
                          else s5);
                    s7 = s6\<lparr>emitted := emitted s6 @ [AuthenticationComplete True []]\<rparr>
                in StartSubmit E (initial_default E) s7)))"

subsection \<open>Play tracking\<close>

definition Scrobble :: "Env \<Rightarrow> Song \<Rightarrow> ListenBrainzScrobbler \<Rightarrow> ListenBrainzScrobbler" where
  "Scrobble E song s =
     (if song_id song \<noteq> song_id (song_playing s) \<or> url song \<noteq> url (song_playing s)
         \<or> \<not> is_metadata_good song
      then s
      else
        (let s1 = s\<lparr>scrobbled := True\<rparr>;
             s2 = s1\<lparr>cache := Cache_Add song (timestamp s1) (cache s1)\<rparr>
         in if offline E \<or> \<not> authenticated E s2 then s2
            else StartSubmit E (initial_default E) s2))"

definition CheckScrobblePrevSong ::
  "Env \<Rightarrow> int \<Rightarrow> ListenBrainzScrobbler \<Rightarrow> ListenBrainzScrobbler" where
  "CheckScrobblePrevSong E now s =
     (let duration0 = now - timestamp s;
          duration = (if duration0 < 0 then 0 else duration0)
      in if \<not> scrobbled s \<and> is_metadata_good (song_playing s) \<and> is_radio (song_playing s)
            \<and> duration > 30
         then Scrobble E (set_length_nanosec (qint64_mul duration kNsecPerSec) (song_playing s)) s
         else s)"

text \<open>\<^verbatim>\<open>UpdateNowPlaying\<close> reads the clock twice: in \<^verbatim>\<open>CheckScrobblePrevSong\<close> (\<open>now\<close>) and
  for the new \<^verbatim>\<open>timestamp_\<close> (\<open>now1\<close>).\<close>

definition UpdateNowPlaying ::
  "Env \<Rightarrow> int \<Rightarrow> int \<Rightarrow> Song \<Rightarrow> ListenBrainzScrobbler \<Rightarrow> ListenBrainzScrobbler" where
  "UpdateNowPlaying E now now1 song s =
     (let s1 = CheckScrobblePrevSong E now s;
          s2 = s1\<lparr>song_playing := song, scrobbled := False, timestamp := now1\<rparr>
      in if \<not> is_metadata_good song \<or> \<not> authenticated E s2 \<or> offline E then s2
         else
           (case CreateRequest (PlayingNow (ScrobbleMetadata_of song)) s2 of
              (reply, s3) \<Rightarrow> connect_finished reply UpdateNowPlayingRequestFinished_slot s3))"

definition UpdateNowPlayingRequestFinished ::
  "Env \<Rightarrow> QNetworkReply \<Rightarrow> ListenBrainzScrobbler \<Rightarrow> ListenBrainzScrobbler" where
  "UpdateNowPlayingRequestFinished E reply s =
     (if reply_ptr reply \<notin> set (replies s) then s
      else
        (case GetJsonObject E reply [] [] (take_reply (reply_ptr reply) s) of
           (reply_result, json_obj, error_description, s1) \<Rightarrow>
             if reply_result \<noteq> Success then Error E error_description s1
             else if \<not> contains json_obj ''status''
             then Error E ''Now playing request is missing status from server.'' s1
             else
               (let status = json_toString json_obj ''status''
                in if status \<notin> {''ok'', ''oK'', ''Ok'', ''OK''}
                   then Error E (''Received '' @ status @ '' status for now playing.'') s1
                   else s1)))"

definition ClearPlaying :: "Env \<Rightarrow> int \<Rightarrow> ListenBrainzScrobbler \<Rightarrow> ListenBrainzScrobbler" where
  "ClearPlaying E now s =
     (let s1 = CheckScrobblePrevSong E now s
      in s1\<lparr>song_playing := empty_Song, scrobbled := False, timestamp := 0\<rparr>)"

definition Love :: "Env \<Rightarrow> ListenBrainzScrobbler \<Rightarrow> ListenBrainzScrobbler" where
  "Love E s =
     (if \<not> is_valid (song_playing s) \<or> \<not> is_metadata_good (song_playing s) then s
      else
        (let s1 = (if \<not> authenticated E s then s\<lparr>emitted := emitted s @ [ShowConfig]\<rparr> else s)
         in if musicbrainz_recording_id (song_playing s1) = [] then
              Error E (''Missing MusicBrainz recording ID for '' @ artist (song_playing s1) @ '' ''
                       @ album (song_playing s1) @ '' '' @ title (song_playing s1)) s1
            else
              (case CreateRequest (RecordingFeedback (musicbrainz_recording_id (song_playing s1)) 1) s1 of
                 (reply, s2) \<Rightarrow> connect_finished reply LoveRequestFinished_slot s2)))"

definition LoveRequestFinished ::
  "Env \<Rightarrow> QNetworkReply \<Rightarrow> ListenBrainzScrobbler \<Rightarrow> ListenBrainzScrobbler" where
  "LoveRequestFinished E reply s =
     (if reply_ptr reply \<notin> set (replies s) then s
      else
        (case GetJsonObject E reply [] [] (take_reply (reply_ptr reply) s) of
           (reply_result, json_obj, error_message, s1) \<Rightarrow>
             if reply_result \<noteq> Success then Error E error_message s1 else s1))"

subsection \<open>Events\<close>

text \<open>A reply that finishes runs the slot connected to it; the submit timer, when it
  fires, stops (it is single-shot) and runs \<^verbatim>\<open>Submit\<close>.\<close>

definition finished ::
  "Env \<Rightarrow> int \<Rightarrow> QNetworkReply \<Rightarrow> ListenBrainzScrobbler \<Rightarrow> ListenBrainzScrobbler" where
  "finished E now reply s =
     (case map_of (connections s) (reply_ptr reply) of
        None \<Rightarrow> s
      | Some AuthenticateReplyFinished_slot \<Rightarrow> AuthenticateReplyFinished E now reply s
      | Some UpdateNowPlayingRequestFinished_slot \<Rightarrow> UpdateNowPlayingRequestFinished E reply s
      | Some (ScrobbleRequestFinished_slot cache_items) \<Rightarrow> ScrobbleRequestFinished E reply cache_items s
      | Some LoveRequestFinished_slot \<Rightarrow> LoveRequestFinished E reply s)"

definition timer_submit_timeout :: "Env \<Rightarrow> ListenBrainzScrobbler \<Rightarrow> ListenBrainzScrobbler" where
  "timer_submit_timeout E s =
     (if isActive (timer_submit s) then Submit E (s\<lparr>timer_submit := stop (timer_submit s)\<rparr>) else s)"

section \<open>Derived notions\<close>

subsection \<open>The batch of \<open>Submit\<close>\<close>

text \<open>\<^verbatim>\<open>cache_items_sent\<close> as the loop of \<open>Submit\<close> leaves it.\<close>

definition Submit_batch :: "ScrobblerCache \<Rightarrow> ScrobblerCacheItemPtr list" where
  "Submit_batch c = fst (snd (Submit_loop (Cache_List c) (items c) [] []))"

text \<open>The batch as section 4.2 of the spec words it: take the records not yet \<open>sent\<close>, in
  queue order; an error-flagged first record goes alone; otherwise records are taken up to
  the first error-flagged one, and at most ten of them.\<close>

definition batch_spec :: "(ScrobblerCacheItemPtr \<Rightarrow> ScrobblerCacheItem) \<Rightarrow> ScrobblerCacheItemPtr list \<Rightarrow> ScrobblerCacheItemPtr list" where
  "batch_spec h q =
     (case filter (\<lambda>p. \<not> sent (h p)) q of
        [] \<Rightarrow> []
      | p # ps \<Rightarrow> if error (h p) then [p]
                  else take 10 (takeWhile (\<lambda>p. \<not> error (h p)) (p # ps)))"

text \<open>The queue holds each pointer once, and \<open>Add\<close> hands out a pointer that is not in
  it: every event keeps this, see \<open>run_cache_ok\<close>.\<close>

definition cache_ok :: "ScrobblerCache \<Rightarrow> bool" where
  "cache_ok c = (distinct (queue c) \<and> list_all (\<lambda>p. p < next_item c) (queue c))"

text \<open>The records after the loop: those of the batch are marked \<open>sent\<close>.\<close>

definition mark_sent :: "ScrobblerCacheItemPtr list \<Rightarrow> (ScrobblerCacheItemPtr \<Rightarrow> ScrobblerCacheItem) \<Rightarrow> (ScrobblerCacheItemPtr \<Rightarrow> ScrobblerCacheItem)" where
  "mark_sent ps h = (\<lambda>p. if p \<in> set ps then (h p)\<lparr>sent := True\<rparr> else h p)"

subsection \<open>Replies\<close>

text \<open>The transport errors on which \<open>GetJsonObject\<close> runs \<open>Logout\<close>.\<close>

definition session_invalid :: "QNetworkReply \<Rightarrow> bool" where
  "session_invalid reply =
     (net_error reply = ContentAccessDenied \<or> net_error reply = ContentOperationNotPermittedError
      \<or> net_error reply = AuthenticationRequiredError)"

text \<open>The stored session: the five members and the persisted keys.\<close>

definition session_of ::
  "ListenBrainzScrobbler \<Rightarrow> string \<times> int \<times> string \<times> string \<times> int \<times> Settings" where
  "session_of s =
     (access_token s, expires_in s, token_type s, refresh_token s, login_time s, settings_store s)"

text \<open>A reply whose \<^verbatim>\<open>finished\<close> signal is connected is one of \<^verbatim>\<open>replies_\<close>: every event
  keeps this, see \<open>run_connected_tracked\<close>.\<close>

definition connected_tracked :: "ListenBrainzScrobbler \<Rightarrow> bool" where
  "connected_tracked s = list_all (\<lambda>c. fst c \<in> set (replies s)) (connections s)"

subsection \<open>Events\<close>

text \<open>What can happen to the scrobbler, one call at a time: the public member functions,
  a reply that finishes, and the submit timer firing. Each event comes with the settings
  in force when it happens.\<close>

datatype event =
    Ev_LoadSession int
  | Ev_Logout
  | Ev_RedirectArrived
  | Ev_RequestAccessToken QUrl string
  | Ev_finished int QNetworkReply
  | Ev_UpdateNowPlaying int int Song
  | Ev_ClearPlaying int
  | Ev_Scrobble Song
  | Ev_StartSubmit bool
  | Ev_Submit
  | Ev_timer_submit_timeout
  | Ev_Love

fun step :: "Env \<Rightarrow> event \<Rightarrow> ListenBrainzScrobbler \<Rightarrow> ListenBrainzScrobbler" where
  "step E (Ev_LoadSession now) s = LoadSession now s"
| "step E Ev_Logout s = Logout s"
| "step E Ev_RedirectArrived s = RedirectArrived s"
| "step E (Ev_RequestAccessToken u code) s = RequestAccessToken u code s"
| "step E (Ev_finished now reply) s = finished E now reply s"
| "step E (Ev_UpdateNowPlaying now now1 song) s = UpdateNowPlaying E now now1 song s"
| "step E (Ev_ClearPlaying now) s = ClearPlaying E now s"
| "step E (Ev_Scrobble song) s = Scrobble E song s"
| "step E (Ev_StartSubmit initial) s = StartSubmit E initial s"
| "step E Ev_Submit s = Submit E s"
| "step E Ev_timer_submit_timeout s = timer_submit_timeout E s"
| "step E Ev_Love s = Love E s"

fun run :: "(Env \<times> event) list \<Rightarrow> ListenBrainzScrobbler \<Rightarrow> ListenBrainzScrobbler" where
  "run [] s = s"
| "run (x # xs) s = run xs (step (fst x) (snd x) s)"

text \<open>The events that leave the tracked item in place: all but \<open>UpdateNowPlaying\<close> and
  \<open>ClearPlaying\<close>.\<close>

fun keeps_tracking :: "event \<Rightarrow> bool" where
  "keeps_tracking (Ev_UpdateNowPlaying now now1 song) = False"
| "keeps_tracking (Ev_ClearPlaying now) = False"
| "keeps_tracking e = True"

subsection \<open>Example states\<close>

text \<open>A scrobbler that is enabled and logged in, idle, over a given cache; \<open>queue_of\<close>
  makes a cache of unsent records without error flag from their pointers.\<close>

definition example_item :: ScrobblerCacheItem where
  "example_item = \<lparr>item_metadata = \<lparr>md_artist = ''a'', md_album = ''b'', md_title = ''t'',
       md_effective_albumartist = ''a'', md_musicbrainz_recording_id = [], md_length_nanosec = 1\<rparr>,
     item_timestamp = 100, sent = False, error = False\<rparr>"

definition example_timer :: QTimer where
  "example_timer = \<lparr>interval = 0, isActive = False\<rparr>"

definition example_scrobbler :: "ScrobblerCache \<Rightarrow> ListenBrainzScrobbler" where
  "example_scrobbler c = \<lparr>cache = c, server = None, enabled = True, access_token = ''tok'',
     expires_in = 3600, token_type = ''Bearer'', refresh_token = ''ref'', login_time = 1000,
     submitted = False, scrobbled = False, timestamp = 0, submit_error = False,
     song_playing = empty_Song, refresh_login_timer = example_timer, timer_submit = example_timer,
     replies = [], connections = [], network = [], next_reply = 0,
     settings_store = \<lparr>st_access_token = Some ''tok'', st_expires_in = Some 3600,
        st_token_type = Some ''Bearer'', st_refresh_token = Some ''ref'', st_login_time = Some 1000\<rparr>,
     emitted = []\<rparr>"

text \<open>The settings are: online, no submit delay, error dialogs shown. The parser stands
  for \<^verbatim>\<open>ExtractJsonObj\<close> and knows one body, an API error object.\<close>

definition example_env :: Env where
  "example_env = \<lparr>offline = False, submit_delay = 0, show_error_dialog = True,
     is_enabled = enabled, authenticated = (\<lambda>s. access_token s \<noteq> []),
     ExtractJsonObj = (\<lambda>d obj descr.
        if d = ''code=400'' then (True, [(''code'', JInt 400), (''error'', JString ''bad listen'')], descr)
        else (False, obj, ''not json'')),
     initial_default = False\<rparr>"

definition queue_of :: "ScrobblerCacheItemPtr list \<Rightarrow> ScrobblerCache" where
  "queue_of q = \<lparr>items = (\<lambda>p. example_item), queue = q, next_item = Suc (fold max q 0)\<rparr>"

text \<open>Three records \<open>0\<close>, \<open>1\<close>, \<open>2\<close>, none sent, the last one error-flagged.\<close>

definition queue_ok_ok_error :: ScrobblerCache where
  "queue_ok_ok_error =
     \<lparr>items = (\<lambda>p. example_item)(2 := example_item\<lparr>error := True\<rparr>), queue = [0, 1, 2],
      next_item = 3\<rparr>"

text \<open>Replies to the request with pointer \<open>0\<close>: a success, an API error, a transport
  error below 200, and \<^verbatim>\<open>AuthenticationRequiredError\<close>.\<close>

definition reply_success :: QNetworkReply where
  "reply_success = \<lparr>reply_ptr = 0, net_error = NoError, errorString = [], http_status = 200, data = []\<rparr>"

definition reply_api_error :: QNetworkReply where
  "reply_api_error = \<lparr>reply_ptr = 0, net_error = NoError, errorString = [], http_status = 400,
     data = ''code=400''\<rparr>"

definition reply_timeout :: QNetworkReply where
  "reply_timeout = \<lparr>reply_ptr = 0, net_error = 4, errorString = ''Socket operation timed out'',
     http_status = 0, data = []\<rparr>"

definition reply_auth_required :: QNetworkReply where
  "reply_auth_required = \<lparr>reply_ptr = 0, net_error = AuthenticationRequiredError,
     errorString = ''Host requires authentication'', http_status = 401, data = []\<rparr>"

text \<open>A scrobbler that has tracked a radio stream with good metadata since \<open>T = 0\<close> and
  has not scrobbled it; its queue is empty.\<close>

definition radio_song :: Song where
  "radio_song = \<lparr>song_id = 7, url = ''http://radio'', is_valid = True, is_metadata_good = True,
     is_radio = True, artist = ''a'', album = [], title = ''live'', effective_albumartist = ''a'',
     musicbrainz_recording_id = [], length_nanosec = - 1\<rparr>"

definition radio_scrobbler :: ListenBrainzScrobbler where
  "radio_scrobbler = (example_scrobbler (queue_of []))\<lparr>song_playing := radio_song, timestamp := 0\<rparr>"

text \<open>A redirect that carries a code, the scrobbler waiting for the token reply to it, and
  a scrobbler whose redirect server has captured a redirect that carries an error.\<close>

definition redirect_with_code :: QUrl where
  "redirect_with_code = \<lparr>isValid = True, isEmpty = False, toString = ''http://localhost:4000/?code=abc'',
     query = [(''code'', ''abc'')]\<rparr>"

definition awaiting_token :: ListenBrainzScrobbler where
  "awaiting_token = RequestAccessToken redirect_with_code ''abc'' (example_scrobbler (queue_of []))"

definition redirect_denied :: ListenBrainzScrobbler where
  "redirect_denied = (example_scrobbler (queue_of []))\<lparr>server := Some
     \<lparr>server_error = [], request_url = \<lparr>isValid = True, isEmpty = False,
        toString = ''http://localhost:4000/?error=access_denied'',
        query = [(''error'', ''access_denied'')]\<rparr>\<rparr>\<rparr>"

text \<open>Redirects captured by the server: one whose code item is empty and one whose error
  item is empty.\<close>

definition redirect_empty_code :: ListenBrainzScrobbler where
  "redirect_empty_code = (example_scrobbler (queue_of []))\<lparr>server := Some
     \<lparr>server_error = [], request_url = \<lparr>isValid = True, isEmpty = False,
        toString = ''http://localhost:4000/?code='', query = [(''code'', [])]\<rparr>\<rparr>\<rparr>"

definition redirect_empty_error :: ListenBrainzScrobbler where
  "redirect_empty_error = (example_scrobbler (queue_of []))\<lparr>server := Some
     \<lparr>server_error = [], request_url = \<lparr>isValid = True, isEmpty = False,
        toString = ''http://localhost:4000/?error='', query = [(''error'', [])]\<rparr>\<rparr>\<rparr>"

section \<open>Batch assembly\<close>

lemma Submit_loop_all_sent:
  "\<forall>p\<in>set q. sent (h p) \<Longrightarrow> Submit_loop q h acc arr = (h, acc, arr)"
  by (induction q) auto

lemma Submit_loop_batch_unsent:
  "p \<in> set (fst (snd (Submit_loop q h acc arr))) \<Longrightarrow> p \<in> set acc \<or> \<not> sent (h p)"
proof (induction q arbitrary: h acc arr)
  case Nil
  then show ?case by simp
next
  case (Cons a q)
  show ?case
  proof (cases "sent (h a)")
    case True
    with Cons show ?thesis by simp
  next
    case False
    note unsent = this
    show ?thesis
    proof (cases "error (h a) \<and> acc \<noteq> []")
      case True
      with Cons.prems unsent show ?thesis by auto
    next
      case False
      let ?h1 = "h(a := (h a)\<lparr>sent := True\<rparr>)"
      show ?thesis
      proof (cases "kScrobblesPerRequest \<le> Suc (length acc) \<or> error (h a)")
        case True
        with Cons.prems unsent False show ?thesis by (auto simp: Let_def)
      next
        case stop: False
        with Cons.prems unsent False
        have "p \<in> set (fst (snd (Submit_loop q ?h1 (acc @ [a]) (arr @ [(item_timestamp (h a), item_metadata (h a))]))))"
          by (auto simp: Let_def)
        from Cons.IH [OF this] unsent show ?thesis by (auto split: if_splits)
      qed
    qed
  qed
qed

lemma Submit_loop_acc:
  "distinct q \<Longrightarrow> acc \<noteq> [] \<Longrightarrow> length acc < kScrobblesPerRequest \<Longrightarrow>
   fst (snd (Submit_loop q h acc arr)) =
     acc @ take (kScrobblesPerRequest - length acc)
             (takeWhile (\<lambda>p. \<not> error (h p)) (filter (\<lambda>p. \<not> sent (h p)) q))"
proof (induction q arbitrary: h acc arr)
  case Nil
  then show ?case by simp
next
  case (Cons a q)
  define h1 where "h1 = h(a := (h a)\<lparr>sent := True\<rparr>)"
  have same: "\<And>p. p \<in> set q \<Longrightarrow> h1 p = h p"
    using Cons.prems(1) by (auto simp: h1_def)
  have filt: "filter (\<lambda>p. \<not> sent (h1 p)) q = filter (\<lambda>p. \<not> sent (h p)) q"
    by (rule filter_cong) (simp_all add: same)
  have tw: "takeWhile (\<lambda>p. \<not> error (h1 p)) (filter (\<lambda>p. \<not> sent (h p)) q)
            = takeWhile (\<lambda>p. \<not> error (h p)) (filter (\<lambda>p. \<not> sent (h p)) q)"
    by (rule takeWhile_cong) (simp_all add: same)
  show ?case
  proof (cases "sent (h a)")
    case True
    with Cons show ?thesis by simp
  next
    case unsent: False
    show ?thesis
    proof (cases "error (h a)")
      case True
      with Cons.prems unsent show ?thesis by simp
    next
      case ok: False
      show ?thesis
      proof (cases "kScrobblesPerRequest \<le> Suc (length acc)")
        case True
        with Cons.prems have "kScrobblesPerRequest - length acc = Suc 0" by simp
        with True unsent ok show ?thesis by (simp add: Let_def)
      next
        case False
        then have lt: "length (acc @ [a]) < kScrobblesPerRequest" by simp
        have d: "distinct q" using Cons.prems(1) by simp
        have sub: "kScrobblesPerRequest - length acc = Suc (kScrobblesPerRequest - length (acc @ [a]))"
          using lt by simp
        have step: "Submit_loop (a # q) h acc arr
                    = Submit_loop q h1 (acc @ [a]) (arr @ [(item_timestamp (h a), item_metadata (h a))])"
          using False unsent ok by (simp add: Let_def h1_def)
        have "fst (snd (Submit_loop (a # q) h acc arr))
              = (acc @ [a]) @ take (kScrobblesPerRequest - length (acc @ [a]))
                  (takeWhile (\<lambda>p. \<not> error (h1 p)) (filter (\<lambda>p. \<not> sent (h1 p)) q))"
          unfolding step by (rule Cons.IH [OF d _ lt]) simp
        also have "\<dots> = acc @ take (kScrobblesPerRequest - length acc)
             (takeWhile (\<lambda>p. \<not> error (h p)) (filter (\<lambda>p. \<not> sent (h p)) (a # q)))"
          unfolding filt tw sub using unsent ok by simp
        finally show ?thesis .
      qed
    qed
  qed
qed

lemma Submit_loop_spec:
  "distinct q \<Longrightarrow> fst (snd (Submit_loop q h [] [])) = batch_spec h q"
proof (induction q)
  case Nil
  then show ?case by (simp add: batch_spec_def)
next
  case (Cons a q)
  define h1 where "h1 = h(a := (h a)\<lparr>sent := True\<rparr>)"
  have same: "\<And>p. p \<in> set q \<Longrightarrow> h1 p = h p"
    using Cons.prems(1) by (auto simp: h1_def)
  have filt: "filter (\<lambda>p. \<not> sent (h1 p)) q = filter (\<lambda>p. \<not> sent (h p)) q"
    by (rule filter_cong) (simp_all add: same)
  have tw: "takeWhile (\<lambda>p. \<not> error (h1 p)) (filter (\<lambda>p. \<not> sent (h p)) q)
            = takeWhile (\<lambda>p. \<not> error (h p)) (filter (\<lambda>p. \<not> sent (h p)) q)"
    by (rule takeWhile_cong) (simp_all add: same)
  show ?case
  proof (cases "sent (h a)")
    case True
    with Cons show ?thesis by (simp add: batch_spec_def)
  next
    case unsent: False
    show ?thesis
    proof (cases "error (h a)")
      case True
      with unsent show ?thesis by (simp add: batch_spec_def kScrobblesPerRequest_def)
    next
      case False
      have d: "distinct q" using Cons.prems by simp
      have step: "Submit_loop (a # q) h [] []
                  = Submit_loop q h1 [a] [(item_timestamp (h a), item_metadata (h a))]"
        using False unsent by (simp add: Let_def h1_def kScrobblesPerRequest_def)
      have "fst (snd (Submit_loop (a # q) h [] []))
            = [a] @ take (kScrobblesPerRequest - length [a])
                (takeWhile (\<lambda>p. \<not> error (h1 p)) (filter (\<lambda>p. \<not> sent (h1 p)) q))"
        unfolding step by (rule Submit_loop_acc [OF d]) (simp_all add: kScrobblesPerRequest_def)
      also have "\<dots> = batch_spec h (a # q)"
        unfolding filt tw using False unsent by (simp add: batch_spec_def kScrobblesPerRequest_def)
      finally show ?thesis .
    qed
  qed
qed

lemma Submit_loop_result:
  "\<exists>new. Submit_loop q h acc arr =
      (mark_sent new h, acc @ new, arr @ map (\<lambda>p. (item_timestamp (h p), item_metadata (h p))) new)
      \<and> set new \<subseteq> set q"
proof (induction q arbitrary: h acc arr)
  case Nil
  have "Submit_loop [] h acc arr = (mark_sent [] h, acc @ [], arr @ map (\<lambda>p. (item_timestamp (h p), item_metadata (h p))) [])"
    by (simp add: mark_sent_def)
  then show ?case by blast
next
  case (Cons a q)
  define h1 where "h1 = h(a := (h a)\<lparr>sent := True\<rparr>)"
  have h1_fields: "\<And>p. item_timestamp (h1 p) = item_timestamp (h p)" "\<And>p. item_metadata (h1 p) = item_metadata (h p)"
    by (simp_all add: h1_def)
  have mark1: "\<And>new. mark_sent new h1 = mark_sent (a # new) h"
    by (auto simp: mark_sent_def h1_def fun_eq_iff)
  show ?case
  proof (cases "sent (h a)")
    case True
    from Cons.IH [of h acc arr] obtain new where
      "Submit_loop q h acc arr = (mark_sent new h, acc @ new, arr @ map (\<lambda>p. (item_timestamp (h p), item_metadata (h p))) new)"
      "set new \<subseteq> set q" by blast
    with True show ?thesis by auto
  next
    case unsent: False
    show ?thesis
    proof (cases "error (h a) \<and> acc \<noteq> []")
      case True
      with unsent have "Submit_loop (a # q) h acc arr = (mark_sent [] h, acc @ [], arr @ map (\<lambda>p. (item_timestamp (h p), item_metadata (h p))) [])"
        by (simp add: mark_sent_def)
      then show ?thesis by (metis empty_set empty_subsetI)
    next
      case noerr: False
      show ?thesis
      proof (cases "kScrobblesPerRequest \<le> Suc (length acc) \<or> error (h a)")
        case True
        with unsent noerr
        have "Submit_loop (a # q) h acc arr = (mark_sent [a] h, acc @ [a], arr @ map (\<lambda>p. (item_timestamp (h p), item_metadata (h p))) [a])"
          by (auto simp: mark_sent_def Let_def fun_eq_iff)
        moreover have "set [a] \<subseteq> set (a # q)" by simp
        ultimately show ?thesis by blast
      next
        case False
        with unsent noerr
        have step: "Submit_loop (a # q) h acc arr
                    = Submit_loop q h1 (acc @ [a]) (arr @ [(item_timestamp (h a), item_metadata (h a))])"
          by (auto simp: Let_def h1_def)
        from Cons.IH [of h1 "acc @ [a]" "arr @ [(item_timestamp (h a), item_metadata (h a))]"]
        obtain new where new:
          "Submit_loop q h1 (acc @ [a]) (arr @ [(item_timestamp (h a), item_metadata (h a))])
            = (mark_sent new h1, (acc @ [a]) @ new,
               (arr @ [(item_timestamp (h a), item_metadata (h a))]) @ map (\<lambda>p. (item_timestamp (h1 p), item_metadata (h1 p))) new)"
          "set new \<subseteq> set q" by blast
        have "Submit_loop (a # q) h acc arr = (mark_sent (a # new) h, acc @ (a # new),
               arr @ map (\<lambda>p. (item_timestamp (h p), item_metadata (h p))) (a # new))"
          unfolding step new(1) h1_fields mark1 by simp
        moreover have "set (a # new) \<subseteq> set (a # q)" using new(2) by auto
        ultimately show ?thesis by blast
      qed
    qed
  qed
qed

lemma Submit_loop_result0:
  "Submit_loop q h [] [] =
     (mark_sent (fst (snd (Submit_loop q h [] []))) h, fst (snd (Submit_loop q h [] [])),
      map (\<lambda>p. (item_timestamp (h p), item_metadata (h p))) (fst (snd (Submit_loop q h [] []))))"
proof -
  from Submit_loop_result [of q h "[]" "[]"] obtain new where
    "Submit_loop q h [] [] = (mark_sent new h, [] @ new, [] @ map (\<lambda>p. (item_timestamp (h p), item_metadata (h p))) new)"
    by blast
  then show ?thesis by simp
qed

lemma mark_sent_Nil: "mark_sent [] h = h"
  by (simp add: mark_sent_def)

text \<open>What \<open>Submit\<close> does, in terms of the batch it assembles.\<close>

lemma Submit_eq:
  "Submit E s =
     (if \<not> is_enabled E s \<or> \<not> authenticated E s \<or> offline E \<or> Submit_batch (cache s) = [] then s
      else s\<lparr>cache := (cache s)\<lparr>items := mark_sent (Submit_batch (cache s)) (items (cache s))\<rparr>,
             submitted := True,
             network := network s @ [(next_reply s,
                Import (map (\<lambda>p. (item_timestamp (items (cache s) p), item_metadata (items (cache s) p)))
                          (Submit_batch (cache s))))],
             next_reply := Suc (next_reply s),
             replies := replies s @ [next_reply s],
             connections := connections s @ [(next_reply s, ScrobbleRequestFinished_slot (Submit_batch (cache s)))]\<rparr>)"
proof -
  let ?r = "Submit_loop (Cache_List (cache s)) (items (cache s)) [] []"
  have r: "?r = (mark_sent (Submit_batch (cache s)) (items (cache s)), Submit_batch (cache s),
      map (\<lambda>p. (item_timestamp (items (cache s) p), item_metadata (items (cache s) p))) (Submit_batch (cache s)))"
    unfolding Submit_batch_def by (rule Submit_loop_result0)
  show ?thesis
    unfolding Submit_def r
    by (simp add: CreateRequest_def network_post_def connect_finished_def mark_sent_Nil)
qed

lemma Submit_batch_unsent: "p \<in> set (Submit_batch c) \<Longrightarrow> \<not> sent (items c p)"
  unfolding Submit_batch_def using Submit_loop_batch_unsent [of p "Cache_List c" "items c" "[]" "[]"] by simp

lemma Submit_all_sent:
  "\<forall>p\<in>set (Cache_List (cache s)). sent (items (cache s) p) \<Longrightarrow> Submit E s = s"
  by (simp add: Submit_def Submit_loop_all_sent)

lemma Submit_queue: "queue (cache (Submit E s)) = queue (cache s)"
  by (simp add: Submit_eq)

lemma Submit_loop_nonempty:
  "\<exists>p\<in>set q. \<not> sent (h p) \<Longrightarrow> fst (snd (Submit_loop q h [] arr)) \<noteq> []"
proof (induction q)
  case Nil
  then show ?case by simp
next
  case (Cons a q)
  show ?case
  proof (cases "sent (h a)")
    case True
    with Cons show ?thesis by auto
  next
    case unsent: False
    show ?thesis
    proof (cases "kScrobblesPerRequest \<le> Suc 0 \<or> error (h a)")
      case True
      with unsent show ?thesis by (auto simp: Let_def)
    next
      case False
      let ?h1 = "h(a := (h a)\<lparr>sent := True\<rparr>)"
      let ?arr1 = "arr @ [(item_timestamp (h a), item_metadata (h a))]"
      from Submit_loop_result [of q ?h1 "[a]" ?arr1] obtain new where
        "fst (snd (Submit_loop q ?h1 [a] ?arr1)) = [a] @ new"
        by auto
      with False unsent show ?thesis by (auto simp: Let_def)
    qed
  qed
qed

lemma Submit_batch_nonempty:
  "\<exists>p\<in>set (Cache_List c). \<not> sent (items c p) \<Longrightarrow> Submit_batch c \<noteq> []"
  unfolding Submit_batch_def by (rule Submit_loop_nonempty)

lemma Submit_batch_queued: "set (Submit_batch c) \<subseteq> set (Cache_List c)"
proof -
  from Submit_loop_result [of "Cache_List c" "items c" "[]" "[]"] obtain new where
    "fst (snd (Submit_loop (Cache_List c) (items c) [] [])) = [] @ new" "set new \<subseteq> set (Cache_List c)"
    by auto
  then show ?thesis by (simp add: Submit_batch_def)
qed

text \<open>
  Claim C1, as amended. \<open>Submit\<close> never selects a record that is already marked \<open>sent\<close>.
  It is a no-op (no record marked, no request issued, the scrobbler unchanged) whenever
  every queued record is already marked \<open>sent\<close>, as after a \<open>Submit\<close> that left no record
  unsent, and whenever the service is disabled, unauthenticated or offline. When the
  service is enabled, authenticated and online and some queued record is not marked
  \<open>sent\<close>, the call assembles a non-empty batch of queued records that were not marked
  \<open>sent\<close>, marks exactly these \<open>sent\<close> and posts one more request for them; the flag
  \<^verbatim>\<open>submitted_\<close> is not tested, so this also happens while an earlier request is in flight.
\<close>

theorem Submit_in_flight_skips_sent:
  "((\<forall>p\<in>set (Cache_List (cache s)). sent (items (cache s) p)) \<longrightarrow> Submit E s = s)
   \<and> ((\<forall>p\<in>set (Cache_List (cache s)). sent (items (cache (Submit E s)) p))
        \<longrightarrow> Submit E (Submit E s) = Submit E s)
   \<and> (\<forall>p\<in>set (Submit_batch (cache s)). \<not> sent (items (cache s) p))
   \<and> (\<not> is_enabled E s \<or> \<not> authenticated E s \<or> offline E \<longrightarrow> Submit E s = s)
   \<and> (is_enabled E s \<and> authenticated E s \<and> \<not> offline E
        \<and> (\<exists>p\<in>set (Cache_List (cache s)). \<not> sent (items (cache s) p))
       \<longrightarrow> Submit_batch (cache s) \<noteq> []
           \<and> set (Submit_batch (cache s)) \<subseteq> set (Cache_List (cache s))
           \<and> Submit E s =
               s\<lparr>cache := (cache s)\<lparr>items := mark_sent (Submit_batch (cache s)) (items (cache s))\<rparr>,
                 submitted := True,
                 network := network s @ [(next_reply s,
                    Import (map (\<lambda>p. (item_timestamp (items (cache s) p), item_metadata (items (cache s) p)))
                              (Submit_batch (cache s))))],
                 next_reply := Suc (next_reply s),
                 replies := replies s @ [next_reply s],
                 connections := connections s
                    @ [(next_reply s, ScrobbleRequestFinished_slot (Submit_batch (cache s)))]\<rparr>)"
proof -
  have a: "(\<forall>p\<in>set (Cache_List (cache s)). sent (items (cache s) p)) \<longrightarrow> Submit E s = s"
    using Submit_all_sent by blast
  have b: "(\<forall>p\<in>set (Cache_List (cache s)). sent (items (cache (Submit E s)) p))
        \<longrightarrow> Submit E (Submit E s) = Submit E s"
  proof
    assume "\<forall>p\<in>set (Cache_List (cache s)). sent (items (cache (Submit E s)) p)"
    then have "\<forall>p\<in>set (Cache_List (cache (Submit E s))). sent (items (cache (Submit E s)) p)"
      by (simp add: Cache_List_def Submit_queue)
    then show "Submit E (Submit E s) = Submit E s" by (rule Submit_all_sent)
  qed
  have c: "\<forall>p\<in>set (Submit_batch (cache s)). \<not> sent (items (cache s) p)"
    using Submit_batch_unsent by blast
  have d: "\<not> is_enabled E s \<or> \<not> authenticated E s \<or> offline E \<longrightarrow> Submit E s = s"
    by (simp add: Submit_def)
  have e: "is_enabled E s \<and> authenticated E s \<and> \<not> offline E
        \<and> (\<exists>p\<in>set (Cache_List (cache s)). \<not> sent (items (cache s) p))
       \<longrightarrow> Submit_batch (cache s) \<noteq> []
           \<and> set (Submit_batch (cache s)) \<subseteq> set (Cache_List (cache s))
           \<and> Submit E s =
               s\<lparr>cache := (cache s)\<lparr>items := mark_sent (Submit_batch (cache s)) (items (cache s))\<rparr>,
                 submitted := True,
                 network := network s @ [(next_reply s,
                    Import (map (\<lambda>p. (item_timestamp (items (cache s) p), item_metadata (items (cache s) p)))
                              (Submit_batch (cache s))))],
                 next_reply := Suc (next_reply s),
                 replies := replies s @ [next_reply s],
                 connections := connections s
                    @ [(next_reply s, ScrobbleRequestFinished_slot (Submit_batch (cache s)))]\<rparr>"
  proof
    assume h: "is_enabled E s \<and> authenticated E s \<and> \<not> offline E
        \<and> (\<exists>p\<in>set (Cache_List (cache s)). \<not> sent (items (cache s) p))"
    then have n: "Submit_batch (cache s) \<noteq> []"
      using Submit_batch_nonempty [of "cache s"] by blast
    have "Submit E s =
               s\<lparr>cache := (cache s)\<lparr>items := mark_sent (Submit_batch (cache s)) (items (cache s))\<rparr>,
                 submitted := True,
                 network := network s @ [(next_reply s,
                    Import (map (\<lambda>p. (item_timestamp (items (cache s) p), item_metadata (items (cache s) p)))
                              (Submit_batch (cache s))))],
                 next_reply := Suc (next_reply s),
                 replies := replies s @ [next_reply s],
                 connections := connections s
                    @ [(next_reply s, ScrobbleRequestFinished_slot (Submit_batch (cache s)))]\<rparr>"
      using h n by (simp add: Submit_eq)
    with n Submit_batch_queued [of "cache s"]
    show "Submit_batch (cache s) \<noteq> []
           \<and> set (Submit_batch (cache s)) \<subseteq> set (Cache_List (cache s))
           \<and> Submit E s =
               s\<lparr>cache := (cache s)\<lparr>items := mark_sent (Submit_batch (cache s)) (items (cache s))\<rparr>,
                 submitted := True,
                 network := network s @ [(next_reply s,
                    Import (map (\<lambda>p. (item_timestamp (items (cache s) p), item_metadata (items (cache s) p)))
                              (Submit_batch (cache s))))],
                 next_reply := Suc (next_reply s),
                 replies := replies s @ [next_reply s],
                 connections := connections s
                    @ [(next_reply s, ScrobbleRequestFinished_slot (Submit_batch (cache s)))]\<rparr>"
      by blast
  qed
  show ?thesis
    by (rule conjI [OF a conjI [OF b conjI [OF c conjI [OF d e]]]])
qed

lemmas example_defs = example_env_def example_scrobbler_def queue_of_def example_item_def
  example_timer_def

lemmas Submit_defs = Submit_def Cache_List_def kScrobblesPerRequest_def CreateRequest_def
  network_post_def connect_finished_def Let_def

theorem Submit_in_flight_skips_sent_witness:
  "Submit_batch (cache (example_scrobbler (queue_of [0, 1]))) = [0, 1]
   \<and> \<not> sent (items (cache (example_scrobbler (queue_of [0, 1]))) 0)
   \<and> Cache_List (cache (example_scrobbler (queue_of [0, 1]))) = [0, 1]
   \<and> sent (items (cache (Submit example_env (example_scrobbler (queue_of [0, 1])))) 0)
   \<and> sent (items (cache (Submit example_env (example_scrobbler (queue_of [0, 1])))) 1)
   \<and> submitted (Submit example_env (example_scrobbler (queue_of [0, 1])))
   \<and> Submit example_env (Submit example_env (example_scrobbler (queue_of [0, 1])))
       = Submit example_env (example_scrobbler (queue_of [0, 1]))
   \<and> offline (example_env\<lparr>offline := True\<rparr>)
   \<and> Submit (example_env\<lparr>offline := True\<rparr>) (example_scrobbler (queue_of [0, 1]))
       = example_scrobbler (queue_of [0, 1])
   \<and> is_enabled example_env (example_scrobbler (queue_of [0, 1]))
   \<and> authenticated example_env (example_scrobbler (queue_of [0, 1]))
   \<and> offline example_env = False
   \<and> connections (Submit example_env (example_scrobbler (queue_of [0, 1])))
       = [(0, ScrobbleRequestFinished_slot [0, 1])]
   \<and> submitted (Submit example_env (example_scrobbler (queue_of [0, 2, 3, 4, 5, 6, 7, 8, 9, 10, 11])))
   \<and> sent (items (cache (Submit example_env
         (example_scrobbler (queue_of [0, 2, 3, 4, 5, 6, 7, 8, 9, 10, 11])))) 11) = False
   \<and> Submit_batch (cache (Submit example_env
         (example_scrobbler (queue_of [0, 2, 3, 4, 5, 6, 7, 8, 9, 10, 11])))) \<noteq> []"
proof -
  let ?s = "example_scrobbler (queue_of [0, 1])"
  let ?f = "Submit example_env (example_scrobbler (queue_of [0, 2, 3, 4, 5, 6, 7, 8, 9, 10, 11]))"
  have fl: "submitted ?f" "sent (items (cache ?f) 11) = False" "11 \<in> set (Cache_List (cache ?f))"
    "is_enabled example_env ?f" "authenticated example_env ?f"
    by (simp_all add: example_defs Submit_defs)
  then have fx: "\<exists>p\<in>set (Cache_List (cache ?f)). \<not> sent (items (cache ?f) p)"
    by blast
  from Submit_in_flight_skips_sent [of ?f example_env] fl(4,5) fx
  have w4: "Submit_batch (cache ?f) \<noteq> []"
    by (simp add: example_env_def)
  let ?off = "example_env\<lparr>offline := True\<rparr>"
  have b: "Submit_batch (cache ?s) = [0, 1]"
    by (simp add: Submit_batch_def example_defs Submit_defs)
  have h: "\<forall>p\<in>set (Cache_List (cache ?s)). sent (items (cache (Submit example_env ?s)) p)"
    by (simp add: example_defs Submit_defs)
  have f: "submitted (Submit example_env ?s)"
    by (simp add: example_defs Submit_defs)
  have l: "Cache_List (cache ?s) = [0, 1]"
    by (simp add: example_defs Submit_defs)
  have u: "\<not> sent (items (cache ?s) 0)"
    by (simp add: example_defs)
  have g: "is_enabled example_env ?s" "authenticated example_env ?s" "offline example_env = False"
    "offline ?off" "connections ?s = []" "next_reply ?s = 0"
    by (simp_all add: example_env_def example_scrobbler_def)
  have x: "\<exists>p\<in>set (Cache_List (cache ?s)). \<not> sent (items (cache ?s) p)"
    using l u by simp
  note t = Submit_in_flight_skips_sent [of ?s example_env]
  note t_off = Submit_in_flight_skips_sent [of ?s ?off]
  from t h have w1: "Submit example_env (Submit example_env ?s) = Submit example_env ?s"
    by blast
  from t_off g(4) have w2: "Submit ?off ?s = ?s"
    by blast
  from t g(1,2,3) x have "Submit example_env ?s =
               ?s\<lparr>cache := (cache ?s)\<lparr>items := mark_sent (Submit_batch (cache ?s)) (items (cache ?s))\<rparr>,
                 submitted := True,
                 network := network ?s @ [(next_reply ?s,
                    Import (map (\<lambda>p. (item_timestamp (items (cache ?s) p), item_metadata (items (cache ?s) p)))
                              (Submit_batch (cache ?s))))],
                 next_reply := Suc (next_reply ?s),
                 replies := replies ?s @ [next_reply ?s],
                 connections := connections ?s
                    @ [(next_reply ?s, ScrobbleRequestFinished_slot (Submit_batch (cache ?s)))]\<rparr>"
    by blast
  then have "connections (Submit example_env ?s)
       = connections ?s @ [(next_reply ?s, ScrobbleRequestFinished_slot (Submit_batch (cache ?s)))]"
    by simp
  then have w3: "connections (Submit example_env ?s) = [(0, ScrobbleRequestFinished_slot [0, 1])]"
    using g(5,6) b by simp
  have s01: "sent (items (cache (Submit example_env ?s)) 0)" "sent (items (cache (Submit example_env ?s)) 1)"
    using h l by simp_all
  from b u l s01 f w1 g(4) w2 g(1,2,3) w3 fl(1,2) w4 show ?thesis
    by simp
qed

text \<open>Eleven unsent records: the first \<open>Submit\<close> takes ten of them, and a second \<open>Submit\<close>
  while that request is in flight marks the eleventh \<open>sent\<close> and posts a second request.\<close>

theorem Submit_in_flight_counterexample:
  "submitted (Submit example_env (example_scrobbler (queue_of [0, 1, 2, 3, 4, 5, 6, 7, 8, 9, 10])))
   \<and> connections (Submit example_env (Submit example_env
         (example_scrobbler (queue_of [0, 1, 2, 3, 4, 5, 6, 7, 8, 9, 10]))))
       = [(0, ScrobbleRequestFinished_slot [0, 1, 2, 3, 4, 5, 6, 7, 8, 9]),
          (1, ScrobbleRequestFinished_slot [10])]
   \<and> \<not> sent (items (cache (Submit example_env
         (example_scrobbler (queue_of [0, 1, 2, 3, 4, 5, 6, 7, 8, 9, 10])))) 10)
   \<and> sent (items (cache (Submit example_env (Submit example_env
         (example_scrobbler (queue_of [0, 1, 2, 3, 4, 5, 6, 7, 8, 9, 10]))))) 10)
   \<and> length (network (Submit example_env (Submit example_env
         (example_scrobbler (queue_of [0, 1, 2, 3, 4, 5, 6, 7, 8, 9, 10]))))) = 2"
  by (simp add: example_defs Submit_defs)

lemma batch_spec_all_ok:
  assumes "\<forall>p\<in>set q. \<not> sent (h p) \<and> \<not> error (h p)"
  shows "batch_spec h q = take 10 q"
proof (cases q)
  case Nil
  then show ?thesis by (simp add: batch_spec_def)
next
  case (Cons a q')
  from assms have f: "filter (\<lambda>p. \<not> sent (h p)) q = q" by simp
  from assms have t: "takeWhile (\<lambda>p. \<not> error (h p)) q = q" by simp
  from assms Cons have ok: "\<not> error (h a)" by simp
  have "batch_spec h q = take 10 (takeWhile (\<lambda>p. \<not> error (h p)) q)"
    unfolding batch_spec_def f using Cons ok by simp
  then show ?thesis unfolding t .
qed

lemma Submit_connections:
  "connections (Submit E s) =
     (if is_enabled E s \<and> authenticated E s \<and> \<not> offline E \<and> Submit_batch (cache s) \<noteq> []
      then connections s @ [(next_reply s, ScrobbleRequestFinished_slot (Submit_batch (cache s)))]
      else connections s)"
  by (simp add: Submit_eq)

lemma Submit_items:
  "items (cache (Submit E s)) =
     (if is_enabled E s \<and> authenticated E s \<and> \<not> offline E
      then mark_sent (Submit_batch (cache s)) (items (cache s))
      else items (cache s))"
  by (auto simp: Submit_eq mark_sent_Nil)

text \<open>
  Claim C2. The batch that \<open>Submit\<close> assembles, connects to its request and marks
  \<open>sent\<close> is the batch of the spec's wording: the unsent records in queue order, an
  error-flagged first one alone, otherwise up to the first error-flagged one and at most
  ten. Eleven or more unsent records without error flag give the first ten; a queue
  \<open>[A, B, C]\<close> of unsent records with only \<open>C\<close> error-flagged gives \<open>[A, B]\<close>. The queue
  holds each pointer once, which every event keeps (\<open>run_cache_ok\<close>).
\<close>

theorem Submit_batch_rule:
  assumes "distinct (Cache_List (cache s))"
  shows "Submit_batch (cache s) = batch_spec (items (cache s)) (Cache_List (cache s))
    \<and> connections (Submit E s) =
        (if is_enabled E s \<and> authenticated E s \<and> \<not> offline E \<and> Submit_batch (cache s) \<noteq> []
         then connections s @ [(next_reply s, ScrobbleRequestFinished_slot (Submit_batch (cache s)))]
         else connections s)
    \<and> items (cache (Submit E s)) =
        (if is_enabled E s \<and> authenticated E s \<and> \<not> offline E
         then mark_sent (Submit_batch (cache s)) (items (cache s))
         else items (cache s))
    \<and> (11 \<le> length (Cache_List (cache s))
         \<and> (\<forall>p\<in>set (Cache_List (cache s)). \<not> sent (items (cache s) p) \<and> \<not> error (items (cache s) p))
        \<longrightarrow> Submit_batch (cache s) = take 10 (Cache_List (cache s))
            \<and> length (Submit_batch (cache s)) = 10)
    \<and> (Cache_List (cache s) = [A, B, C]
         \<and> \<not> sent (items (cache s) A) \<and> \<not> error (items (cache s) A)
         \<and> \<not> sent (items (cache s) B) \<and> \<not> error (items (cache s) B)
         \<and> \<not> sent (items (cache s) C) \<and> error (items (cache s) C)
        \<longrightarrow> Submit_batch (cache s) = [A, B])"
proof -
  have spec: "Submit_batch (cache s) = batch_spec (items (cache s)) (Cache_List (cache s))"
    unfolding Submit_batch_def using assms by (rule Submit_loop_spec)
  have cap: "Submit_batch (cache s) = take 10 (Cache_List (cache s)) \<and> length (Submit_batch (cache s)) = 10"
    if "11 \<le> length (Cache_List (cache s))"
      and "\<forall>p\<in>set (Cache_List (cache s)). \<not> sent (items (cache s) p) \<and> \<not> error (items (cache s) p)"
    using that by (simp add: spec batch_spec_all_ok)
  have iso: "Submit_batch (cache s) = [A, B]"
    if "Cache_List (cache s) = [A, B, C]"
      and "\<not> sent (items (cache s) A)" "\<not> error (items (cache s) A)"
      and "\<not> sent (items (cache s) B)" "\<not> error (items (cache s) B)"
      and "\<not> sent (items (cache s) C)" "error (items (cache s) C)"
    using that by (simp add: spec batch_spec_def)
  have c4: "11 \<le> length (Cache_List (cache s))
         \<and> (\<forall>p\<in>set (Cache_List (cache s)). \<not> sent (items (cache s) p) \<and> \<not> error (items (cache s) p))
        \<longrightarrow> Submit_batch (cache s) = take 10 (Cache_List (cache s))
            \<and> length (Submit_batch (cache s)) = 10"
    using cap by blast
  have c5: "Cache_List (cache s) = [A, B, C]
         \<and> \<not> sent (items (cache s) A) \<and> \<not> error (items (cache s) A)
         \<and> \<not> sent (items (cache s) B) \<and> \<not> error (items (cache s) B)
         \<and> \<not> sent (items (cache s) C) \<and> error (items (cache s) C)
        \<longrightarrow> Submit_batch (cache s) = [A, B]"
    using iso by blast
  show ?thesis
    by (rule conjI [OF spec conjI [OF Submit_connections conjI [OF Submit_items conjI [OF c4 c5]]]])
qed

theorem Submit_batch_rule_witness:
  "distinct (Cache_List (queue_of [0, 1, 2, 3, 4, 5, 6, 7, 8, 9, 10]))
   \<and> 11 \<le> length (Cache_List (queue_of [0, 1, 2, 3, 4, 5, 6, 7, 8, 9, 10]))
   \<and> \<not> sent (items (queue_of [0, 1, 2, 3, 4, 5, 6, 7, 8, 9, 10]) 10)
   \<and> Submit_batch (queue_of [0, 1, 2, 3, 4, 5, 6, 7, 8, 9, 10]) = [0, 1, 2, 3, 4, 5, 6, 7, 8, 9]
   \<and> connections (Submit example_env (example_scrobbler (queue_of [0, 1, 2, 3, 4, 5, 6, 7, 8, 9, 10])))
       = [(0, ScrobbleRequestFinished_slot [0, 1, 2, 3, 4, 5, 6, 7, 8, 9])]
   \<and> distinct (Cache_List queue_ok_ok_error)
   \<and> Cache_List queue_ok_ok_error = [0, 1, 2]
   \<and> error (items queue_ok_ok_error 2)
   \<and> Submit_batch queue_ok_ok_error = [0, 1]"
proof -
  let ?c = "queue_of [0, 1, 2, 3, 4, 5, 6, 7, 8, 9, 10]"
  have d1: "distinct (Cache_List (cache (example_scrobbler ?c)))"
    by (simp add: example_defs Cache_List_def)
  have h1: "11 \<le> length (Cache_List (cache (example_scrobbler ?c)))
      \<and> (\<forall>p\<in>set (Cache_List (cache (example_scrobbler ?c))).
            \<not> sent (items (cache (example_scrobbler ?c)) p) \<and> \<not> error (items (cache (example_scrobbler ?c)) p))"
    by (simp add: example_defs Cache_List_def)
  have d2: "distinct (Cache_List (cache (example_scrobbler queue_ok_ok_error)))"
    by (simp add: example_defs queue_ok_ok_error_def Cache_List_def)
  have h2: "Cache_List (cache (example_scrobbler queue_ok_ok_error)) = [0, 1, 2]
      \<and> \<not> sent (items (cache (example_scrobbler queue_ok_ok_error)) 0)
      \<and> \<not> error (items (cache (example_scrobbler queue_ok_ok_error)) 0)
      \<and> \<not> sent (items (cache (example_scrobbler queue_ok_ok_error)) 1)
      \<and> \<not> error (items (cache (example_scrobbler queue_ok_ok_error)) 1)
      \<and> \<not> sent (items (cache (example_scrobbler queue_ok_ok_error)) 2)
      \<and> error (items (cache (example_scrobbler queue_ok_ok_error)) 2)"
    by (simp add: example_defs queue_ok_ok_error_def Cache_List_def)
  have c: "cache (example_scrobbler ?c) = ?c" "cache (example_scrobbler queue_ok_ok_error) = queue_ok_ok_error"
    by (simp_all add: example_scrobbler_def)
  have g: "is_enabled example_env (example_scrobbler ?c)" "authenticated example_env (example_scrobbler ?c)"
    "\<not> offline example_env" "connections (example_scrobbler ?c) = []" "next_reply (example_scrobbler ?c) = 0"
    by (simp_all add: example_env_def example_scrobbler_def)
  note r1 = Submit_batch_rule [OF d1, of example_env 0 0 0]
  note r2 = Submit_batch_rule [OF d2, of example_env 0 1 2]
  from r1 h1 have "Submit_batch (cache (example_scrobbler ?c)) = take 10 (Cache_List (cache (example_scrobbler ?c)))"
    by blast
  then have b1: "Submit_batch ?c = [0, 1, 2, 3, 4, 5, 6, 7, 8, 9]"
    by (simp add: example_scrobbler_def queue_of_def Cache_List_def)
  from r2 h2 have "Submit_batch (cache (example_scrobbler queue_ok_ok_error)) = [0, 1]"
    by blast
  then have b2: "Submit_batch queue_ok_ok_error = [0, 1]"
    using c by simp
  from r1 have "connections (Submit example_env (example_scrobbler ?c)) =
        (if is_enabled example_env (example_scrobbler ?c) \<and> authenticated example_env (example_scrobbler ?c)
            \<and> \<not> offline example_env \<and> Submit_batch (cache (example_scrobbler ?c)) \<noteq> []
         then connections (example_scrobbler ?c)
              @ [(next_reply (example_scrobbler ?c), ScrobbleRequestFinished_slot (Submit_batch (cache (example_scrobbler ?c))))]
         else connections (example_scrobbler ?c))"
    by blast
  then have k: "connections (Submit example_env (example_scrobbler ?c)) = [(0, ScrobbleRequestFinished_slot [0, 1, 2, 3, 4, 5, 6, 7, 8, 9])]"
    using c g b1 by simp
  have e1: "distinct (Cache_List ?c)" "11 \<le> length (Cache_List ?c)" "\<not> sent (items ?c 10)"
    by (simp_all add: queue_of_def Cache_List_def example_item_def)
  have e2: "distinct (Cache_List queue_ok_ok_error)" "Cache_List queue_ok_ok_error = [0, 1, 2]"
    "error (items queue_ok_ok_error 2)"
    by (simp_all add: queue_ok_ok_error_def Cache_List_def)
  from b1 b2 k e1 e2 show ?thesis by blast
qed

section \<open>Reconciling a submission response\<close>

lemma fold_removeAll: "fold removeAll ps q = filter (\<lambda>p. p \<notin> set ps) q"
proof (induction ps arbitrary: q)
  case Nil
  then show ?case by simp
next
  case (Cons a ps)
  have "removeAll a q = filter (\<lambda>p. p \<noteq> a) q"
    by (induction q) auto
  with Cons show ?case by (simp add: conj_commute)
qed

lemma fold_set_error:
  "fold (\<lambda>p h. h(p := (h p)\<lparr>error := True\<rparr>)) ps h =
     (\<lambda>p. if p \<in> set ps then (h p)\<lparr>error := True\<rparr> else h p)"
  by (induction ps arbitrary: h) (auto simp: fun_eq_iff)

lemma fold_clear_sent:
  "fold (\<lambda>p h. h(p := (h p)\<lparr>sent := False\<rparr>)) ps h =
     (\<lambda>p. if p \<in> set ps then (h p)\<lparr>sent := False\<rparr> else h p)"
  by (induction ps arbitrary: h) (auto simp: fun_eq_iff)

lemma GetJsonObject_state:
  "snd (snd (snd (GetJsonObject E reply obj descr s))) = (if session_invalid reply then Logout s else s)"
  by (simp add: GetJsonObject_def session_invalid_def Let_def ContentAccessDenied_def
      ContentOperationNotPermittedError_def AuthenticationRequiredError_def NoError_def
      case_prod_beta)

lemma GetJsonObject_result:
  "fst (GetJsonObject E reply obj descr s) = fst (GetJsonObject E reply obj descr s0)"
  "fst (snd (GetJsonObject E reply obj descr s)) = fst (snd (GetJsonObject E reply obj descr s0))"
  "fst (snd (snd (GetJsonObject E reply obj descr s))) = fst (snd (snd (GetJsonObject E reply obj descr s0)))"
  by (simp_all add: GetJsonObject_def Let_def case_prod_beta)

lemma Logout_other [simp]:
  "cache (Logout s) = cache s" "submitted (Logout s) = submitted s"
  "submit_error (Logout s) = submit_error s" "timer_submit (Logout s) = timer_submit s"
  "scrobbled (Logout s) = scrobbled s" "song_playing (Logout s) = song_playing s"
  "timestamp (Logout s) = timestamp s" "emitted (Logout s) = emitted s"
  "replies (Logout s) = replies s" "connections (Logout s) = connections s"
  "network (Logout s) = network s" "next_reply (Logout s) = next_reply s"
  "enabled (Logout s) = enabled s" "server (Logout s) = server s"
  "refresh_login_timer (Logout s) = refresh_login_timer s"
  by (simp_all add: Logout_def)

lemma Error_other [simp]:
  "cache (Error E m s) = cache s" "submitted (Error E m s) = submitted s"
  "submit_error (Error E m s) = submit_error s" "timer_submit (Error E m s) = timer_submit s"
  "scrobbled (Error E m s) = scrobbled s" "song_playing (Error E m s) = song_playing s"
  "timestamp (Error E m s) = timestamp s"
  "access_token (Error E m s) = access_token s" "expires_in (Error E m s) = expires_in s"
  "token_type (Error E m s) = token_type s" "refresh_token (Error E m s) = refresh_token s"
  "login_time (Error E m s) = login_time s" "settings_store (Error E m s) = settings_store s"
  by (simp_all add: Error_def)

lemma StartSubmit_queue: "queue (cache (StartSubmit E initial s)) = queue (cache s)"
  by (simp add: StartSubmit_def Submit_queue Let_def)

lemma StartSubmit_after_error:
  "submit_error s \<Longrightarrow>
   StartSubmit E initial s =
     (if \<not> submitted s \<and> Cache_Count (cache s) > 0 \<and> \<not> isActive (timer_submit s)
      then s\<lparr>timer_submit := start (setInterval
              (static_cast_int (max (submit_delay E) 30 * kMsecPerSec)) (timer_submit s))\<rparr>
      else s)"
  by (simp add: StartSubmit_def)

lemma StartSubmit_cache_after_error:
  "submit_error s \<Longrightarrow> cache (StartSubmit E initial s) = cache s"
  by (simp add: StartSubmit_after_error)

lemma ScrobbleRequestFinished_cache:
  fixes E :: Env and reply :: QNetworkReply and cache_items :: "ScrobblerCacheItemPtr list"
    and s :: ListenBrainzScrobbler
  assumes "reply_ptr reply \<in> set (replies s)"
  defines "res \<equiv> fst (GetJsonObject E reply [] [] s)"
  defines "s' \<equiv> ScrobbleRequestFinished E reply cache_items s"
  shows "queue (cache s') =
           (if res = Success \<or> (res = APIError \<and> length cache_items = 1)
            then filter (\<lambda>p. p \<notin> set cache_items) (queue (cache s))
            else queue (cache s))"
    and "res = APIError \<Longrightarrow> length cache_items \<noteq> 1 \<Longrightarrow>
         items (cache s') =
           (\<lambda>p. if p \<in> set cache_items then (items (cache s) p)\<lparr>error := True, sent := False\<rparr>
                else items (cache s) p)"
    and "res = ServerError \<Longrightarrow>
         items (cache s') =
           (\<lambda>p. if p \<in> set cache_items then (items (cache s) p)\<lparr>sent := False\<rparr>
                else items (cache s) p)"
    and "res = APIError \<Longrightarrow> length cache_items = 1 \<Longrightarrow> items (cache s') = items (cache s)"
proof -
  let ?s1 = "(take_reply (reply_ptr reply) s)\<lparr>submitted := False\<rparr>"
  obtain r obj msg s2 where G: "GetJsonObject E reply [] [] ?s1 = (r, obj, msg, s2)"
    by (metis prod_cases4)
  have r: "r = res"
    using G GetJsonObject_result(1) [of E reply "[]" "[]" ?s1 s] by (simp add: res_def)
  have "s2 = (if session_invalid reply then Logout ?s1 else ?s1)"
    using G GetJsonObject_state [of E reply "[]" "[]" ?s1] by simp
  then have c2: "cache s2 = cache s"
    by (simp add: take_reply_def)
  show "queue (cache s') =
           (if res = Success \<or> (res = APIError \<and> length cache_items = 1)
            then filter (\<lambda>p. p \<notin> set cache_items) (queue (cache s))
            else queue (cache s))"
    using assms(1) G c2 r
    by (simp add: s'_def ScrobbleRequestFinished_def Let_def StartSubmit_queue Cache_Flush_def
        Cache_ClearSent_def Cache_SetError_def fold_removeAll)
  show "items (cache s') =
           (\<lambda>p. if p \<in> set cache_items then (items (cache s) p)\<lparr>error := True, sent := False\<rparr>
                else items (cache s) p)"
    if "res = APIError" "length cache_items \<noteq> 1"
    using assms(1) G c2 r that
    by (simp add: s'_def ScrobbleRequestFinished_def Let_def StartSubmit_cache_after_error
        Cache_ClearSent_def Cache_SetError_def fold_set_error fold_clear_sent fun_eq_iff)
  show "items (cache s') =
           (\<lambda>p. if p \<in> set cache_items then (items (cache s) p)\<lparr>sent := False\<rparr>
                else items (cache s) p)"
    if "res = ServerError"
    using assms(1) G c2 r that
    by (simp add: s'_def ScrobbleRequestFinished_def Let_def StartSubmit_cache_after_error
        Cache_ClearSent_def fold_clear_sent fun_eq_iff)
  show "items (cache s') = items (cache s)"
    if "res = APIError" "length cache_items = 1"
    using assms(1) G c2 r that
    by (simp add: s'_def ScrobbleRequestFinished_def Let_def StartSubmit_cache_after_error
        Cache_Flush_def)
qed

text \<open>
  Claim C3. When a tracked submission reply finishes, a queued record leaves the queue
  exactly if it is in the batch and the result is \<open>Success\<close>, or \<open>APIError\<close> with a batch
  of one record. On \<open>APIError\<close> with any other batch every batch record ends with
  \<open>error = true\<close> and \<open>sent = false\<close>; on \<open>ServerError\<close> every batch record ends with
  \<open>sent = false\<close> and its error flag as before. In both cases the queue and the records
  outside the batch are as before, so no failure drops a record.
\<close>

theorem ScrobbleRequestFinished_reconciles:
  fixes E :: Env and reply :: QNetworkReply and cache_items :: "ScrobblerCacheItemPtr list"
    and s :: ListenBrainzScrobbler
  assumes "reply_ptr reply \<in> set (replies s)"
  defines "res \<equiv> fst (GetJsonObject E reply [] [] s)"
  defines "s' \<equiv> ScrobbleRequestFinished E reply cache_items s"
  shows "(\<forall>p\<in>set (queue (cache s)).
            (p \<notin> set (queue (cache s')))
            = (p \<in> set cache_items \<and> (res = Success \<or> (res = APIError \<and> length cache_items = 1))))
    \<and> queue (cache s') =
         (if res = Success \<or> (res = APIError \<and> length cache_items = 1)
          then filter (\<lambda>p. p \<notin> set cache_items) (queue (cache s))
          else queue (cache s))
    \<and> (res = APIError \<and> length cache_items \<noteq> 1 \<longrightarrow>
          (\<forall>p\<in>set cache_items. error (items (cache s') p) \<and> \<not> sent (items (cache s') p))
          \<and> (\<forall>p. p \<notin> set cache_items \<longrightarrow> items (cache s') p = items (cache s) p))
    \<and> (res = ServerError \<longrightarrow>
          (\<forall>p\<in>set cache_items. \<not> sent (items (cache s') p)
               \<and> error (items (cache s') p) = error (items (cache s) p))
          \<and> (\<forall>p. p \<notin> set cache_items \<longrightarrow> items (cache s') p = items (cache s) p))"
proof -
  note c = ScrobbleRequestFinished_cache [OF assms(1), of E cache_items, folded res_def s'_def]
  have q: "queue (cache s') =
         (if res = Success \<or> (res = APIError \<and> length cache_items = 1)
          then filter (\<lambda>p. p \<notin> set cache_items) (queue (cache s))
          else queue (cache s))"
    by (rule c(1))
  have m: "\<forall>p\<in>set (queue (cache s)).
            (p \<notin> set (queue (cache s')))
            = (p \<in> set cache_items \<and> (res = Success \<or> (res = APIError \<and> length cache_items = 1)))"
    unfolding q by auto
  have a: "res = APIError \<and> length cache_items \<noteq> 1 \<longrightarrow>
          (\<forall>p\<in>set cache_items. error (items (cache s') p) \<and> \<not> sent (items (cache s') p))
          \<and> (\<forall>p. p \<notin> set cache_items \<longrightarrow> items (cache s') p = items (cache s) p)"
    using c(2) by simp
  have t: "res = ServerError \<longrightarrow>
          (\<forall>p\<in>set cache_items. \<not> sent (items (cache s') p)
               \<and> error (items (cache s') p) = error (items (cache s) p))
          \<and> (\<forall>p. p \<notin> set cache_items \<longrightarrow> items (cache s') p = items (cache s) p)"
    using c(3) by simp
  show ?thesis
    by (rule conjI [OF m conjI [OF q conjI [OF a t]]])
qed

lemmas reply_defs = reply_success_def reply_api_error_def reply_timeout_def
  reply_auth_required_def NoError_def ContentAccessDenied_def
  ContentOperationNotPermittedError_def AuthenticationRequiredError_def

lemmas GetJsonObject_defs = GetJsonObject_def contains_def json_toString_def json_toInt_def
  string_of_int_def string_of_nat.simps digit_def Logout_def

theorem ScrobbleRequestFinished_reconciles_witness:
  "reply_ptr reply_timeout \<in> set (replies (Submit example_env (example_scrobbler (queue_of [10, 11, 12]))))
   \<and> fst (GetJsonObject example_env reply_timeout [] []
            (Submit example_env (example_scrobbler (queue_of [10, 11, 12])))) = ServerError
   \<and> sent (items (cache (Submit example_env (example_scrobbler (queue_of [10, 11, 12])))) 11)
   \<and> \<not> sent (items (cache (ScrobbleRequestFinished example_env reply_timeout [10, 11, 12]
            (Submit example_env (example_scrobbler (queue_of [10, 11, 12]))))) 11)
   \<and> queue (cache (ScrobbleRequestFinished example_env reply_timeout [10, 11, 12]
            (Submit example_env (example_scrobbler (queue_of [10, 11, 12]))))) = [10, 11, 12]
   \<and> fst (GetJsonObject example_env reply_api_error [] []
            (Submit example_env (example_scrobbler (queue_of [10, 11, 12])))) = APIError
   \<and> error (items (cache (ScrobbleRequestFinished example_env reply_api_error [10, 11, 12]
            (Submit example_env (example_scrobbler (queue_of [10, 11, 12]))))) 11)
   \<and> \<not> sent (items (cache (ScrobbleRequestFinished example_env reply_api_error [10, 11, 12]
            (Submit example_env (example_scrobbler (queue_of [10, 11, 12]))))) 11)
   \<and> queue (cache (ScrobbleRequestFinished example_env reply_api_error [10, 11, 12]
            (Submit example_env (example_scrobbler (queue_of [10, 11, 12]))))) = [10, 11, 12]
   \<and> queue (cache (ScrobbleRequestFinished example_env reply_api_error [10]
            (Submit example_env (example_scrobbler (queue_of [10]))))) = []
   \<and> fst (GetJsonObject example_env reply_success [] []
            (Submit example_env (example_scrobbler (queue_of [10, 11, 12])))) = Success
   \<and> queue (cache (ScrobbleRequestFinished example_env reply_success [10, 11, 12]
            (Submit example_env (example_scrobbler (queue_of [10, 11, 12]))))) = []"
proof -
  let ?s = "Submit example_env (example_scrobbler (queue_of [10, 11, 12]))"
  let ?s1 = "Submit example_env (example_scrobbler (queue_of [10]))"
  have rp: "reply_ptr reply_timeout \<in> set (replies ?s)" "reply_ptr reply_api_error \<in> set (replies ?s)"
    "reply_ptr reply_success \<in> set (replies ?s)" "reply_ptr reply_api_error \<in> set (replies ?s1)"
    by (simp_all add: example_defs Submit_defs reply_defs)
  have q: "queue (cache ?s) = [10, 11, 12]" "queue (cache ?s1) = [10]"
    by (simp_all add: Submit_queue example_scrobbler_def queue_of_def)
  have b: "sent (items (cache ?s) 11)"
    by (simp add: example_defs Submit_defs)
  have r1: "fst (GetJsonObject example_env reply_timeout [] [] ?s) = ServerError"
    by (simp add: GetJsonObject_defs reply_defs example_env_def)
  have r2: "fst (GetJsonObject example_env reply_api_error [] [] ?s) = APIError"
    "fst (GetJsonObject example_env reply_api_error [] [] ?s1) = APIError"
    by (simp_all add: GetJsonObject_defs reply_defs example_env_def)
  have r3: "fst (GetJsonObject example_env reply_success [] [] ?s) = Success"
    by (simp add: GetJsonObject_defs reply_defs example_env_def)
  note t1 = ScrobbleRequestFinished_reconciles [OF rp(1), where E = example_env and cache_items = "[10, 11, 12]"]
  note t2 = ScrobbleRequestFinished_reconciles [OF rp(2), where E = example_env and cache_items = "[10, 11, 12]"]
  note t3 = ScrobbleRequestFinished_reconciles [OF rp(3), where E = example_env and cache_items = "[10, 11, 12]"]
  note t4 = ScrobbleRequestFinished_reconciles [OF rp(4), where E = example_env and cache_items = "[10]"]
  have w1: "\<not> sent (items (cache (ScrobbleRequestFinished example_env reply_timeout [10, 11, 12] ?s)) 11)"
    "queue (cache (ScrobbleRequestFinished example_env reply_timeout [10, 11, 12] ?s)) = [10, 11, 12]"
    using t1 r1 q by simp_all
  have w2: "error (items (cache (ScrobbleRequestFinished example_env reply_api_error [10, 11, 12] ?s)) 11)"
    "\<not> sent (items (cache (ScrobbleRequestFinished example_env reply_api_error [10, 11, 12] ?s)) 11)"
    "queue (cache (ScrobbleRequestFinished example_env reply_api_error [10, 11, 12] ?s)) = [10, 11, 12]"
    using t2 r2(1) q by simp_all
  have w3: "queue (cache (ScrobbleRequestFinished example_env reply_success [10, 11, 12] ?s)) = []"
    using t3 r3 q by simp
  have w4: "queue (cache (ScrobbleRequestFinished example_env reply_api_error [10] ?s1)) = []"
    using t4 r2(2) q by simp
  from rp(1) r1 b w1 r2(1) w2 w4 r3 w3 show ?thesis by blast
qed
section \<open>The retry scheduler\<close>

lemma static_cast_int_id: "- 2147483648 \<le> x \<Longrightarrow> x \<le> 2147483647 \<Longrightarrow> static_cast_int x = x"
  by (simp add: static_cast_int_def)

lemma static_cast_int_msec:
  assumes "- 2147483 \<le> d" and "d \<le> 2147483"
  shows "static_cast_int (d * kMsecPerSec) = d * 1000"
proof -
  from assms have "- 2147483648 \<le> d * 1000" "d * 1000 \<le> 2147483647" by simp_all
  then show ?thesis unfolding kMsecPerSec_def by (rule static_cast_int_id)
qed

lemma Submit_timer_submit [simp]: "timer_submit (Submit E s) = timer_submit s"
  by (simp add: Submit_eq)

text \<open>
  Claim C4, as amended. With no submission in flight and a non-empty queue: on the initial
  trigger with a configured delay \<open>\<le> 0\<close> and no previous error, \<open>StartSubmit\<close> stops the
  timer and runs \<open>Submit\<close>; otherwise it leaves an armed timer as it is and arms an idle one
  for \<open>max(delay, F)\<close> seconds, \<open>F\<close> being 30 after an error and 5 otherwise, provided
  that many seconds are at most 2147483, so that the interval in milliseconds fits the
  32-bit \<^verbatim>\<open>int\<close> that the timer takes. Beyond that the interval wraps around.
\<close>

theorem StartSubmit_schedule:
  assumes "\<not> submitted s" and "Cache_Count (cache s) > 0"
  shows "(initial \<and> submit_delay E \<le> 0 \<and> \<not> submit_error s \<longrightarrow>
            StartSubmit E initial s = Submit E (s\<lparr>timer_submit := stop (timer_submit s)\<rparr>)
            \<and> \<not> isActive (timer_submit (StartSubmit E initial s)))
    \<and> (\<not> (initial \<and> submit_delay E \<le> 0 \<and> \<not> submit_error s) \<and> isActive (timer_submit s) \<longrightarrow>
            StartSubmit E initial s = s)
    \<and> (\<not> (initial \<and> submit_delay E \<le> 0 \<and> \<not> submit_error s) \<and> \<not> isActive (timer_submit s)
         \<and> max (submit_delay E) (if submit_error s then 30 else 5) \<le> 2147483 \<longrightarrow>
            StartSubmit E initial s =
              s\<lparr>timer_submit := (timer_submit s)\<lparr>interval :=
                   max (submit_delay E) (if submit_error s then 30 else 5) * 1000, isActive := True\<rparr>\<rparr>)"
proof (intro conjI impI)
  assume a: "initial \<and> submit_delay E \<le> 0 \<and> \<not> submit_error s"
  have "(if isActive (timer_submit s) then s\<lparr>timer_submit := stop (timer_submit s)\<rparr> else s)
        = s\<lparr>timer_submit := stop (timer_submit s)\<rparr>"
    by (simp add: stop_def)
  with a assms show eq: "StartSubmit E initial s = Submit E (s\<lparr>timer_submit := stop (timer_submit s)\<rparr>)"
    by (simp add: StartSubmit_def)
  show "\<not> isActive (timer_submit (StartSubmit E initial s))"
    unfolding eq by (simp add: stop_def)
next
  assume "\<not> (initial \<and> submit_delay E \<le> 0 \<and> \<not> submit_error s) \<and> isActive (timer_submit s)"
  with assms show "StartSubmit E initial s = s"
    by (auto simp: StartSubmit_def)
next
  assume a: "\<not> (initial \<and> submit_delay E \<le> 0 \<and> \<not> submit_error s) \<and> \<not> isActive (timer_submit s)
         \<and> max (submit_delay E) (if submit_error s then 30 else 5) \<le> 2147483"
  let ?d = "max (submit_delay E) (if submit_error s then 30 else 5)"
  have "5 \<le> ?d" by (simp add: max_def)
  then have "- 2147483 \<le> ?d" by linarith
  moreover from a have "?d \<le> 2147483" by blast
  ultimately have "static_cast_int (?d * kMsecPerSec) = ?d * 1000"
    by (rule static_cast_int_msec)
  with a assms show "StartSubmit E initial s =
              s\<lparr>timer_submit := (timer_submit s)\<lparr>interval := ?d * 1000, isActive := True\<rparr>\<rparr>"
    by (auto simp: StartSubmit_def Let_def start_def setInterval_def)
qed

theorem StartSubmit_schedule_witness:
  "\<not> submitted (example_scrobbler (queue_of [10]))
   \<and> Cache_Count (cache (example_scrobbler (queue_of [10]))) > 0
   \<and> max (submit_delay example_env) 5 = 5
   \<and> timer_submit (StartSubmit example_env False (example_scrobbler (queue_of [10])))
       = \<lparr>interval = 5000, isActive = True\<rparr>
   \<and> timer_submit (StartSubmit example_env True ((example_scrobbler (queue_of [10]))\<lparr>submit_error := True\<rparr>))
       = \<lparr>interval = 30000, isActive = True\<rparr>
   \<and> StartSubmit example_env False
         ((example_scrobbler (queue_of [10]))\<lparr>timer_submit := \<lparr>interval = 5000, isActive = True\<rparr>\<rparr>)
       = (example_scrobbler (queue_of [10]))\<lparr>timer_submit := \<lparr>interval = 5000, isActive = True\<rparr>\<rparr>
   \<and> submitted (StartSubmit example_env True
         ((example_scrobbler (queue_of [10]))\<lparr>timer_submit := \<lparr>interval = 5000, isActive = True\<rparr>\<rparr>))
   \<and> isActive (timer_submit (StartSubmit example_env True
         ((example_scrobbler (queue_of [10]))\<lparr>timer_submit := \<lparr>interval = 5000, isActive = True\<rparr>\<rparr>))) = False"
proof -
  let ?s = "example_scrobbler (queue_of [10])"
  let ?se = "?s\<lparr>submit_error := True\<rparr>"
  let ?st = "?s\<lparr>timer_submit := \<lparr>interval = 5000, isActive = True\<rparr>\<rparr>"
  have p: "\<not> submitted ?s" "Cache_Count (cache ?s) > 0" "\<not> submitted ?se" "Cache_Count (cache ?se) > 0"
    "\<not> submitted ?st" "Cache_Count (cache ?st) > 0"
    by (simp_all add: example_defs Cache_Count_def)
  have e: "submit_delay example_env = 0" "\<not> submit_error ?s" "submit_error ?se" "\<not> submit_error ?st"
    "\<not> isActive (timer_submit ?s)" "\<not> isActive (timer_submit ?se)" "isActive (timer_submit ?st)"
    "timer_submit ?s = \<lparr>interval = 0, isActive = False\<rparr>"
    "timer_submit ?se = \<lparr>interval = 0, isActive = False\<rparr>"
    by (simp_all add: example_defs)
  note t1 = StartSubmit_schedule [OF p(1,2), where E = example_env and initial = False]
  note t2 = StartSubmit_schedule [OF p(3,4), where E = example_env and initial = True]
  note t3 = StartSubmit_schedule [OF p(5,6), where E = example_env and initial = False]
  note t4 = StartSubmit_schedule [OF p(5,6), where E = example_env and initial = True]
  have w1: "timer_submit (StartSubmit example_env False ?s) = \<lparr>interval = 5000, isActive = True\<rparr>"
    using t1 e by simp
  have w2: "timer_submit (StartSubmit example_env True ?se) = \<lparr>interval = 30000, isActive = True\<rparr>"
    using t2 e by simp
  have w3: "StartSubmit example_env False ?st = ?st"
    using t3 e by simp
  have w4: "StartSubmit example_env True ?st = Submit example_env (?st\<lparr>timer_submit := stop (timer_submit ?st)\<rparr>)"
    "isActive (timer_submit (StartSubmit example_env True ?st)) = False"
    using t4 e by (simp_all add: stop_def)
  have w5: "submitted (StartSubmit example_env True ?st)"
    unfolding w4(1) by (simp add: example_defs Submit_defs stop_def)
  from p(1,2) e(1) w1 w2 w3 w4(2) w5 show ?thesis by simp
qed

text \<open>A configured delay of 2147484 seconds: the interval is \<open>2147484000 - 2\<^sup>3\<^sup>2\<close>
  milliseconds, a negative number, not 2147484 seconds.\<close>

theorem StartSubmit_schedule_counterexample:
  "\<not> submitted (example_scrobbler (queue_of [10]))
   \<and> Cache_Count (cache (example_scrobbler (queue_of [10]))) > 0
   \<and> \<not> isActive (timer_submit (example_scrobbler (queue_of [10])))
   \<and> max (submit_delay (example_env\<lparr>submit_delay := 2147484\<rparr>))
          (if submit_error (example_scrobbler (queue_of [10])) then 30 else 5) = 2147484
   \<and> timer_submit (StartSubmit (example_env\<lparr>submit_delay := 2147484\<rparr>) False
         (example_scrobbler (queue_of [10])))
       = \<lparr>interval = - 2147483296, isActive = True\<rparr>"
  by (simp add: example_defs StartSubmit_def Cache_Count_def static_cast_int_def
      kMsecPerSec_def start_def setInterval_def Let_def)
section \<open>Restoring the session\<close>

lemma LoadSession_fields:
  "expires_in (LoadSession now s) = (case st_expires_in (settings_store s) of None \<Rightarrow> - 1 | Some v \<Rightarrow> v)"
  "login_time (LoadSession now s) = (case st_login_time (settings_store s) of None \<Rightarrow> 0 | Some v \<Rightarrow> v)"
  "refresh_token (LoadSession now s) = (case st_refresh_token (settings_store s) of None \<Rightarrow> [] | Some v \<Rightarrow> v)"
  by (simp_all add: LoadSession_def Let_def)

lemma LoadSession_timer:
  "refresh_login_timer (LoadSession now s) =
     (if refresh_token (LoadSession now s) \<noteq> []
      then (refresh_login_timer s)\<lparr>interval :=
              static_cast_int (max (expires_in (LoadSession now s) - (now - login_time (LoadSession now s))) 6
                               * kMsecPerSec),
            isActive := True\<rparr>
      else refresh_login_timer s)"
  by (simp add: LoadSession_def Let_def start_def setInterval_def max_def)

text \<open>
  Claim C7, as amended. For every restored session with a non-empty refresh token,
  \<open>LoadSession\<close> arms the refresh timer for \<open>max(expires_in - (now - login_time), 6)\<close>
  seconds, a positive interval, provided that many seconds are at most 2147483, so that
  the interval in milliseconds fits the 32-bit \<^verbatim>\<open>int\<close> that the timer takes. With
  \<open>expires_in = 3600\<close> and \<open>login_time = now - 3650\<close> the timer is armed at 6 seconds.
\<close>

theorem LoadSession_refresh_floor:
  fixes now :: int and s :: ListenBrainzScrobbler
  defines "s' \<equiv> LoadSession now s"
  defines "t \<equiv> max (expires_in s' - (now - login_time s')) 6"
  assumes "refresh_token s' \<noteq> []" and "t \<le> 2147483"
  shows "refresh_login_timer s' = (refresh_login_timer s)\<lparr>interval := t * 1000, isActive := True\<rparr>
    \<and> 0 < interval (refresh_login_timer s')
    \<and> (expires_in s' = 3600 \<and> login_time s' = now - 3650 \<longrightarrow>
          interval (refresh_login_timer s') = 6000)"
proof -
  have "6 \<le> t" by (simp add: t_def)
  then have "- 2147483 \<le> t" by linarith
  from this assms(4) have c: "static_cast_int (t * kMsecPerSec) = t * 1000"
    by (rule static_cast_int_msec)
  have tm: "refresh_login_timer s' = (refresh_login_timer s)\<lparr>interval := t * 1000, isActive := True\<rparr>"
    using assms(3) c LoadSession_timer [of now s] by (simp add: s'_def t_def)
  have pos: "0 < interval (refresh_login_timer s')"
    using \<open>6 \<le> t\<close> by (simp add: tm)
  have ex: "expires_in s' = 3600 \<and> login_time s' = now - 3650 \<longrightarrow>
          interval (refresh_login_timer s') = 6000"
    by (simp add: tm t_def)
  show ?thesis
    by (rule conjI [OF tm conjI [OF pos ex]])
qed

theorem LoadSession_refresh_floor_witness:
  "refresh_token (LoadSession 4650 (example_scrobbler (queue_of []))) \<noteq> []
   \<and> expires_in (LoadSession 4650 (example_scrobbler (queue_of []))) = 3600
   \<and> login_time (LoadSession 4650 (example_scrobbler (queue_of []))) = 4650 - 3650
   \<and> max (3600 - (4650 - 1000)) 6 = (6 :: int)
   \<and> refresh_login_timer (LoadSession 4650 (example_scrobbler (queue_of [])))
       = \<lparr>interval = 6000, isActive = True\<rparr>
   \<and> refresh_login_timer (LoadSession 2000 (example_scrobbler (queue_of [])))
       = \<lparr>interval = 2600000, isActive = True\<rparr>"
proof -
  let ?s = "example_scrobbler (queue_of [])"
  have f: "refresh_token (LoadSession 4650 ?s) \<noteq> []" "expires_in (LoadSession 4650 ?s) = 3600"
    "login_time (LoadSession 4650 ?s) = 4650 - 3650"
    "refresh_token (LoadSession 2000 ?s) \<noteq> []" "expires_in (LoadSession 2000 ?s) = 3600"
    "login_time (LoadSession 2000 ?s) = 1000"
    "refresh_login_timer ?s = \<lparr>interval = 0, isActive = False\<rparr>"
    by (simp_all add: LoadSession_fields example_scrobbler_def example_timer_def)
  have b1: "max (expires_in (LoadSession 4650 ?s) - (4650 - login_time (LoadSession 4650 ?s))) 6 \<le> 2147483"
    by (simp add: f)
  have b2: "max (expires_in (LoadSession 2000 ?s) - (2000 - login_time (LoadSession 2000 ?s))) 6 \<le> 2147483"
    by (simp add: f)
  note t1 = LoadSession_refresh_floor [OF f(1) b1]
  note t2 = LoadSession_refresh_floor [OF f(4) b2]
  have w1: "refresh_login_timer (LoadSession 4650 ?s) = \<lparr>interval = 6000, isActive = True\<rparr>"
    using t1 f by simp
  have w2: "refresh_login_timer (LoadSession 2000 ?s) = \<lparr>interval = 2600000, isActive = True\<rparr>"
    using t2 f by simp
  from f(1,2,3) w1 w2 show ?thesis by simp
qed

text \<open>A persisted \<open>expires_in\<close> of 3000000 seconds with \<open>login_time = now\<close>: the interval
  is \<open>3000000000 - 2\<^sup>3\<^sup>2\<close> milliseconds, a negative number.\<close>

theorem LoadSession_refresh_floor_counterexample:
  "refresh_token (LoadSession 1000
       ((example_scrobbler (queue_of []))\<lparr>settings_store :=
          (settings_store (example_scrobbler (queue_of [])))\<lparr>st_expires_in := Some 3000000\<rparr>\<rparr>)) = ''ref''
   \<and> max (3000000 - (1000 - 1000)) 6 = (3000000 :: int)
   \<and> refresh_login_timer (LoadSession 1000
       ((example_scrobbler (queue_of []))\<lparr>settings_store :=
          (settings_store (example_scrobbler (queue_of [])))\<lparr>st_expires_in := Some 3000000\<rparr>\<rparr>))
       = \<lparr>interval = - 1294967296, isActive = True\<rparr>"
  by (simp add: LoadSession_def example_scrobbler_def example_timer_def Let_def static_cast_int_def
      kMsecPerSec_def start_def setInterval_def)
section \<open>Derived scrobbles\<close>

lemma mark_sent_fields [simp]:
  "item_metadata (mark_sent b h p) = item_metadata (h p)"
  "item_timestamp (mark_sent b h p) = item_timestamp (h p)"
  "error (mark_sent b h p) = error (h p)"
  by (simp_all add: mark_sent_def)

lemma Submit_item_fields [simp]:
  "item_metadata (items (cache (Submit E s)) p) = item_metadata (items (cache s) p)"
  "item_timestamp (items (cache (Submit E s)) p) = item_timestamp (items (cache s) p)"
  "error (items (cache (Submit E s)) p) = error (items (cache s) p)"
  by (simp_all add: Submit_items)

lemma StartSubmit_item_fields [simp]:
  "item_metadata (items (cache (StartSubmit E initial s)) p) = item_metadata (items (cache s) p)"
  "item_timestamp (items (cache (StartSubmit E initial s)) p) = item_timestamp (items (cache s) p)"
  "error (items (cache (StartSubmit E initial s)) p) = error (items (cache s) p)"
  by (simp_all add: StartSubmit_def Let_def)

lemma Scrobble_queue:
  "queue (cache (Scrobble E song s)) =
     (if song_id song \<noteq> song_id (song_playing s) \<or> url song \<noteq> url (song_playing s)
         \<or> \<not> is_metadata_good song
      then queue (cache s) else queue (cache s) @ [next_item (cache s)])"
  by (simp add: Scrobble_def Let_def StartSubmit_queue Cache_Add_def)

lemma Scrobble_new_item:
  assumes "song_id song = song_id (song_playing s)" "url song = url (song_playing s)"
    "is_metadata_good song"
  shows "item_metadata (items (cache (Scrobble E song s)) (next_item (cache s))) = ScrobbleMetadata_of song"
    and "item_timestamp (items (cache (Scrobble E song s)) (next_item (cache s))) = timestamp s"
    and "error (items (cache (Scrobble E song s)) (next_item (cache s))) = False"
  using assms by (simp_all add: Scrobble_def Let_def Cache_Add_def)

lemma CheckScrobblePrevSong_eq:
  "CheckScrobblePrevSong E now s =
     (if \<not> scrobbled s \<and> is_metadata_good (song_playing s) \<and> is_radio (song_playing s)
         \<and> max (now - timestamp s) 0 > 30
      then Scrobble E (set_length_nanosec (qint64_mul (max (now - timestamp s) 0) kNsecPerSec) (song_playing s)) s
      else s)"
  by (simp add: CheckScrobblePrevSong_def Let_def max_def)

lemma ClearPlaying_cache: "cache (ClearPlaying E now s) = cache (CheckScrobblePrevSong E now s)"
  by (simp add: ClearPlaying_def Let_def)

lemma UpdateNowPlaying_cache:
  "cache (UpdateNowPlaying E now now1 song s) = cache (CheckScrobblePrevSong E now s)"
  by (simp add: UpdateNowPlaying_def Let_def CreateRequest_def network_post_def connect_finished_def)

lemma CheckScrobblePrevSong_derived:
  assumes "is_radio (song_playing s)" "is_metadata_good (song_playing s)" "\<not> scrobbled s"
  shows "queue (cache (CheckScrobblePrevSong E now s)) =
           (if max (now - timestamp s) 0 > 30 then queue (cache s) @ [next_item (cache s)]
            else queue (cache s))"
    and "max (now - timestamp s) 0 > 30 \<Longrightarrow>
         md_length_nanosec (item_metadata (items (cache (CheckScrobblePrevSong E now s)) (next_item (cache s))))
           = qint64_mul (max (now - timestamp s) 0) kNsecPerSec
         \<and> md_title (item_metadata (items (cache (CheckScrobblePrevSong E now s)) (next_item (cache s))))
           = title (song_playing s)
         \<and> item_timestamp (items (cache (CheckScrobblePrevSong E now s)) (next_item (cache s))) = timestamp s"
    and "\<not> max (now - timestamp s) 0 > 30 \<Longrightarrow> CheckScrobblePrevSong E now s = s"
proof -
  define d where "d = max (now - timestamp s) 0"
  define song where "song = set_length_nanosec (qint64_mul d kNsecPerSec) (song_playing s)"
  have c: "CheckScrobblePrevSong E now s = (if d > 30 then Scrobble E song s else s)"
    using assms by (simp add: CheckScrobblePrevSong_eq d_def song_def)
  have a: "song_id song = song_id (song_playing s)" "url song = url (song_playing s)"
    "is_metadata_good song"
    using assms by (simp_all add: song_def set_length_nanosec_def)
  show "queue (cache (CheckScrobblePrevSong E now s)) =
           (if max (now - timestamp s) 0 > 30 then queue (cache s) @ [next_item (cache s)]
            else queue (cache s))"
    unfolding d_def [symmetric] c using a by (simp add: Scrobble_queue)
  show "md_length_nanosec (item_metadata (items (cache (CheckScrobblePrevSong E now s)) (next_item (cache s))))
           = qint64_mul (max (now - timestamp s) 0) kNsecPerSec
         \<and> md_title (item_metadata (items (cache (CheckScrobblePrevSong E now s)) (next_item (cache s))))
           = title (song_playing s)
         \<and> item_timestamp (items (cache (CheckScrobblePrevSong E now s)) (next_item (cache s))) = timestamp s"
    if "max (now - timestamp s) 0 > 30"
    using that unfolding d_def [symmetric] c
    by (simp add: Scrobble_new_item [OF a] ScrobbleMetadata_of_def)
      (simp add: song_def set_length_nanosec_def)
  show "CheckScrobblePrevSong E now s = s" if "\<not> max (now - timestamp s) 0 > 30"
    using that unfolding d_def [symmetric] c by simp
qed

lemma qint64_mul_nsec:
  assumes "0 \<le> d" and "d \<le> 9223372036"
  shows "qint64_mul d kNsecPerSec = d * 1000000000"
proof -
  from assms have "0 \<le> d * 1000000000 + 9223372036854775808"
    "d * 1000000000 + 9223372036854775808 < 18446744073709551616"
    by simp_all
  then have "(d * 1000000000 + 9223372036854775808) mod 18446744073709551616
             = d * 1000000000 + 9223372036854775808"
    by (rule mod_pos_pos_trivial)
  then show ?thesis
    by (simp add: qint64_mul_def kNsecPerSec_def)
qed

text \<open>
  Claim C8, as amended. A tracked item that is radio-type, has good metadata and was not
  scrobbled: when \<open>ClearPlaying\<close> or \<open>UpdateNowPlaying\<close> evaluates it with
  \<open>elapsed = max (now - timestamp) 0\<close>, one record is appended to the queue if and only if
  \<open>elapsed > 30\<close>; the record has the tracked start time as its timestamp, and its length
  is the 64-bit product of \<open>elapsed\<close> and \<^verbatim>\<open>kNsecPerSec\<close>, which is \<open>elapsed\<close> seconds
  whenever \<open>elapsed \<le> 9223372036\<close>. Otherwise the cache is unchanged. Tracked from
  \<open>T = 0\<close>: at \<open>T = 45\<close> a record of 45 seconds is enqueued, at \<open>T = 10\<close> nothing is.
\<close>

theorem derived_scrobble_rule:
  fixes E :: Env and now now1 :: int and song :: Song and s :: ListenBrainzScrobbler
  defines "elapsed \<equiv> max (now - timestamp s) 0"
  defines "c1 \<equiv> cache (ClearPlaying E now s)"
  defines "c2 \<equiv> cache (UpdateNowPlaying E now now1 song s)"
  assumes "is_radio (song_playing s)" "is_metadata_good (song_playing s)" "\<not> scrobbled s"
  shows "c2 = c1
    \<and> (queue c1 \<noteq> queue (cache s)) = (elapsed > 30)
    \<and> queue c1 = (if elapsed > 30 then queue (cache s) @ [next_item (cache s)] else queue (cache s))
    \<and> (elapsed > 30 \<longrightarrow>
          md_length_nanosec (item_metadata (items c1 (next_item (cache s)))) = qint64_mul elapsed kNsecPerSec
          \<and> md_title (item_metadata (items c1 (next_item (cache s)))) = title (song_playing s)
          \<and> item_timestamp (items c1 (next_item (cache s))) = timestamp s)
    \<and> (elapsed > 30 \<and> elapsed \<le> 9223372036 \<longrightarrow>
          md_length_nanosec (item_metadata (items c1 (next_item (cache s)))) = elapsed * 1000000000)
    \<and> (\<not> elapsed > 30 \<longrightarrow> c1 = cache s)
    \<and> (timestamp s = 0 \<and> now = 45 \<longrightarrow>
          queue c1 = queue (cache s) @ [next_item (cache s)]
          \<and> md_length_nanosec (item_metadata (items c1 (next_item (cache s)))) = 45 * 1000000000)
    \<and> (timestamp s = 0 \<and> now = 10 \<longrightarrow> c1 = cache s)"
proof -
  note d = CheckScrobblePrevSong_derived [OF assms(4-6), where E = E and now = now, folded elapsed_def]
  have c1: "c1 = cache (CheckScrobblePrevSong E now s)"
    by (simp add: c1_def ClearPlaying_cache)
  have e: "c2 = c1"
    by (simp add: c1 c2_def UpdateNowPlaying_cache)
  have q: "queue c1 = (if elapsed > 30 then queue (cache s) @ [next_item (cache s)] else queue (cache s))"
    unfolding c1 by (rule d(1))
  have i: "(queue c1 \<noteq> queue (cache s)) = (elapsed > 30)"
    unfolding q by simp
  have l: "elapsed > 30 \<longrightarrow>
          md_length_nanosec (item_metadata (items c1 (next_item (cache s)))) = qint64_mul elapsed kNsecPerSec
          \<and> md_title (item_metadata (items c1 (next_item (cache s)))) = title (song_playing s)
          \<and> item_timestamp (items c1 (next_item (cache s))) = timestamp s"
    unfolding c1 using d(2) by blast
  have b: "elapsed > 30 \<and> elapsed \<le> 9223372036 \<longrightarrow>
          md_length_nanosec (item_metadata (items c1 (next_item (cache s)))) = elapsed * 1000000000"
  proof
    assume a: "elapsed > 30 \<and> elapsed \<le> 9223372036"
    then have "qint64_mul elapsed kNsecPerSec = elapsed * 1000000000"
      by (intro qint64_mul_nsec) simp_all
    with a l show "md_length_nanosec (item_metadata (items c1 (next_item (cache s)))) = elapsed * 1000000000"
      by simp
  qed
  have n: "\<not> elapsed > 30 \<longrightarrow> c1 = cache s"
    unfolding c1 using d(3) by simp
  have x45: "timestamp s = 0 \<and> now = 45 \<longrightarrow>
          queue c1 = queue (cache s) @ [next_item (cache s)]
          \<and> md_length_nanosec (item_metadata (items c1 (next_item (cache s)))) = 45 * 1000000000"
  proof
    assume a: "timestamp s = 0 \<and> now = 45"
    then have "elapsed = 45" by (simp add: elapsed_def)
    with q b show "queue c1 = queue (cache s) @ [next_item (cache s)]
          \<and> md_length_nanosec (item_metadata (items c1 (next_item (cache s)))) = 45 * 1000000000"
      by simp
  qed
  have x10: "timestamp s = 0 \<and> now = 10 \<longrightarrow> c1 = cache s"
  proof
    assume a: "timestamp s = 0 \<and> now = 10"
    then have "elapsed = 10" by (simp add: elapsed_def)
    with n show "c1 = cache s" by simp
  qed
  show ?thesis
    by (rule conjI [OF e conjI [OF i conjI [OF q conjI [OF l conjI [OF b conjI [OF n conjI [OF x45 x10]]]]]]])
qed

theorem derived_scrobble_rule_witness:
  "is_radio (song_playing radio_scrobbler) \<and> is_metadata_good (song_playing radio_scrobbler)
   \<and> \<not> scrobbled radio_scrobbler \<and> timestamp radio_scrobbler = 0
   \<and> queue (cache radio_scrobbler) = [] \<and> next_item (cache radio_scrobbler) = 1
   \<and> queue (cache (ClearPlaying example_env 45 radio_scrobbler)) = [1]
   \<and> md_length_nanosec (item_metadata (items (cache (ClearPlaying example_env 45 radio_scrobbler)) 1))
        = 45000000000
   \<and> cache (ClearPlaying example_env 10 radio_scrobbler) = cache radio_scrobbler
   \<and> queue (cache (UpdateNowPlaying example_env 45 46 radio_song radio_scrobbler)) = [1]
   \<and> md_length_nanosec (item_metadata (items (cache (ClearPlaying example_env 9223372036 radio_scrobbler)) 1))
        = 9223372036000000000"
proof -
  have a: "is_radio (song_playing radio_scrobbler)" "is_metadata_good (song_playing radio_scrobbler)"
    "\<not> scrobbled radio_scrobbler"
    by (simp_all add: radio_scrobbler_def radio_song_def example_scrobbler_def)
  have f: "timestamp radio_scrobbler = 0" "queue (cache radio_scrobbler) = []"
    "next_item (cache radio_scrobbler) = 1"
    by (simp_all add: radio_scrobbler_def example_scrobbler_def queue_of_def)
  note t45 = derived_scrobble_rule [OF a, where E = example_env and now = 45 and ?now1.0 = 46 and song = radio_song]
  note t10 = derived_scrobble_rule [OF a, where E = example_env and now = 10 and ?now1.0 = 11 and song = radio_song]
  note tmax = derived_scrobble_rule [OF a, where E = example_env and now = 9223372036 and ?now1.0 = 0
      and song = radio_song]
  have w1: "queue (cache (ClearPlaying example_env 45 radio_scrobbler)) = [1]"
    "md_length_nanosec (item_metadata (items (cache (ClearPlaying example_env 45 radio_scrobbler)) 1))
       = 45000000000"
    "queue (cache (UpdateNowPlaying example_env 45 46 radio_song radio_scrobbler)) = [1]"
    using t45 f by simp_all
  have w2: "cache (ClearPlaying example_env 10 radio_scrobbler) = cache radio_scrobbler"
    using t10 f by simp
  have w3: "md_length_nanosec (item_metadata (items (cache (ClearPlaying example_env 9223372036 radio_scrobbler)) 1))
        = 9223372036000000000"
    using tmax f by simp
  from a f w1 w2 w3 show ?thesis by simp
qed

text \<open>Tracked from \<open>T = 0\<close> and evaluated at \<open>T = 10\<^sup>1\<^sup>0\<close>: a record is enqueued, and its
  length is \<open>10\<^sup>1\<^sup>9 - 2\<^sup>6\<^sup>4\<close> nanoseconds, a negative number, not \<open>10\<^sup>1\<^sup>0\<close> seconds.\<close>

theorem derived_scrobble_rule_counterexample:
  "is_radio (song_playing radio_scrobbler) \<and> is_metadata_good (song_playing radio_scrobbler)
   \<and> \<not> scrobbled radio_scrobbler
   \<and> max (10000000000 - timestamp radio_scrobbler) 0 = 10000000000
   \<and> queue (cache (ClearPlaying example_env 10000000000 radio_scrobbler)) = [1]
   \<and> md_length_nanosec (item_metadata
        (items (cache (ClearPlaying example_env 10000000000 radio_scrobbler)) 1))
       = - 8446744073709551616"
  by (simp add: ClearPlaying_def CheckScrobblePrevSong_def Scrobble_def StartSubmit_def Cache_Add_def
      Cache_Count_def radio_scrobbler_def radio_song_def example_scrobbler_def example_env_def
      example_timer_def queue_of_def set_length_nanosec_def ScrobbleMetadata_of_def qint64_mul_def
      kNsecPerSec_def static_cast_int_def kMsecPerSec_def start_def setInterval_def Let_def)

section \<open>What each call leaves alone\<close>

lemma GetJsonObject_state_fields [simp]:
  "scrobbled (snd (snd (snd (GetJsonObject E reply obj descr s)))) = scrobbled s"
  "song_playing (snd (snd (snd (GetJsonObject E reply obj descr s)))) = song_playing s"
  "submit_error (snd (snd (snd (GetJsonObject E reply obj descr s)))) = submit_error s"
  "cache (snd (snd (snd (GetJsonObject E reply obj descr s)))) = cache s"
  "timer_submit (snd (snd (snd (GetJsonObject E reply obj descr s)))) = timer_submit s"
  "submitted (snd (snd (snd (GetJsonObject E reply obj descr s)))) = submitted s"
  "emitted (snd (snd (snd (GetJsonObject E reply obj descr s)))) = emitted s"
  "replies (snd (snd (snd (GetJsonObject E reply obj descr s)))) = replies s"
  "network (snd (snd (snd (GetJsonObject E reply obj descr s)))) = network s"
  by (simp_all add: GetJsonObject_state)

lemma take_reply_fields [simp]:
  "scrobbled (take_reply r s) = scrobbled s" "song_playing (take_reply r s) = song_playing s"
  "submit_error (take_reply r s) = submit_error s" "cache (take_reply r s) = cache s"
  "timer_submit (take_reply r s) = timer_submit s" "submitted (take_reply r s) = submitted s"
  "emitted (take_reply r s) = emitted s" "network (take_reply r s) = network s"
  "access_token (take_reply r s) = access_token s" "expires_in (take_reply r s) = expires_in s"
  "token_type (take_reply r s) = token_type s" "refresh_token (take_reply r s) = refresh_token s"
  "login_time (take_reply r s) = login_time s" "settings_store (take_reply r s) = settings_store s"
  by (simp_all add: take_reply_def)

lemma Submit_fields [simp]:
  "scrobbled (Submit E s) = scrobbled s" "song_playing (Submit E s) = song_playing s"
  "submit_error (Submit E s) = submit_error s" "timestamp (Submit E s) = timestamp s"
  by (simp_all add: Submit_eq)

lemma StartSubmit_fields [simp]:
  "scrobbled (StartSubmit E initial s) = scrobbled s"
  "song_playing (StartSubmit E initial s) = song_playing s"
  "submit_error (StartSubmit E initial s) = submit_error s"
  "timestamp (StartSubmit E initial s) = timestamp s"
  by (simp_all add: StartSubmit_def Let_def)

lemma AuthError_fields [simp]:
  "scrobbled (AuthError m s) = scrobbled s" "song_playing (AuthError m s) = song_playing s"
  "submit_error (AuthError m s) = submit_error s" "cache (AuthError m s) = cache s"
  by (simp_all add: AuthError_def)

lemma RequestAccessToken_fields [simp]:
  "scrobbled (RequestAccessToken u code s) = scrobbled s"
  "song_playing (RequestAccessToken u code s) = song_playing s"
  "submit_error (RequestAccessToken u code s) = submit_error s"
  by (simp_all add: RequestAccessToken_def Let_def network_post_def connect_finished_def
      split: option.splits)

lemma RedirectArrived_fields [simp]:
  "scrobbled (RedirectArrived s) = scrobbled s"
  "song_playing (RedirectArrived s) = song_playing s"
  "submit_error (RedirectArrived s) = submit_error s"
  by (simp_all add: RedirectArrived_def Let_def split: option.splits)

lemma LoadSession_fields2 [simp]:
  "scrobbled (LoadSession now s) = scrobbled s"
  "song_playing (LoadSession now s) = song_playing s"
  "submit_error (LoadSession now s) = submit_error s"
  by (simp_all add: LoadSession_def Let_def)

lemma AuthenticateReplyFinished_fields [simp]:
  "scrobbled (AuthenticateReplyFinished E now reply s) = scrobbled s"
  "song_playing (AuthenticateReplyFinished E now reply s) = song_playing s"
  "submit_error (AuthenticateReplyFinished E now reply s) = submit_error s"
  by (simp_all add: AuthenticateReplyFinished_def Let_def case_prod_beta)

lemma UpdateNowPlayingRequestFinished_fields [simp]:
  "scrobbled (UpdateNowPlayingRequestFinished E reply s) = scrobbled s"
  "song_playing (UpdateNowPlayingRequestFinished E reply s) = song_playing s"
  "submit_error (UpdateNowPlayingRequestFinished E reply s) = submit_error s"
  by (simp_all add: UpdateNowPlayingRequestFinished_def Let_def case_prod_beta)

lemma LoveRequestFinished_fields [simp]:
  "scrobbled (LoveRequestFinished E reply s) = scrobbled s"
  "song_playing (LoveRequestFinished E reply s) = song_playing s"
  "submit_error (LoveRequestFinished E reply s) = submit_error s"
  by (simp_all add: LoveRequestFinished_def Let_def case_prod_beta)

lemma Love_fields [simp]:
  "scrobbled (Love E s) = scrobbled s" "song_playing (Love E s) = song_playing s"
  "submit_error (Love E s) = submit_error s"
  by (simp_all add: Love_def Let_def CreateRequest_def network_post_def connect_finished_def)

lemma timer_submit_timeout_fields [simp]:
  "scrobbled (timer_submit_timeout E s) = scrobbled s"
  "song_playing (timer_submit_timeout E s) = song_playing s"
  "submit_error (timer_submit_timeout E s) = submit_error s"
  by (simp_all add: timer_submit_timeout_def)

lemma ScrobbleRequestFinished_fields [simp]:
  "scrobbled (ScrobbleRequestFinished E reply b s) = scrobbled s"
  "song_playing (ScrobbleRequestFinished E reply b s) = song_playing s"
  by (simp_all add: ScrobbleRequestFinished_def Let_def case_prod_beta)

lemma ScrobbleRequestFinished_submit_error:
  "submit_error (ScrobbleRequestFinished E reply b s) =
     (if reply_ptr reply \<in> set (replies s) then fst (GetJsonObject E reply [] [] s) \<noteq> Success
      else submit_error s)"
  using GetJsonObject_result(1) [of E reply "[]" "[]" "(take_reply (reply_ptr reply) s)\<lparr>submitted := False\<rparr>" s]
  by (simp add: ScrobbleRequestFinished_def Let_def case_prod_beta)

lemma Scrobble_fields [simp]:
  "song_playing (Scrobble E song s) = song_playing s"
  "submit_error (Scrobble E song s) = submit_error s"
  "timestamp (Scrobble E song s) = timestamp s"
  by (simp_all add: Scrobble_def Let_def)

lemma Scrobble_scrobbled:
  "scrobbled (Scrobble E song s) =
     (if song_id song \<noteq> song_id (song_playing s) \<or> url song \<noteq> url (song_playing s)
         \<or> \<not> is_metadata_good song
      then scrobbled s else True)"
  by (simp add: Scrobble_def Let_def)

lemma CheckScrobblePrevSong_submit_error [simp]:
  "submit_error (CheckScrobblePrevSong E now s) = submit_error s"
  by (simp add: CheckScrobblePrevSong_eq)

lemma tracking_submit_error [simp]:
  "submit_error (ClearPlaying E now s) = submit_error s"
  "submit_error (UpdateNowPlaying E now now1 song s) = submit_error s"
  by (simp_all add: ClearPlaying_def UpdateNowPlaying_def Let_def CreateRequest_def network_post_def
      connect_finished_def)

lemma finished_fields [simp]:
  "scrobbled (finished E now reply s) = scrobbled s"
  "song_playing (finished E now reply s) = song_playing s"
  by (simp_all add: finished_def split: option.splits slot.splits)
section \<open>An explicit scrobble and the derived one\<close>

lemma step_keeps_scrobbled:
  "keeps_tracking e \<Longrightarrow> scrobbled s \<Longrightarrow> scrobbled (step E e s)"
  by (cases e) (simp_all add: Scrobble_scrobbled)

lemma step_keeps_song_playing:
  "keeps_tracking e \<Longrightarrow> song_playing (step E e s) = song_playing s"
  by (cases e) simp_all

lemma run_keeps_tracking:
  "\<forall>x\<in>set es. keeps_tracking (snd x) \<Longrightarrow> scrobbled s \<Longrightarrow>
   scrobbled (run es s) \<and> song_playing (run es s) = song_playing s"
proof (induction es arbitrary: s)
  case Nil
  then show ?case by simp
next
  case (Cons x es)
  from Cons.prems have k: "keeps_tracking (snd x)" and r: "\<forall>x\<in>set es. keeps_tracking (snd x)"
    by simp_all
  from k Cons.prems(2) have "scrobbled (step (fst x) (snd x) s)"
    by (rule step_keeps_scrobbled)
  from Cons.IH [OF r this] step_keeps_song_playing [OF k, of "fst x" s]
  show ?case by simp
qed

lemma CheckScrobblePrevSong_scrobbled: "scrobbled s \<Longrightarrow> CheckScrobblePrevSong E now s = s"
  by (simp add: CheckScrobblePrevSong_eq)

lemma CheckScrobblePrevSong_at_most_one:
  "length (queue (cache (CheckScrobblePrevSong E now s))) \<le> Suc (length (queue (cache s)))"
  by (simp add: CheckScrobblePrevSong_eq Scrobble_queue)

lemma CheckScrobblePrevSong_sets_scrobbled:
  "queue (cache (CheckScrobblePrevSong E now s)) \<noteq> queue (cache s) \<Longrightarrow>
   scrobbled (CheckScrobblePrevSong E now s)"
  by (simp add: CheckScrobblePrevSong_eq Scrobble_queue Scrobble_scrobbled split: if_splits)

text \<open>
  Claim C9. \<open>Scrobble\<close> of the tracked item (same id and url, good metadata) sets the
  scrobbled flag. The flag and the tracked item then stay through every event other than
  \<open>UpdateNowPlaying\<close> and \<open>ClearPlaying\<close>, and with the flag set neither of these two
  enqueues a derived scrobble. In any state each of them enqueues at most one record,
  and \<open>CheckScrobblePrevSong\<close> sets the flag when it enqueues one.
\<close>

theorem explicit_scrobble_blocks_derived:
  "(song_id song = song_id (song_playing s) \<and> url song = url (song_playing s) \<and> is_metadata_good song
      \<longrightarrow> scrobbled (Scrobble E song s))
   \<and> (scrobbled s \<and> (\<forall>x\<in>set es. keeps_tracking (snd x)) \<longrightarrow>
         scrobbled (run es s) \<and> song_playing (run es s) = song_playing s
         \<and> cache (ClearPlaying E now (run es s)) = cache (run es s)
         \<and> cache (UpdateNowPlaying E now now1 song1 (run es s)) = cache (run es s))
   \<and> length (queue (cache (ClearPlaying E now s))) \<le> Suc (length (queue (cache s)))
   \<and> length (queue (cache (UpdateNowPlaying E now now1 song1 s))) \<le> Suc (length (queue (cache s)))
   \<and> (queue (cache (CheckScrobblePrevSong E now s)) \<noteq> queue (cache s)
         \<longrightarrow> scrobbled (CheckScrobblePrevSong E now s))"
proof -
  have a: "song_id song = song_id (song_playing s) \<and> url song = url (song_playing s) \<and> is_metadata_good song
      \<longrightarrow> scrobbled (Scrobble E song s)"
    by (simp add: Scrobble_scrobbled)
  have b: "scrobbled s \<and> (\<forall>x\<in>set es. keeps_tracking (snd x)) \<longrightarrow>
         scrobbled (run es s) \<and> song_playing (run es s) = song_playing s
         \<and> cache (ClearPlaying E now (run es s)) = cache (run es s)
         \<and> cache (UpdateNowPlaying E now now1 song1 (run es s)) = cache (run es s)"
  proof
    assume h: "scrobbled s \<and> (\<forall>x\<in>set es. keeps_tracking (snd x))"
    then have k: "scrobbled (run es s) \<and> song_playing (run es s) = song_playing s"
      using run_keeps_tracking [of es s] by blast
    then have "CheckScrobblePrevSong E now (run es s) = run es s"
      by (simp add: CheckScrobblePrevSong_scrobbled)
    with k show "scrobbled (run es s) \<and> song_playing (run es s) = song_playing s
         \<and> cache (ClearPlaying E now (run es s)) = cache (run es s)
         \<and> cache (UpdateNowPlaying E now now1 song1 (run es s)) = cache (run es s)"
      by (simp add: ClearPlaying_cache UpdateNowPlaying_cache)
  qed
  have c: "length (queue (cache (ClearPlaying E now s))) \<le> Suc (length (queue (cache s)))"
    by (simp add: ClearPlaying_cache CheckScrobblePrevSong_at_most_one)
  have d: "length (queue (cache (UpdateNowPlaying E now now1 song1 s))) \<le> Suc (length (queue (cache s)))"
    by (simp add: UpdateNowPlaying_cache CheckScrobblePrevSong_at_most_one)
  have e: "queue (cache (CheckScrobblePrevSong E now s)) \<noteq> queue (cache s)
         \<longrightarrow> scrobbled (CheckScrobblePrevSong E now s)"
    using CheckScrobblePrevSong_sets_scrobbled by blast
  show ?thesis
    by (rule conjI [OF a conjI [OF b conjI [OF c conjI [OF d e]]]])
qed

theorem explicit_scrobble_blocks_derived_witness:
  "song_id radio_song = song_id (song_playing radio_scrobbler)
   \<and> url radio_song = url (song_playing radio_scrobbler) \<and> is_metadata_good radio_song
   \<and> scrobbled (Scrobble example_env radio_song radio_scrobbler)
   \<and> keeps_tracking Ev_Submit \<and> keeps_tracking (Ev_finished 50 reply_timeout)
   \<and> queue (cache (Scrobble example_env radio_song radio_scrobbler)) = [1]
   \<and> queue (cache (ClearPlaying example_env 45
        (run [(example_env, Ev_Submit), (example_env, Ev_finished 50 reply_timeout)]
           (Scrobble example_env radio_song radio_scrobbler)))) = [1]
   \<and> queue (cache (CheckScrobblePrevSong example_env 45 radio_scrobbler)) = [1]
   \<and> scrobbled (CheckScrobblePrevSong example_env 45 radio_scrobbler)"
proof -
  let ?s = "Scrobble example_env radio_song radio_scrobbler"
  let ?es = "[(example_env, Ev_Submit), (example_env, Ev_finished 50 reply_timeout)]"
  have a: "song_id radio_song = song_id (song_playing radio_scrobbler)"
    "url radio_song = url (song_playing radio_scrobbler)" "is_metadata_good radio_song"
    by (simp_all add: radio_scrobbler_def radio_song_def)
  have k: "\<forall>x\<in>set ?es. keeps_tracking (snd x)"
    by simp
  have q0: "queue (cache radio_scrobbler) = []" "next_item (cache radio_scrobbler) = 1"
    by (simp_all add: radio_scrobbler_def example_scrobbler_def queue_of_def)
  have q: "queue (cache ?s) = [1]"
    using a q0 by (simp add: Scrobble_queue)
  have q1: "queue (cache (run ?es ?s)) = [1]"
    using q by (simp add: Submit_queue finished_def ScrobbleRequestFinished_def
        UpdateNowPlayingRequestFinished_def LoveRequestFinished_def AuthenticateReplyFinished_def
        GetJsonObject_defs reply_defs example_env_def Let_def StartSubmit_queue Cache_ClearSent_def
        Error_def split: option.splits slot.splits)
  have q2: "queue (cache (CheckScrobblePrevSong example_env 45 radio_scrobbler)) = [1]"
    by (simp add: CheckScrobblePrevSong_eq Scrobble_queue radio_scrobbler_def radio_song_def
        example_scrobbler_def set_length_nanosec_def queue_of_def)
  note t1 = explicit_scrobble_blocks_derived [where s = radio_scrobbler and song = radio_song
      and E = example_env and now = 45 and es = "[]"]
  note t2 = explicit_scrobble_blocks_derived [where s = ?s and es = ?es and E = example_env and now = 45]
  from t1 a have s1: "scrobbled ?s" by blast
  from t2 s1 k have "cache (ClearPlaying example_env 45 (run ?es ?s)) = cache (run ?es ?s)"
    by blast
  with q1 have w: "queue (cache (ClearPlaying example_env 45 (run ?es ?s))) = [1]"
    by simp
  from t1 q2 q0 have s2: "scrobbled (CheckScrobblePrevSong example_env 45 radio_scrobbler)"
    by simp
  from a s1 q w q2 s2 show ?thesis by simp
qed
section \<open>The error flag of the last submission\<close>

lemma finished_submit_error:
  "submit_error (finished E now reply s) =
     (case map_of (connections s) (reply_ptr reply) of
        Some (ScrobbleRequestFinished_slot b) \<Rightarrow>
          (if reply_ptr reply \<in> set (replies s) then fst (GetJsonObject E reply [] [] s) \<noteq> Success
           else submit_error s)
      | _ \<Rightarrow> submit_error s)"
  by (simp add: finished_def ScrobbleRequestFinished_submit_error split: option.splits slot.splits)

lemma step_submit_error:
  assumes "submit_error (step E e s) \<noteq> submit_error s"
  shows "\<exists>now reply b. e = Ev_finished now reply
           \<and> map_of (connections s) (reply_ptr reply) = Some (ScrobbleRequestFinished_slot b)
           \<and> reply_ptr reply \<in> set (replies s)
           \<and> submit_error (step E e s) = (fst (GetJsonObject E reply [] [] s) \<noteq> Success)"
proof (cases e)
  case (Ev_finished now reply)
  with assms show ?thesis
    by (auto simp: finished_submit_error split: option.splits slot.splits if_splits)
qed (use assms in simp_all)

lemma ScrobbleRequestFinished_timer:
  assumes "reply_ptr reply \<in> set (replies s)" and "fst (GetJsonObject E reply [] [] s) \<noteq> Success"
  shows "timer_submit (ScrobbleRequestFinished E reply b s) =
     (if Cache_Count (cache (ScrobbleRequestFinished E reply b s)) > 0 \<and> \<not> isActive (timer_submit s)
      then (timer_submit s)\<lparr>interval := static_cast_int (max (submit_delay E) 30 * kMsecPerSec),
                             isActive := True\<rparr>
      else timer_submit s)"
proof -
  let ?s1 = "(take_reply (reply_ptr reply) s)\<lparr>submitted := False\<rparr>"
  have r: "fst (GetJsonObject E reply [] [] ?s1) \<noteq> Success"
    using assms(2) GetJsonObject_result(1) [of E reply "[]" "[]" ?s1 s] by simp
  show ?thesis
    using assms(1) r
    by (simp add: ScrobbleRequestFinished_def Let_def case_prod_beta StartSubmit_after_error
        Cache_Count_def Cache_Flush_def Cache_ClearSent_def Cache_SetError_def start_def
        setInterval_def)
qed

text \<open>
  Claim C10, as amended. When a tracked submission reply finishes, the flag
  \<^verbatim>\<open>submit_error_\<close> becomes true for every result other than \<open>Success\<close> (an API error
  with one or with several records included) and false for \<open>Success\<close>. No other event
  changes the flag. While the flag is set, \<open>StartSubmit\<close> never submits at once; it arms
  the timer only with no submission in flight, a non-empty queue and no timer armed, and
  then from \<open>max(delay, 30)\<close> seconds, which gives an interval of that many seconds, at
  least 30, whenever \<open>max(delay, 30) \<le> 2147483\<close>. This is what the call at the end of the
  reply handler does. A timer that is armed already is left as it is, whatever its
  interval.
\<close>

theorem submit_error_after_response:
  "(reply_ptr reply \<in> set (replies s) \<longrightarrow>
      submit_error (ScrobbleRequestFinished E reply b s) = (fst (GetJsonObject E reply [] [] s) \<noteq> Success))
   \<and> (submit_error (step E e s) \<noteq> submit_error s \<longrightarrow>
        (\<exists>now reply b. e = Ev_finished now reply
           \<and> map_of (connections s) (reply_ptr reply) = Some (ScrobbleRequestFinished_slot b)
           \<and> reply_ptr reply \<in> set (replies s)
           \<and> submit_error (step E e s) = (fst (GetJsonObject E reply [] [] s) \<noteq> Success)))
   \<and> (submit_error s \<longrightarrow>
        StartSubmit E initial s =
          (if \<not> submitted s \<and> Cache_Count (cache s) > 0 \<and> \<not> isActive (timer_submit s)
           then s\<lparr>timer_submit := start (setInterval
                   (static_cast_int (max (submit_delay E) 30 * kMsecPerSec)) (timer_submit s))\<rparr>
           else s))
   \<and> (reply_ptr reply \<in> set (replies s) \<and> fst (GetJsonObject E reply [] [] s) \<noteq> Success \<longrightarrow>
        timer_submit (ScrobbleRequestFinished E reply b s) =
          (if Cache_Count (cache (ScrobbleRequestFinished E reply b s)) > 0 \<and> \<not> isActive (timer_submit s)
           then (timer_submit s)\<lparr>interval := static_cast_int (max (submit_delay E) 30 * kMsecPerSec),
                                  isActive := True\<rparr>
           else timer_submit s))
   \<and> (submit_error s \<and> \<not> submitted s \<and> Cache_Count (cache s) > 0 \<and> \<not> isActive (timer_submit s)
        \<and> max (submit_delay E) 30 \<le> 2147483 \<longrightarrow>
        StartSubmit E initial s =
          s\<lparr>timer_submit := (timer_submit s)\<lparr>interval := max (submit_delay E) 30 * 1000,
                                                isActive := True\<rparr>\<rparr>
        \<and> 30000 \<le> interval (timer_submit (StartSubmit E initial s)))
   \<and> (reply_ptr reply \<in> set (replies s) \<and> fst (GetJsonObject E reply [] [] s) \<noteq> Success
        \<and> Cache_Count (cache (ScrobbleRequestFinished E reply b s)) > 0 \<and> \<not> isActive (timer_submit s)
        \<and> max (submit_delay E) 30 \<le> 2147483 \<longrightarrow>
        timer_submit (ScrobbleRequestFinished E reply b s) =
          (timer_submit s)\<lparr>interval := max (submit_delay E) 30 * 1000, isActive := True\<rparr>
        \<and> 30000 \<le> interval (timer_submit (ScrobbleRequestFinished E reply b s)))
   \<and> (reply_ptr reply \<in> set (replies s) \<and> fst (GetJsonObject E reply [] [] s) \<noteq> Success
        \<and> isActive (timer_submit s) \<longrightarrow>
        timer_submit (ScrobbleRequestFinished E reply b s) = timer_submit s)"
proof -
  have a: "reply_ptr reply \<in> set (replies s) \<longrightarrow>
      submit_error (ScrobbleRequestFinished E reply b s) = (fst (GetJsonObject E reply [] [] s) \<noteq> Success)"
    by (simp add: ScrobbleRequestFinished_submit_error)
  have b: "submit_error (step E e s) \<noteq> submit_error s \<longrightarrow>
        (\<exists>now reply b. e = Ev_finished now reply
           \<and> map_of (connections s) (reply_ptr reply) = Some (ScrobbleRequestFinished_slot b)
           \<and> reply_ptr reply \<in> set (replies s)
           \<and> submit_error (step E e s) = (fst (GetJsonObject E reply [] [] s) \<noteq> Success))"
    using step_submit_error by blast
  have c: "submit_error s \<longrightarrow>
        StartSubmit E initial s =
          (if \<not> submitted s \<and> Cache_Count (cache s) > 0 \<and> \<not> isActive (timer_submit s)
           then s\<lparr>timer_submit := start (setInterval
                   (static_cast_int (max (submit_delay E) 30 * kMsecPerSec)) (timer_submit s))\<rparr>
           else s)"
    using StartSubmit_after_error by blast
  have d: "reply_ptr reply \<in> set (replies s) \<and> fst (GetJsonObject E reply [] [] s) \<noteq> Success \<longrightarrow>
        timer_submit (ScrobbleRequestFinished E reply b s) =
          (if Cache_Count (cache (ScrobbleRequestFinished E reply b s)) > 0 \<and> \<not> isActive (timer_submit s)
           then (timer_submit s)\<lparr>interval := static_cast_int (max (submit_delay E) 30 * kMsecPerSec),
                                  isActive := True\<rparr>
           else timer_submit s)"
    using ScrobbleRequestFinished_timer by blast
  have m: "static_cast_int (max (submit_delay E) 30 * kMsecPerSec) = max (submit_delay E) 30 * 1000"
    if "max (submit_delay E) 30 \<le> 2147483"
  proof -
    have "- 2147483 \<le> max (submit_delay E) 30" by simp
    from this that show ?thesis by (rule static_cast_int_msec)
  qed
  have "30 \<le> max (submit_delay E) 30" by simp
  then have lo: "30000 \<le> max (submit_delay E) 30 * 1000" by linarith
  have f: "submit_error s \<and> \<not> submitted s \<and> Cache_Count (cache s) > 0 \<and> \<not> isActive (timer_submit s)
        \<and> max (submit_delay E) 30 \<le> 2147483 \<longrightarrow>
        StartSubmit E initial s =
          s\<lparr>timer_submit := (timer_submit s)\<lparr>interval := max (submit_delay E) 30 * 1000,
                                                isActive := True\<rparr>\<rparr>
        \<and> 30000 \<le> interval (timer_submit (StartSubmit E initial s))"
  proof
    assume h: "submit_error s \<and> \<not> submitted s \<and> Cache_Count (cache s) > 0 \<and> \<not> isActive (timer_submit s)
        \<and> max (submit_delay E) 30 \<le> 2147483"
    then have "StartSubmit E initial s =
          s\<lparr>timer_submit := (timer_submit s)\<lparr>interval := max (submit_delay E) 30 * 1000,
                                                isActive := True\<rparr>\<rparr>"
      using c m by (simp add: start_def setInterval_def)
    with lo show "StartSubmit E initial s =
          s\<lparr>timer_submit := (timer_submit s)\<lparr>interval := max (submit_delay E) 30 * 1000,
                                                isActive := True\<rparr>\<rparr>
        \<and> 30000 \<le> interval (timer_submit (StartSubmit E initial s))"
      by simp
  qed
  have g: "reply_ptr reply \<in> set (replies s) \<and> fst (GetJsonObject E reply [] [] s) \<noteq> Success
        \<and> Cache_Count (cache (ScrobbleRequestFinished E reply b s)) > 0 \<and> \<not> isActive (timer_submit s)
        \<and> max (submit_delay E) 30 \<le> 2147483 \<longrightarrow>
        timer_submit (ScrobbleRequestFinished E reply b s) =
          (timer_submit s)\<lparr>interval := max (submit_delay E) 30 * 1000, isActive := True\<rparr>
        \<and> 30000 \<le> interval (timer_submit (ScrobbleRequestFinished E reply b s))"
  proof
    assume h: "reply_ptr reply \<in> set (replies s) \<and> fst (GetJsonObject E reply [] [] s) \<noteq> Success
        \<and> Cache_Count (cache (ScrobbleRequestFinished E reply b s)) > 0 \<and> \<not> isActive (timer_submit s)
        \<and> max (submit_delay E) 30 \<le> 2147483"
    then have "timer_submit (ScrobbleRequestFinished E reply b s) =
          (timer_submit s)\<lparr>interval := max (submit_delay E) 30 * 1000, isActive := True\<rparr>"
      using d m by simp
    with lo show "timer_submit (ScrobbleRequestFinished E reply b s) =
          (timer_submit s)\<lparr>interval := max (submit_delay E) 30 * 1000, isActive := True\<rparr>
        \<and> 30000 \<le> interval (timer_submit (ScrobbleRequestFinished E reply b s))"
      by simp
  qed
  have k: "reply_ptr reply \<in> set (replies s) \<and> fst (GetJsonObject E reply [] [] s) \<noteq> Success
        \<and> isActive (timer_submit s) \<longrightarrow>
        timer_submit (ScrobbleRequestFinished E reply b s) = timer_submit s"
    using d by simp
  show ?thesis
    by (rule conjI [OF a conjI [OF b conjI [OF c conjI [OF d conjI [OF f conjI [OF g k]]]]]])
qed

theorem submit_error_after_response_witness:
  "reply_ptr reply_timeout \<in> set (replies (Submit example_env (example_scrobbler (queue_of [10, 11, 12]))))
   \<and> submit_error (Submit example_env (example_scrobbler (queue_of [10, 11, 12]))) = False
   \<and> fst (GetJsonObject example_env reply_timeout [] []
            (Submit example_env (example_scrobbler (queue_of [10, 11, 12])))) = ServerError
   \<and> submit_error (ScrobbleRequestFinished example_env reply_timeout [10, 11, 12]
            (Submit example_env (example_scrobbler (queue_of [10, 11, 12]))))
   \<and> timer_submit (ScrobbleRequestFinished example_env reply_timeout [10, 11, 12]
            (Submit example_env (example_scrobbler (queue_of [10, 11, 12]))))
       = \<lparr>interval = 30000, isActive = True\<rparr>
   \<and> fst (GetJsonObject example_env reply_api_error [] []
            (Submit example_env (example_scrobbler (queue_of [10, 11, 12])))) = APIError
   \<and> submit_error (ScrobbleRequestFinished example_env reply_api_error [10, 11, 12]
            (Submit example_env (example_scrobbler (queue_of [10, 11, 12]))))
   \<and> submit_error (ScrobbleRequestFinished example_env reply_api_error [10]
            (Submit example_env (example_scrobbler (queue_of [10]))))
   \<and> submit_error (ScrobbleRequestFinished example_env reply_success [10, 11, 12]
            (Submit example_env (example_scrobbler (queue_of [10, 11, 12])))) = False
   \<and> submit_error (step example_env (Ev_finished 50 reply_timeout)
            (Submit example_env (example_scrobbler (queue_of [10, 11, 12]))))
   \<and> timer_submit (StartSubmit example_env True ((example_scrobbler (queue_of [10]))\<lparr>submit_error := True\<rparr>))
       = \<lparr>interval = 30000, isActive = True\<rparr>
   \<and> max (submit_delay example_env) 30 = 30
   \<and> 30000 \<le> interval (timer_submit (ScrobbleRequestFinished example_env reply_timeout [10, 11, 12]
            (Submit example_env (example_scrobbler (queue_of [10, 11, 12])))))
   \<and> isActive (timer_submit (Submit example_env
            (StartSubmit example_env False (example_scrobbler (queue_of [10])))))
   \<and> timer_submit (ScrobbleRequestFinished example_env reply_timeout [10]
            (Submit example_env (StartSubmit example_env False (example_scrobbler (queue_of [10])))))
       = timer_submit (Submit example_env (StartSubmit example_env False (example_scrobbler (queue_of [10]))))"
proof -
  let ?a = "Submit example_env (StartSubmit example_env False (example_scrobbler (queue_of [10])))"
  have ar: "reply_ptr reply_timeout \<in> set (replies ?a)" "isActive (timer_submit ?a)"
    by (simp_all add: StartSubmit_def Submit_defs Cache_Count_def example_defs reply_defs
        static_cast_int_def kMsecPerSec_def start_def setInterval_def)
  have ag: "fst (GetJsonObject example_env reply_timeout [] [] ?a) \<noteq> Success"
    by (simp add: GetJsonObject_defs reply_defs example_env_def)
  from submit_error_after_response [where reply = reply_timeout and s = ?a and E = example_env
      and b = "[10]"] ar ag
  have w7: "timer_submit (ScrobbleRequestFinished example_env reply_timeout [10] ?a) = timer_submit ?a"
    by blast
  have mx: "max (submit_delay example_env) 30 = 30"
    by (simp add: example_env_def)
  let ?s = "Submit example_env (example_scrobbler (queue_of [10, 11, 12]))"
  let ?s1 = "Submit example_env (example_scrobbler (queue_of [10]))"
  let ?se = "(example_scrobbler (queue_of [10]))\<lparr>submit_error := True\<rparr>"
  have rp: "reply_ptr reply_timeout \<in> set (replies ?s)" "reply_ptr reply_api_error \<in> set (replies ?s)"
    "reply_ptr reply_success \<in> set (replies ?s)" "reply_ptr reply_api_error \<in> set (replies ?s1)"
    by (simp_all add: example_defs Submit_defs reply_defs)
  have f: "submit_error ?s = False" "timer_submit ?s = \<lparr>interval = 0, isActive = False\<rparr>"
    "submit_delay example_env = 0"
    by (simp_all add: example_defs)
  have r1: "fst (GetJsonObject example_env reply_timeout [] [] ?s) = ServerError"
    by (simp add: GetJsonObject_defs reply_defs example_env_def)
  have r2: "fst (GetJsonObject example_env reply_api_error [] [] ?s) = APIError"
    "fst (GetJsonObject example_env reply_api_error [] [] ?s1) = APIError"
    by (simp_all add: GetJsonObject_defs reply_defs example_env_def)
  have r3: "fst (GetJsonObject example_env reply_success [] [] ?s) = Success"
    by (simp add: GetJsonObject_defs reply_defs example_env_def)
  have q: "Cache_Count (cache (ScrobbleRequestFinished example_env reply_timeout [10, 11, 12] ?s)) > 0"
    using ScrobbleRequestFinished_cache(1) [OF rp(1), of example_env "[10, 11, 12]"] r1
    by (simp add: Cache_Count_def Submit_queue example_scrobbler_def queue_of_def)
  have e: "submit_error ?se" "\<not> submitted ?se" "Cache_Count (cache ?se) > 0"
    "timer_submit ?se = \<lparr>interval = 0, isActive = False\<rparr>"
    by (simp_all add: example_defs Cache_Count_def)
  note t1 = submit_error_after_response [where reply = reply_timeout and s = ?s and E = example_env
      and b = "[10, 11, 12]" and e = "Ev_finished 50 reply_timeout"]
  note t2 = submit_error_after_response [where reply = reply_api_error and s = ?s and E = example_env
      and b = "[10, 11, 12]"]
  note t3 = submit_error_after_response [where reply = reply_api_error and s = ?s1 and E = example_env
      and b = "[10]"]
  note t4 = submit_error_after_response [where reply = reply_success and s = ?s and E = example_env
      and b = "[10, 11, 12]"]
  note t5 = submit_error_after_response [where s = ?se and E = example_env and initial = True]
  have w1: "submit_error (ScrobbleRequestFinished example_env reply_timeout [10, 11, 12] ?s)"
    using t1 rp(1) r1 by simp
  have w1t: "timer_submit (ScrobbleRequestFinished example_env reply_timeout [10, 11, 12] ?s)
       = \<lparr>interval = 30000, isActive = True\<rparr>"
    using t1 rp(1) r1 q f by (simp add: static_cast_int_def kMsecPerSec_def)
  have w2: "submit_error (ScrobbleRequestFinished example_env reply_api_error [10, 11, 12] ?s)"
    using t2 rp(2) r2(1) by simp
  have w3: "submit_error (ScrobbleRequestFinished example_env reply_api_error [10] ?s1)"
    using t3 rp(4) r2(2) by simp
  have w4: "submit_error (ScrobbleRequestFinished example_env reply_success [10, 11, 12] ?s) = False"
    using t4 rp(3) r3 by simp
  have c: "map_of (connections ?s) (reply_ptr reply_timeout) = Some (ScrobbleRequestFinished_slot [10, 11, 12])"
    by (simp add: example_defs Submit_defs reply_defs)
  have w5: "submit_error (step example_env (Ev_finished 50 reply_timeout) ?s)"
    using w1 c by (simp add: finished_def)
  have w6: "timer_submit (StartSubmit example_env True ?se) = \<lparr>interval = 30000, isActive = True\<rparr>"
    using t5 e f(3) by (simp add: static_cast_int_def kMsecPerSec_def start_def setInterval_def)
  have w8: "30000 \<le> interval (timer_submit (ScrobbleRequestFinished example_env reply_timeout [10, 11, 12] ?s))"
    using w1t by simp
  from rp(1) f(1) r1 w1 w1t r2(1) w2 w3 w4 w5 w6 mx w8 ar(2) w7 show ?thesis by simp
qed

text \<open>A timer is armed with the 5-second floor, \<open>Submit\<close> is then called, and the reply is
  a transport error: the flag is set and a record remains, but the timer that is armed is
  still the one of 5 seconds.\<close>

theorem submit_error_after_response_counterexample:
  "timer_submit (StartSubmit example_env False (example_scrobbler (queue_of [10])))
     = \<lparr>interval = 5000, isActive = True\<rparr>
   \<and> reply_ptr reply_timeout \<in> set (replies
        (Submit example_env (StartSubmit example_env False (example_scrobbler (queue_of [10])))))
   \<and> fst (GetJsonObject example_env reply_timeout [] []
        (Submit example_env (StartSubmit example_env False (example_scrobbler (queue_of [10])))))
       = ServerError
   \<and> submit_error (ScrobbleRequestFinished example_env reply_timeout [10]
        (Submit example_env (StartSubmit example_env False (example_scrobbler (queue_of [10])))))
   \<and> queue (cache (ScrobbleRequestFinished example_env reply_timeout [10]
        (Submit example_env (StartSubmit example_env False (example_scrobbler (queue_of [10]))))))
       = [10]
   \<and> timer_submit (ScrobbleRequestFinished example_env reply_timeout [10]
        (Submit example_env (StartSubmit example_env False (example_scrobbler (queue_of [10])))))
       = \<lparr>interval = 5000, isActive = True\<rparr>"
  by (simp add: ScrobbleRequestFinished_def StartSubmit_def Submit_defs Cache_Count_def
      example_defs reply_defs GetJsonObject_defs take_reply_def Error_def Cache_ClearSent_def
      static_cast_int_def kMsecPerSec_def start_def setInterval_def)
section \<open>Failed token exchange and session invalidation\<close>

lemma GetJsonObject_session_invalid:
  assumes "session_invalid reply"
  shows "fst (GetJsonObject E reply obj descr s) \<noteq> Success"
proof -
  from assms have ne: "net_error reply \<noteq> NoError"
    by (auto simp: session_invalid_def NoError_def ContentAccessDenied_def
        ContentOperationNotPermittedError_def AuthenticationRequiredError_def)
  then show ?thesis
    by (simp add: GetJsonObject_def Let_def case_prod_beta)
qed

lemma RedirectArrived_failure:
  assumes "server s = Some srv"
    and "server_error srv \<noteq> [] \<or> \<not> isValid (request_url srv)
         \<or> hasQueryItem (request_url srv) ''error'' \<or> \<not> hasQueryItem (request_url srv) ''code''"
  shows "\<exists>reason. RedirectArrived s =
           s\<lparr>emitted := emitted s @ [AuthenticationComplete False reason], server := None\<rparr>"
proof -
  have "RedirectArrived s = s\<lparr>emitted := emitted s @ [AuthenticationComplete False
           (if server_error srv \<noteq> [] then server_error srv
            else if \<not> isValid (request_url srv) then ''Received invalid reply from web browser.''
            else if hasQueryItem (request_url srv) ''error'' then queryItemValue (request_url srv) ''error''
            else ''Redirect missing token code!'')], server := None\<rparr>"
    using assms by (auto simp: RedirectArrived_def AuthError_def Let_def)
  then show ?thesis by blast
qed

lemma AuthenticateReplyFinished_failure:
  assumes "reply_ptr reply \<in> set (replies s)"
    and "fst (GetJsonObject E reply [] [] s) \<noteq> Success
         \<or> \<not> contains (fst (snd (GetJsonObject E reply [] [] s))) ''access_token''
         \<or> \<not> contains (fst (snd (GetJsonObject E reply [] [] s))) ''expires_in''
         \<or> \<not> contains (fst (snd (GetJsonObject E reply [] [] s))) ''token_type''"
  shows "\<exists>reason. AuthenticateReplyFinished E now reply s =
           (if session_invalid reply then Logout (take_reply (reply_ptr reply) s)
            else take_reply (reply_ptr reply) s)
           \<lparr>emitted := emitted s @ [AuthenticationComplete False reason]\<rparr>"
proof -
  let ?s1 = "take_reply (reply_ptr reply) s"
  let ?g = "GetJsonObject E reply [] [] ?s1"
  let ?s2 = "if session_invalid reply then Logout ?s1 else ?s1"
  have r: "fst ?g = fst (GetJsonObject E reply [] [] s)"
    "fst (snd ?g) = fst (snd (GetJsonObject E reply [] [] s))"
    by (rule GetJsonObject_result)+
  have st: "snd (snd (snd ?g)) = ?s2"
    by (rule GetJsonObject_state)
  have e: "emitted ?s2 = emitted s"
    by simp
  have "AuthenticateReplyFinished E now reply s =
          ?s2\<lparr>emitted := emitted s @ [AuthenticationComplete False
             (if fst ?g \<noteq> Success then fst (snd (snd ?g))
              else ''Json access_token, expires_in or token_type is missing.'')]\<rparr>"
    using assms unfolding r [symmetric]
    by (simp add: AuthenticateReplyFinished_def case_prod_beta AuthError_def st e del: One_nat_def)
  then show ?thesis by blast
qed

lemma RedirectArrived_failure_reason:
  assumes "server s = Some srv"
    and "server_error srv \<noteq> [] \<or> \<not> isValid (request_url srv)
         \<or> hasQueryItem (request_url srv) ''error'' \<or> \<not> hasQueryItem (request_url srv) ''code''"
  shows "RedirectArrived s = s\<lparr>emitted := emitted s @ [AuthenticationComplete False
           (if server_error srv \<noteq> [] then server_error srv
            else if \<not> isValid (request_url srv) then ''Received invalid reply from web browser.''
            else if hasQueryItem (request_url srv) ''error'' then queryItemValue (request_url srv) ''error''
            else ''Redirect missing token code!'')], server := None\<rparr>"
  using assms by (auto simp: RedirectArrived_def AuthError_def Let_def)

lemma RequestAccessToken_no_code:
  assumes "code = [] \<or> isEmpty u"
  shows "RequestAccessToken u code s =
     (if refresh_token s \<noteq> [] \<and> enabled s
      then s\<lparr>refresh_login_timer := stop (refresh_login_timer s),
             network := network s @ [(next_reply s, TokenRequest (RefreshToken (refresh_token s)))],
             next_reply := Suc (next_reply s),
             replies := replies s @ [next_reply s],
             connections := connections s @ [(next_reply s, AuthenticateReplyFinished_slot)]\<rparr>
      else s\<lparr>refresh_login_timer := stop (refresh_login_timer s)\<rparr>)"
  using assms by (auto simp: RequestAccessToken_def Let_def network_post_def connect_finished_def)

lemma RedirectArrived_no_code:
  assumes "server s = Some srv" and "server_error srv = []" and "isValid (request_url srv)"
    and "\<not> hasQueryItem (request_url srv) ''error''" and "hasQueryItem (request_url srv) ''code''"
    and "queryItemValue (request_url srv) ''code'' = [] \<or> isEmpty (request_url srv)"
  shows "RedirectArrived s =
     (if refresh_token s \<noteq> [] \<and> enabled s
      then s\<lparr>refresh_login_timer := stop (refresh_login_timer s),
             network := network s @ [(next_reply s, TokenRequest (RefreshToken (refresh_token s)))],
             next_reply := Suc (next_reply s),
             replies := replies s @ [next_reply s],
             connections := connections s @ [(next_reply s, AuthenticateReplyFinished_slot)],
             server := None\<rparr>
      else s\<lparr>refresh_login_timer := stop (refresh_login_timer s), server := None\<rparr>)"
proof -
  have "RedirectArrived s =
      (RequestAccessToken (request_url srv) (queryItemValue (request_url srv) ''code'') s)\<lparr>server := None\<rparr>"
    using assms(1-5) by (simp add: RedirectArrived_def Let_def)
  then show ?thesis
    unfolding RequestAccessToken_no_code [OF assms(6)] by simp
qed

lemma AuthenticateReplyFinished_failure_reason:
  assumes "reply_ptr reply \<in> set (replies s)"
    and "fst (GetJsonObject E reply [] [] s) \<noteq> Success
         \<or> \<not> contains (fst (snd (GetJsonObject E reply [] [] s))) ''access_token''
         \<or> \<not> contains (fst (snd (GetJsonObject E reply [] [] s))) ''expires_in''
         \<or> \<not> contains (fst (snd (GetJsonObject E reply [] [] s))) ''token_type''"
  shows "AuthenticateReplyFinished E now reply s =
           (if session_invalid reply then Logout (take_reply (reply_ptr reply) s)
            else take_reply (reply_ptr reply) s)
           \<lparr>emitted := emitted s @ [AuthenticationComplete False
                (if fst (GetJsonObject E reply [] [] s) \<noteq> Success
                 then fst (snd (snd (GetJsonObject E reply [] [] s)))
                 else ''Json access_token, expires_in or token_type is missing.'')]\<rparr>"
proof -
  let ?s1 = "take_reply (reply_ptr reply) s"
  let ?g = "GetJsonObject E reply [] [] ?s1"
  let ?s2 = "if session_invalid reply then Logout ?s1 else ?s1"
  have r: "fst ?g = fst (GetJsonObject E reply [] [] s)"
    "fst (snd ?g) = fst (snd (GetJsonObject E reply [] [] s))"
    "fst (snd (snd ?g)) = fst (snd (snd (GetJsonObject E reply [] [] s)))"
    by (rule GetJsonObject_result)+
  have st: "snd (snd (snd ?g)) = ?s2"
    by (rule GetJsonObject_state)
  have e: "emitted ?s2 = emitted s"
    by simp
  show ?thesis
    using assms unfolding r [symmetric]
    by (simp add: AuthenticateReplyFinished_def case_prod_beta AuthError_def st e del: One_nat_def)
qed

lemma session_of_simps [simp]:
  "session_of (take_reply r s) = session_of s"
  "session_of (s\<lparr>emitted := x\<rparr>) = session_of s"
  "session_of (s\<lparr>server := y\<rparr>) = session_of s"
  by (simp_all add: session_of_def)

text \<open>
  Claim C6, as amended. A redirect that reports a server error, is invalid, carries an
  error item or has no code item, and a token reply that is not a success or lacks
  \<open>access_token\<close>, \<open>expires_in\<close> or \<open>token_type\<close>, signal one authentication failure; the
  reason is the server's error text, the value of the error item, the reply's error
  description or a fixed message, as the case may be. The redirect server is released,
  the reply is dropped from the pending ones, and no session field, in memory or
  persisted, changes, with one exception: a token reply whose transport error is
  \<^verbatim>\<open>ContentAccessDenied\<close>, \<^verbatim>\<open>ContentOperationNotPermittedError\<close> or
  \<^verbatim>\<open>AuthenticationRequiredError\<close> makes \<open>GetJsonObject\<close> run \<open>Logout\<close> before the failure
  is signalled. A redirect whose code item is there but empty (or whose URL is empty)
  signals nothing: \<open>RequestAccessToken\<close> stops the refresh timer and, when a refresh token
  is held and the service is enabled, posts a refresh-token request; the session is not
  changed.
\<close>

theorem failed_token_exchange:
  "(server s = Some srv
      \<and> (server_error srv \<noteq> [] \<or> \<not> isValid (request_url srv)
          \<or> hasQueryItem (request_url srv) ''error'' \<or> \<not> hasQueryItem (request_url srv) ''code'')
     \<longrightarrow> RedirectArrived s =
           s\<lparr>emitted := emitted s @ [AuthenticationComplete False
                (if server_error srv \<noteq> [] then server_error srv
                 else if \<not> isValid (request_url srv) then ''Received invalid reply from web browser.''
                 else if hasQueryItem (request_url srv) ''error''
                 then queryItemValue (request_url srv) ''error''
                 else ''Redirect missing token code!'')],
             server := None\<rparr>
         \<and> session_of (RedirectArrived s) = session_of s)
   \<and> (server s = Some srv \<and> server_error srv = [] \<and> isValid (request_url srv)
      \<and> \<not> hasQueryItem (request_url srv) ''error'' \<and> hasQueryItem (request_url srv) ''code''
      \<and> (queryItemValue (request_url srv) ''code'' = [] \<or> isEmpty (request_url srv))
     \<longrightarrow> RedirectArrived s =
           (if refresh_token s \<noteq> [] \<and> enabled s
            then s\<lparr>refresh_login_timer := stop (refresh_login_timer s),
                   network := network s @ [(next_reply s, TokenRequest (RefreshToken (refresh_token s)))],
                   next_reply := Suc (next_reply s),
                   replies := replies s @ [next_reply s],
                   connections := connections s @ [(next_reply s, AuthenticateReplyFinished_slot)],
                   server := None\<rparr>
            else s\<lparr>refresh_login_timer := stop (refresh_login_timer s), server := None\<rparr>)
         \<and> emitted (RedirectArrived s) = emitted s
         \<and> session_of (RedirectArrived s) = session_of s)
   \<and> (reply_ptr reply \<in> set (replies s)
      \<and> (fst (GetJsonObject E reply [] [] s) \<noteq> Success
          \<or> \<not> contains (fst (snd (GetJsonObject E reply [] [] s))) ''access_token''
          \<or> \<not> contains (fst (snd (GetJsonObject E reply [] [] s))) ''expires_in''
          \<or> \<not> contains (fst (snd (GetJsonObject E reply [] [] s))) ''token_type'')
     \<longrightarrow> AuthenticateReplyFinished E now reply s =
           (if session_invalid reply then Logout (take_reply (reply_ptr reply) s)
            else take_reply (reply_ptr reply) s)
           \<lparr>emitted := emitted s @ [AuthenticationComplete False
                (if fst (GetJsonObject E reply [] [] s) \<noteq> Success
                 then fst (snd (snd (GetJsonObject E reply [] [] s)))
                 else ''Json access_token, expires_in or token_type is missing.'')]\<rparr>
         \<and> session_of (AuthenticateReplyFinished E now reply s) =
             (if session_invalid reply then session_of (Logout s) else session_of s))"
proof (intro conjI impI)
  assume a: "server s = Some srv
      \<and> (server_error srv \<noteq> [] \<or> \<not> isValid (request_url srv)
          \<or> hasQueryItem (request_url srv) ''error'' \<or> \<not> hasQueryItem (request_url srv) ''code'')"
  then show r: "RedirectArrived s =
           s\<lparr>emitted := emitted s @ [AuthenticationComplete False
                (if server_error srv \<noteq> [] then server_error srv
                 else if \<not> isValid (request_url srv) then ''Received invalid reply from web browser.''
                 else if hasQueryItem (request_url srv) ''error''
                 then queryItemValue (request_url srv) ''error''
                 else ''Redirect missing token code!'')],
             server := None\<rparr>"
    using RedirectArrived_failure_reason [of s srv] by blast
  show "session_of (RedirectArrived s) = session_of s"
    unfolding r by simp
next
  assume a: "server s = Some srv \<and> server_error srv = [] \<and> isValid (request_url srv)
      \<and> \<not> hasQueryItem (request_url srv) ''error'' \<and> hasQueryItem (request_url srv) ''code''
      \<and> (queryItemValue (request_url srv) ''code'' = [] \<or> isEmpty (request_url srv))"
  then show r: "RedirectArrived s =
           (if refresh_token s \<noteq> [] \<and> enabled s
            then s\<lparr>refresh_login_timer := stop (refresh_login_timer s),
                   network := network s @ [(next_reply s, TokenRequest (RefreshToken (refresh_token s)))],
                   next_reply := Suc (next_reply s),
                   replies := replies s @ [next_reply s],
                   connections := connections s @ [(next_reply s, AuthenticateReplyFinished_slot)],
                   server := None\<rparr>
            else s\<lparr>refresh_login_timer := stop (refresh_login_timer s), server := None\<rparr>)"
    using RedirectArrived_no_code [of s srv] by blast
  show "emitted (RedirectArrived s) = emitted s"
    unfolding r by simp
  show "session_of (RedirectArrived s) = session_of s"
    unfolding r by (simp add: session_of_def)
next
  assume a: "reply_ptr reply \<in> set (replies s)
      \<and> (fst (GetJsonObject E reply [] [] s) \<noteq> Success
          \<or> \<not> contains (fst (snd (GetJsonObject E reply [] [] s))) ''access_token''
          \<or> \<not> contains (fst (snd (GetJsonObject E reply [] [] s))) ''expires_in''
          \<or> \<not> contains (fst (snd (GetJsonObject E reply [] [] s))) ''token_type'')"
  then show r: "AuthenticateReplyFinished E now reply s =
           (if session_invalid reply then Logout (take_reply (reply_ptr reply) s)
            else take_reply (reply_ptr reply) s)
           \<lparr>emitted := emitted s @ [AuthenticationComplete False
                (if fst (GetJsonObject E reply [] [] s) \<noteq> Success
                 then fst (snd (snd (GetJsonObject E reply [] [] s)))
                 else ''Json access_token, expires_in or token_type is missing.'')]\<rparr>"
    using AuthenticateReplyFinished_failure_reason [of reply s E now] by blast
  show "session_of (AuthenticateReplyFinished E now reply s) =
          (if session_invalid reply then session_of (Logout s) else session_of s)"
    unfolding r by (simp add: session_of_def Logout_def take_reply_def)
qed

lemmas token_defs = awaiting_token_def redirect_with_code_def RequestAccessToken_def
  network_post_def connect_finished_def stop_def Let_def

theorem failed_token_exchange_witness:
  "server redirect_denied = Some \<lparr>server_error = [], request_url = \<lparr>isValid = True, isEmpty = False,
        toString = ''http://localhost:4000/?error=access_denied'',
        query = [(''error'', ''access_denied'')]\<rparr>\<rparr>
   \<and> hasQueryItem \<lparr>isValid = True, isEmpty = False,
        toString = ''http://localhost:4000/?error=access_denied'',
        query = [(''error'', ''access_denied'')]\<rparr> ''error''
   \<and> session_of (RedirectArrived redirect_denied) = session_of redirect_denied
   \<and> emitted (RedirectArrived redirect_denied) = [AuthenticationComplete False ''access_denied'']
   \<and> reply_ptr reply_timeout \<in> set (replies awaiting_token)
   \<and> fst (GetJsonObject example_env reply_timeout [] [] awaiting_token) = ServerError
   \<and> session_invalid reply_timeout = False
   \<and> session_of (AuthenticateReplyFinished example_env 50 reply_timeout awaiting_token)
       = session_of awaiting_token
   \<and> emitted (AuthenticateReplyFinished example_env 50 reply_timeout awaiting_token)
       = [AuthenticationComplete False ''Socket operation timed out (4)'']
   \<and> server redirect_empty_code = Some \<lparr>server_error = [], request_url = \<lparr>isValid = True,
        isEmpty = False, toString = ''http://localhost:4000/?code='', query = [(''code'', [])]\<rparr>\<rparr>
   \<and> session_of (RedirectArrived redirect_empty_code) = session_of redirect_empty_code
   \<and> emitted (RedirectArrived redirect_empty_code) = []
   \<and> network (RedirectArrived redirect_empty_code) = [(0, TokenRequest (RefreshToken ''ref''))]"
proof -
  let ?u = "\<lparr>isValid = True, isEmpty = False, toString = ''http://localhost:4000/?error=access_denied'',
        query = [(''error'', ''access_denied'')]\<rparr>"
  let ?srv = "\<lparr>server_error = [], request_url = ?u\<rparr>"
  let ?uc = "\<lparr>isValid = True, isEmpty = False, toString = ''http://localhost:4000/?code='',
        query = [(''code'', [])]\<rparr>"
  let ?srvc = "\<lparr>server_error = [], request_url = ?uc\<rparr>"
  have s: "server redirect_denied = Some ?srv"
    by (simp add: redirect_denied_def)
  have h: "hasQueryItem ?u ''error''" "queryItemValue ?u ''error'' = ''access_denied''"
    by (simp_all add: hasQueryItem_def queryItemValue_def)
  have e0: "emitted redirect_denied = []" "emitted awaiting_token = []"
    "emitted redirect_empty_code = []" "network redirect_empty_code = []"
    "next_reply redirect_empty_code = 0" "refresh_token redirect_empty_code = ''ref''"
    "enabled redirect_empty_code"
    by (simp_all add: redirect_denied_def redirect_empty_code_def example_scrobbler_def token_defs)
  have rp: "reply_ptr reply_timeout \<in> set (replies awaiting_token)"
    by (simp add: token_defs example_scrobbler_def reply_defs)
  have r: "fst (GetJsonObject example_env reply_timeout [] [] awaiting_token) = ServerError"
    by (simp add: GetJsonObject_defs reply_defs example_env_def)
  have m: "fst (snd (snd (GetJsonObject example_env reply_timeout [] [] awaiting_token)))
             = ''Socket operation timed out (4)''"
    by (simp add: GetJsonObject_defs reply_defs example_env_def)
  have n: "session_invalid reply_timeout = False"
    by (simp add: session_invalid_def reply_defs)
  have sc: "server redirect_empty_code = Some ?srvc"
    by (simp add: redirect_empty_code_def)
  have hc: "\<not> hasQueryItem ?uc ''error''" "hasQueryItem ?uc ''code''" "queryItemValue ?uc ''code'' = []"
    by (simp_all add: hasQueryItem_def queryItemValue_def)
  note t1 = failed_token_exchange [where s = redirect_denied and srv = ?srv]
  note t2 = failed_token_exchange [where s = awaiting_token and reply = reply_timeout
      and E = example_env and now = 50]
  note t3 = failed_token_exchange [where s = redirect_empty_code and srv = ?srvc]
  have w1: "session_of (RedirectArrived redirect_denied) = session_of redirect_denied"
    "emitted (RedirectArrived redirect_denied) = [AuthenticationComplete False ''access_denied'']"
    using t1 s h e0 by simp_all
  have w2: "session_of (AuthenticateReplyFinished example_env 50 reply_timeout awaiting_token)
       = session_of awaiting_token"
    "emitted (AuthenticateReplyFinished example_env 50 reply_timeout awaiting_token)
       = [AuthenticationComplete False ''Socket operation timed out (4)'']"
    using t2 rp r n m e0 by simp_all
  have w3: "session_of (RedirectArrived redirect_empty_code) = session_of redirect_empty_code"
    "emitted (RedirectArrived redirect_empty_code) = []"
    "network (RedirectArrived redirect_empty_code) = [(0, TokenRequest (RefreshToken ''ref''))]"
    using t3 sc hc e0 by (simp_all add: session_of_def)
  from s h(1) w1 rp r n w2 sc w3 show ?thesis by simp
qed

text \<open>Three exchanges that fail. The token reply comes back with
  \<^verbatim>\<open>AuthenticationRequiredError\<close>: the failure is signalled and the session that was stored
  is cleared. The redirect carries an empty code: nothing is signalled, and a refresh-token
  request is posted. The redirect carries an empty error item: the reason that is
  signalled is empty.\<close>

theorem failed_token_exchange_counterexample:
  "reply_ptr reply_auth_required \<in> set (replies awaiting_token)
   \<and> fst (GetJsonObject example_env reply_auth_required [] [] awaiting_token) = ServerError
   \<and> access_token awaiting_token = ''tok''
   \<and> st_refresh_token (settings_store awaiting_token) = Some ''ref''
   \<and> access_token (AuthenticateReplyFinished example_env 50 reply_auth_required awaiting_token) = []
   \<and> st_refresh_token (settings_store
        (AuthenticateReplyFinished example_env 50 reply_auth_required awaiting_token)) = None
   \<and> emitted (AuthenticateReplyFinished example_env 50 reply_auth_required awaiting_token)
       = [AuthenticationComplete False ''Host requires authentication (204)'']
   \<and> hasQueryItem \<lparr>isValid = True, isEmpty = False, toString = ''http://localhost:4000/?code='',
        query = [(''code'', [])]\<rparr> ''code''
   \<and> emitted (RedirectArrived redirect_empty_code) = []
   \<and> network (RedirectArrived redirect_empty_code) = [(0, TokenRequest (RefreshToken ''ref''))]
   \<and> isActive (refresh_login_timer (RedirectArrived redirect_empty_code)) = False
   \<and> emitted (RedirectArrived redirect_empty_error) = [AuthenticationComplete False []]"
  by (simp add: AuthenticateReplyFinished_def RedirectArrived_def token_defs example_scrobbler_def
      reply_defs GetJsonObject_defs example_env_def take_reply_def AuthError_def
      redirect_empty_code_def redirect_empty_error_def hasQueryItem_def queryItemValue_def
      example_timer_def)

lemma Logout_session:
  "session_of (Logout s) =
     ([], - 1, [], [], 0,
      (settings_store s)\<lparr>st_access_token := None, st_expires_in := None, st_token_type := None,
         st_refresh_token := None\<rparr>)"
  by (simp add: session_of_def Logout_def)

lemma Logout_keeps_login_time:
  "st_login_time (settings_store (Logout s)) = st_login_time (settings_store s)"
  by (simp add: Logout_def)

lemma session_of_frames [simp]:
  "session_of (Submit E s) = session_of s"
  "session_of (Error E m s) = session_of s"
  "session_of (s\<lparr>cache := c\<rparr>) = session_of s"
  "session_of (s\<lparr>submit_error := b\<rparr>) = session_of s"
  "session_of (s\<lparr>submitted := b\<rparr>) = session_of s"
  "session_of (s\<lparr>timer_submit := t\<rparr>) = session_of s"
  by (simp_all add: session_of_def Submit_eq Error_def)

lemma session_of_StartSubmit [simp]: "session_of (StartSubmit E initial s) = session_of s"
  by (simp add: StartSubmit_def Let_def)

lemma session_of_GetJsonObject:
  "session_of (snd (snd (snd (GetJsonObject E reply obj descr s)))) =
     (if session_invalid reply then session_of (Logout s) else session_of s)"
  by (simp add: GetJsonObject_state)

lemma session_of_Logout_frames [simp]:
  "session_of (Logout (take_reply r s)) = session_of (Logout s)"
  "session_of (Logout (s\<lparr>submitted := b\<rparr>)) = session_of (Logout s)"
  by (simp_all add: session_of_def Logout_def take_reply_def)

text \<open>Every reply handler runs \<open>Logout\<close> on a tracked reply with one of the three errors,
  and leaves the session alone otherwise, the token handler's success path apart.\<close>

lemma handlers_session:
  assumes "reply_ptr reply \<in> set (replies s)"
  shows "session_of (ScrobbleRequestFinished E reply b s) =
           (if session_invalid reply then session_of (Logout s) else session_of s)"
    and "session_of (UpdateNowPlayingRequestFinished E reply s) =
           (if session_invalid reply then session_of (Logout s) else session_of s)"
    and "session_of (LoveRequestFinished E reply s) =
           (if session_invalid reply then session_of (Logout s) else session_of s)"
    and "session_invalid reply \<Longrightarrow>
         session_of (AuthenticateReplyFinished E now reply s) = session_of (Logout s)"
proof -
  show "session_of (ScrobbleRequestFinished E reply b s) =
           (if session_invalid reply then session_of (Logout s) else session_of s)"
    using assms
    by (simp add: ScrobbleRequestFinished_def Let_def case_prod_beta session_of_GetJsonObject)
  show "session_of (UpdateNowPlayingRequestFinished E reply s) =
           (if session_invalid reply then session_of (Logout s) else session_of s)"
    using assms
    by (simp add: UpdateNowPlayingRequestFinished_def Let_def case_prod_beta session_of_GetJsonObject)
  show "session_of (LoveRequestFinished E reply s) =
           (if session_invalid reply then session_of (Logout s) else session_of s)"
    using assms
    by (simp add: LoveRequestFinished_def Let_def case_prod_beta session_of_GetJsonObject)
  show "session_of (AuthenticateReplyFinished E now reply s) = session_of (Logout s)"
    if "session_invalid reply"
  proof -
    from that have "fst (GetJsonObject E reply [] [] s) \<noteq> Success"
      by (rule GetJsonObject_session_invalid)
    with assms obtain reason where "AuthenticateReplyFinished E now reply s =
        (if session_invalid reply then Logout (take_reply (reply_ptr reply) s)
         else take_reply (reply_ptr reply) s)
        \<lparr>emitted := emitted s @ [AuthenticationComplete False reason]\<rparr>"
      using AuthenticateReplyFinished_failure [of reply s E now] by blast
    with that show ?thesis by simp
  qed
qed

text \<open>
  Claim C5 at a failing input. A submission reply with \<^verbatim>\<open>AuthenticationRequiredError\<close>
  arrives at a scrobbler whose settings hold \<open>login_time = 1000\<close>. \<open>Logout\<close> runs: the five
  members are cleared and the keys \<open>access_token\<close>, \<open>expires_in\<close>, \<open>token_type\<close> and
  \<open>refresh_token\<close> are removed, but the key \<open>login_time\<close> is still there.
\<close>

theorem Logout_leaves_persisted_login_time:
  "session_invalid reply_auth_required
   \<and> reply_ptr reply_auth_required \<in> set (replies (Submit example_env (example_scrobbler (queue_of [10]))))
   \<and> st_login_time (settings_store (Submit example_env (example_scrobbler (queue_of [10])))) = Some 1000
   \<and> session_of (ScrobbleRequestFinished example_env reply_auth_required [10]
        (Submit example_env (example_scrobbler (queue_of [10]))))
       = ([], - 1, [], [], 0,
          \<lparr>st_access_token = None, st_expires_in = None, st_token_type = None,
           st_refresh_token = None, st_login_time = Some 1000\<rparr>)
   \<and> st_login_time (settings_store (Logout (example_scrobbler (queue_of [10])))) = Some 1000"
proof -
  let ?s = "Submit example_env (example_scrobbler (queue_of [10]))"
  have i: "session_invalid reply_auth_required"
    by (simp add: session_invalid_def reply_defs)
  have rp: "reply_ptr reply_auth_required \<in> set (replies ?s)"
    by (simp add: example_defs Submit_defs reply_defs)
  have l: "st_login_time (settings_store ?s) = Some 1000"
    by (simp add: Submit_eq example_scrobbler_def)
  have "session_of (ScrobbleRequestFinished example_env reply_auth_required [10] ?s) = session_of (Logout ?s)"
    using handlers_session(1) [OF rp] i by simp
  also have "\<dots> = ([], - 1, [], [], 0,
          \<lparr>st_access_token = None, st_expires_in = None, st_token_type = None,
           st_refresh_token = None, st_login_time = Some 1000\<rparr>)"
    by (simp add: Logout_session Submit_eq example_scrobbler_def)
  finally have w: "session_of (ScrobbleRequestFinished example_env reply_auth_required [10] ?s)
       = ([], - 1, [], [], 0,
          \<lparr>st_access_token = None, st_expires_in = None, st_token_type = None,
           st_refresh_token = None, st_login_time = Some 1000\<rparr>)" .
  have k: "st_login_time (settings_store (Logout (example_scrobbler (queue_of [10])))) = Some 1000"
    by (simp add: Logout_def example_scrobbler_def)
  from i rp l w k show ?thesis by simp
qed

theorem Logout_leaves_persisted_login_time_witness:
  "st_login_time (settings_store (Submit example_env (example_scrobbler (queue_of [10])))) = Some 1000
   \<and> st_login_time (settings_store (Logout (example_scrobbler (queue_of [10])))) = Some 1000"
  using Logout_leaves_persisted_login_time by blast
section \<open>The queue holds each record once\<close>

lemma cache_ok_Add: "cache_ok c \<Longrightarrow> cache_ok (Cache_Add song ts c)"
  by (auto simp: cache_ok_def Cache_Add_def list_all_iff)

lemma cache_ok_Flush: "cache_ok c \<Longrightarrow> cache_ok (Cache_Flush ptrs c)"
  by (auto simp: cache_ok_def Cache_Flush_def fold_removeAll list_all_iff)

lemma cache_ok_items: "cache_ok (c\<lparr>items := h\<rparr>) = cache_ok c"
  by (simp add: cache_ok_def)

lemma cache_ok_flags:
  "cache_ok (Cache_SetError ptrs c) = cache_ok c" "cache_ok (Cache_ClearSent ptrs c) = cache_ok c"
  by (simp_all add: cache_ok_def Cache_SetError_def Cache_ClearSent_def)

lemma Submit_next_item [simp]: "next_item (cache (Submit E s)) = next_item (cache s)"
  by (simp add: Submit_eq)

lemma cache_ok_Submit [simp]: "cache_ok (cache (Submit E s)) = cache_ok (cache s)"
  by (simp add: cache_ok_def Submit_queue)

lemma cache_ok_StartSubmit [simp]: "cache_ok (cache (StartSubmit E initial s)) = cache_ok (cache s)"
  by (simp add: StartSubmit_def Let_def)

lemma cache_ok_Scrobble: "cache_ok (cache s) \<Longrightarrow> cache_ok (cache (Scrobble E song s))"
  by (simp add: Scrobble_def Let_def cache_ok_Add)

lemma cache_ok_CheckScrobblePrevSong:
  "cache_ok (cache s) \<Longrightarrow> cache_ok (cache (CheckScrobblePrevSong E now s))"
  by (simp add: CheckScrobblePrevSong_eq cache_ok_Scrobble)

lemma cache_ok_ScrobbleRequestFinished:
  "cache_ok (cache s) \<Longrightarrow> cache_ok (cache (ScrobbleRequestFinished E reply b s))"
  by (simp add: ScrobbleRequestFinished_def Let_def case_prod_beta cache_ok_Flush cache_ok_flags)

lemma other_handlers_cache [simp]:
  "cache_ok (cache (AuthenticateReplyFinished E now reply s)) = cache_ok (cache s)"
  "cache (UpdateNowPlayingRequestFinished E reply s) = cache s"
  "cache (LoveRequestFinished E reply s) = cache s"
  by (simp_all add: AuthenticateReplyFinished_def UpdateNowPlayingRequestFinished_def
      LoveRequestFinished_def Let_def case_prod_beta)

lemma other_calls_cache [simp]:
  "cache (LoadSession now s) = cache s" "cache (RedirectArrived s) = cache s"
  "cache (RequestAccessToken u code s) = cache s" "cache (Love E s) = cache s"
  by (simp_all add: LoadSession_def RedirectArrived_def RequestAccessToken_def Love_def Let_def
      CreateRequest_def network_post_def connect_finished_def split: option.splits)

lemma step_cache_ok: "cache_ok (cache s) \<Longrightarrow> cache_ok (cache (step E e s))"
proof (cases e)
  case (Ev_finished now reply)
  assume "cache_ok (cache s)"
  then show ?thesis
    by (simp add: Ev_finished finished_def cache_ok_ScrobbleRequestFinished
        split: option.splits slot.splits)
next
  case (Ev_UpdateNowPlaying now now1 song)
  assume "cache_ok (cache s)"
  then show ?thesis
    by (simp add: Ev_UpdateNowPlaying UpdateNowPlaying_cache cache_ok_CheckScrobblePrevSong)
next
  case (Ev_ClearPlaying now)
  assume "cache_ok (cache s)"
  then show ?thesis
    by (simp add: Ev_ClearPlaying ClearPlaying_cache cache_ok_CheckScrobblePrevSong)
next
  case (Ev_Scrobble song)
  assume "cache_ok (cache s)"
  then show ?thesis
    by (simp add: Ev_Scrobble cache_ok_Scrobble)
qed (simp_all add: timer_submit_timeout_def)

lemma run_cache_ok: "cache_ok (cache s) \<Longrightarrow> cache_ok (cache (run es s))"
  by (induction es arbitrary: s) (simp_all add: step_cache_ok)

lemma cache_ok_distinct: "cache_ok c \<Longrightarrow> distinct (Cache_List c)"
  by (simp add: cache_ok_def Cache_List_def)
section \<open>Connected replies are tracked\<close>

lemma connected_tracked_take_reply: "connected_tracked s \<Longrightarrow> connected_tracked (take_reply r s)"
  by (auto simp: connected_tracked_def take_reply_def list_all_iff)

lemma connected_tracked_frames [simp]:
  "connected_tracked (s\<lparr>cache := c\<rparr>) = connected_tracked s"
  "connected_tracked (s\<lparr>submitted := b\<rparr>) = connected_tracked s"
  "connected_tracked (s\<lparr>submit_error := b\<rparr>) = connected_tracked s"
  "connected_tracked (s\<lparr>timer_submit := t\<rparr>) = connected_tracked s"
  "connected_tracked (s\<lparr>emitted := x\<rparr>) = connected_tracked s"
  "connected_tracked (s\<lparr>scrobbled := b\<rparr>) = connected_tracked s"
  "connected_tracked (s\<lparr>server := y\<rparr>) = connected_tracked s"
  "connected_tracked (s\<lparr>refresh_login_timer := t\<rparr>) = connected_tracked s"
  "connected_tracked (s\<lparr>access_token := a\<rparr>) = connected_tracked s"
  "connected_tracked (s\<lparr>expires_in := i\<rparr>) = connected_tracked s"
  "connected_tracked (s\<lparr>token_type := a\<rparr>) = connected_tracked s"
  "connected_tracked (s\<lparr>refresh_token := a\<rparr>) = connected_tracked s"
  "connected_tracked (s\<lparr>login_time := i\<rparr>) = connected_tracked s"
  "connected_tracked (s\<lparr>settings_store := st\<rparr>) = connected_tracked s"
  "connected_tracked (s\<lparr>song_playing := sg\<rparr>) = connected_tracked s"
  "connected_tracked (s\<lparr>timestamp := i\<rparr>) = connected_tracked s"
  "connected_tracked (Logout s) = connected_tracked s"
  "connected_tracked (Error E m s) = connected_tracked s"
  "connected_tracked (AuthError m s) = connected_tracked s"
  "connected_tracked (LoadSession now s) = connected_tracked s"
  by (simp_all add: connected_tracked_def Logout_def Error_def AuthError_def LoadSession_def Let_def)

lemma connected_tracked_request:
  "connected_tracked s \<Longrightarrow>
   connected_tracked (case CreateRequest req s of (reply, s1) \<Rightarrow> connect_finished reply sl s1)"
  by (auto simp: connected_tracked_def CreateRequest_def network_post_def connect_finished_def
      list_all_iff)

lemma connected_tracked_Submit: "connected_tracked s \<Longrightarrow> connected_tracked (Submit E s)"
  by (auto simp: Submit_eq connected_tracked_def list_all_iff)

lemma connected_tracked_StartSubmit:
  "connected_tracked s \<Longrightarrow> connected_tracked (StartSubmit E initial s)"
  by (simp add: StartSubmit_def Let_def connected_tracked_Submit)

lemma connected_tracked_GetJsonObject:
  "connected_tracked (snd (snd (snd (GetJsonObject E reply obj descr s)))) = connected_tracked s"
  by (simp add: GetJsonObject_state)

lemma connected_tracked_handlers:
  assumes "connected_tracked s"
  shows "connected_tracked (ScrobbleRequestFinished E reply b s)"
    and "connected_tracked (AuthenticateReplyFinished E now reply s)"
    and "connected_tracked (UpdateNowPlayingRequestFinished E reply s)"
    and "connected_tracked (LoveRequestFinished E reply s)"
  using assms connected_tracked_take_reply [OF assms, of "reply_ptr reply"]
  by (simp_all add: ScrobbleRequestFinished_def AuthenticateReplyFinished_def
      UpdateNowPlayingRequestFinished_def LoveRequestFinished_def Let_def case_prod_beta
      connected_tracked_GetJsonObject connected_tracked_StartSubmit)

lemma connected_tracked_Scrobble: "connected_tracked s \<Longrightarrow> connected_tracked (Scrobble E song s)"
  by (simp add: Scrobble_def Let_def connected_tracked_StartSubmit)

lemma connected_tracked_CheckScrobblePrevSong:
  "connected_tracked s \<Longrightarrow> connected_tracked (CheckScrobblePrevSong E now s)"
  by (simp add: CheckScrobblePrevSong_eq connected_tracked_Scrobble)

lemma connected_tracked_tracking:
  assumes "connected_tracked s"
  shows "connected_tracked (ClearPlaying E now s)"
    and "connected_tracked (UpdateNowPlaying E now now1 song s)"
proof -
  note c = connected_tracked_CheckScrobblePrevSong [OF assms, of E now]
  then show "connected_tracked (ClearPlaying E now s)"
    by (simp add: ClearPlaying_def Let_def connected_tracked_def)
  from c show "connected_tracked (UpdateNowPlaying E now now1 song s)"
    by (auto simp: UpdateNowPlaying_def Let_def connected_tracked_def CreateRequest_def
        network_post_def connect_finished_def list_all_iff)
qed

lemma connected_tracked_RequestAccessToken:
  "connected_tracked s \<Longrightarrow> connected_tracked (RequestAccessToken u code s)"
  by (auto simp: RequestAccessToken_def Let_def connected_tracked_def network_post_def
      connect_finished_def list_all_iff split: option.splits)

lemma connected_tracked_RedirectArrived:
  "connected_tracked s \<Longrightarrow> connected_tracked (RedirectArrived s)"
  by (simp add: RedirectArrived_def Let_def connected_tracked_RequestAccessToken split: option.splits)

lemma connected_tracked_Love: "connected_tracked s \<Longrightarrow> connected_tracked (Love E s)"
  by (auto simp: Love_def Let_def connected_tracked_def CreateRequest_def network_post_def
      connect_finished_def list_all_iff Error_def)

lemma step_connected_tracked: "connected_tracked s \<Longrightarrow> connected_tracked (step E e s)"
  by (cases e)
    (simp_all add: finished_def connected_tracked_handlers connected_tracked_tracking
      connected_tracked_Scrobble connected_tracked_StartSubmit connected_tracked_Submit
      connected_tracked_RequestAccessToken connected_tracked_RedirectArrived connected_tracked_Love
      timer_submit_timeout_def split: option.splits slot.splits)

lemma run_connected_tracked: "connected_tracked s \<Longrightarrow> connected_tracked (run es s)"
  by (induction es arbitrary: s) (simp_all add: step_connected_tracked)

text \<open>So the reply that \<open>finished\<close> hands to a slot is one of \<^verbatim>\<open>replies_\<close>.\<close>

lemma finished_reply_tracked:
  "connected_tracked s \<Longrightarrow> map_of (connections s) (reply_ptr reply) = Some sl \<Longrightarrow>
   reply_ptr reply \<in> set (replies s)"
  by (auto simp: connected_tracked_def list_all_iff dest!: map_of_SomeD)

end
